theory Spec2Isabelle
  imports Complex_Main "HOL-Library.Sublist" "HOL-Library.List_Lexorder" "HOL-Library.Char_ord"
begin

section \<open>Bytes, errors and results\<close>

text \<open>
  A Go \<^verbatim>\<open>[]byte\<close> and a Go \<^verbatim>\<open>string\<close> are both sequences of 8-bit characters.
  An \<^verbatim>\<open>error\<close> value is a value of the datatype below; a function that returns
  \<^verbatim>\<open>(T, error)\<close> returns \<open>error + T\<close> here, \<open>Inl\<close> being the error. A run-time panic
  (which none of the tools recovers from) is the constructor \<open>Panic\<close>.
\<close>

type_synonym bytes = "char list"

datatype error =
    OSError string string
  | Errorf string
  | CodecError string
  | PushError string
  | SkipDir
  | SkipAll
  | Panic string

section \<open>train-dict: trimming a chunk\<close>

text \<open>
  \<^verbatim>\<open>bytesTrimSpace\<close> has its own notion of white space: the four bytes of its
  \<^verbatim>\<open>case ' ', '\n', '\r', '\t'\<close>.
\<close>

definition isTrimByte :: "char \<Rightarrow> bool" where
  "isTrimByte c = (c = CHR '' '' \<or> c = CHR 0x0A \<or> c = CHR 0x0D \<or> c = CHR 0x09)"

text \<open>The first loop: \<^verbatim>\<open>for start < end { switch input[start] ... start++ / goto endLoop }\<close>.\<close>

function trimStart :: "bytes \<Rightarrow> nat \<Rightarrow> nat \<Rightarrow> nat" where
  "trimStart input start endpos =
     (if start < endpos
      then (if isTrimByte (input ! start) then trimStart input (start + 1) endpos else start)
      else start)"
  by pat_completeness auto
termination
  by (relation "measure (\<lambda>(input, start, endpos). endpos - start)") auto

declare trimStart.simps [simp del]

text \<open>The second loop: \<^verbatim>\<open>for end > start { switch input[end-1] ... end-- / return }\<close>.\<close>

function trimEnd :: "bytes \<Rightarrow> nat \<Rightarrow> nat \<Rightarrow> nat" where
  "trimEnd input start endpos =
     (if endpos > start
      then (if isTrimByte (input ! (endpos - 1)) then trimEnd input start (endpos - 1) else endpos)
      else endpos)"
  by pat_completeness auto
termination
  by (relation "measure (\<lambda>(input, start, endpos). endpos - start)") auto

declare trimEnd.simps [simp del]

text \<open>\<^verbatim>\<open>input[start:end]\<close> with \<open>start \<le> end \<le> len(input)\<close>, which both loops keep.\<close>

definition bytesTrimSpace :: "bytes \<Rightarrow> bytes" where
  "bytesTrimSpace input =
     (let start = trimStart input 0 (length input);
          endpos = trimEnd input start (length input)
      in take (endpos - start) (drop start input))"

section \<open>train-dict: reading the samples of one file\<close>

text \<open>
  The state of the \<^verbatim>\<open>bufio.Reader\<close> over the opened file is the bytes not yet read
  (\<open>rest\<close>) and what the file reports once they are used up: end of file (\<open>None\<close>) or a
  read error (\<open>Some e\<close>). \<^verbatim>\<open>io.ReadFull(reader, buf)\<close> with a buffer of \<open>maxBytes\<close>
  bytes fills the buffer when \<open>rest\<close> has that many bytes and returns no error;
  otherwise it returns the bytes there are together with the read error,
  \<^verbatim>\<open>io.EOF\<close> (nothing read) or \<^verbatim>\<open>io.ErrUnexpectedEOF\<close>. With an empty buffer
  it returns \<open>(0, nil)\<close> at once, so the loop of the source then repeats the same state
  for ever: the loop is a partial function, and not returning is the value \<open>None\<close>.
\<close>

partial_function (option) readLoop ::
  "nat \<Rightarrow> int \<Rightarrow> error option \<Rightarrow> bytes \<Rightarrow> bytes list \<Rightarrow> int \<Rightarrow> (error + bytes list \<times> int) option"
where
  "readLoop maxBytes maxSamples fault rest samples totalBytes =
     (if int (length samples) < maxSamples then
        (if length rest < maxBytes then
           (case fault of
              Some e \<Rightarrow> Some (Inl e)
            | None \<Rightarrow>
                if length rest = 0 then Some (Inr (samples, totalBytes))
                else (let data = bytesTrimSpace rest in
                      if length data > 0
                      then Some (Inr (samples @ [data], totalBytes + int (length data)))
                      else Some (Inr (samples, totalBytes))))
         else
           (let data = bytesTrimSpace (take maxBytes rest) in
            if length data = 0
            then readLoop maxBytes maxSamples fault (drop maxBytes rest) samples totalBytes
            else readLoop maxBytes maxSamples fault (drop maxBytes rest)
                   (samples @ [data]) (totalBytes + int (length data))))
      else Some (Inr (samples, totalBytes)))"

declare readLoop.simps [code]

section \<open>The file store and the operating system\<close>

text \<open>
  The store maps a path to the bytes of the file there (\<open>files\<close>) and knows which paths are
  directories (\<open>dirs\<close>). Reading a file to its end delivers its bytes and then end of file,
  or the read error \<open>faults\<close> gives for the path. A file accepts writes up to its
  \<open>capacity\<close> (\<open>None\<close>: no limit). \<open>stdin\<close> is the lines still to be read from standard
  input. Closing a file does not fail.
\<close>

record world =
  files :: "string \<Rightarrow> bytes option"
  faults :: "string \<Rightarrow> error option"
  capacity :: "string \<Rightarrow> nat option"
  dirs :: "string set"
  stdin :: "string list"

text \<open>
  What \<^verbatim>\<open>filepath.WalkDir\<close> meets below a root: an entry that is not a directory, with its
  type and the result of \<^verbatim>\<open>d.Info()\<close> (an error, or \<^verbatim>\<open>info.Size()\<close>), or a directory,
  with the error of \<^verbatim>\<open>os.ReadDir\<close> (if any) and the entries \<^verbatim>\<open>os.ReadDir\<close> returned, in
  its order (sorted by file name).
\<close>

datatype fmode = ModeRegular | ModeSymlink | ModeNamedPipe | ModeSocket | ModeDevice | ModeIrregular

datatype dirent =
    FileEntry fmode "error + int"
  | DirEntry "error option" "(string \<times> dirent) list"

fun IsDir :: "dirent \<Rightarrow> bool" where
  "IsDir (DirEntry rerr ents) = True"
| "IsDir (FileEntry m info) = False"

section \<open>The generator's records\<close>

record Movie =
  m_ID :: int
  m_Title :: string
  m_Genre :: string
  m_Year :: int
  m_Director :: string
  m_Rating :: real
  m_Runtime :: int
  m_CreatedAt :: string

record Book =
  b_ID :: int
  b_Title :: string
  b_Author :: string
  b_Genre :: string
  b_Year :: int
  b_Pages :: int
  b_Rating :: real
  b_CreatedAt :: string

record Person =
  p_ID :: int
  p_FirstName :: string
  p_LastName :: string
  p_Email :: string
  p_City :: string
  p_Country :: string
  p_Age :: int
  p_CreatedAt :: string

text \<open>The \<^verbatim>\<open>any\<close> that \<^verbatim>\<open>makeItem\<close> returns is one of the three records.\<close>

datatype item = MovieItem Movie | BookItem Book | PersonItem Person

fun itemID :: "item \<Rightarrow> int" where
  "itemID (MovieItem m) = m_ID m"
| "itemID (BookItem b) = b_ID b"
| "itemID (PersonItem p) = p_ID p"

section \<open>What the tools import\<close>

datatype EncoderLevel = SpeedFastest | SpeedDefault | SpeedBetterCompression | SpeedBestCompression

datatype EOption = WithEncoderLevel EncoderLevel | WithEncoderDict bytes

datatype DOption = WithDecoderDicts bytes

record dictOptions =
  MaxDictSize :: int
  HashBytes :: int
  ZstdLevel :: "EncoderLevel option"

text \<open>
  The Go standard library, the zstd and dict packages of klauspost/compress, the
  Pushgateway client and the clock are not code of this repository. Every function below
  takes them as the record \<open>X\<close>:
  \<^item> \<open>TrimSpace\<close>, \<open>ToLower\<close>, \<open>Atoi\<close>, \<open>Itoa\<close>: \<^verbatim>\<open>strings\<close> and \<^verbatim>\<open>strconv\<close>;
  \<^item> \<open>Rel\<close>, \<open>Join\<close>, \<open>Dir\<close>, \<open>Base\<close>: \<^verbatim>\<open>path/filepath\<close>;
  \<^item> \<open>Lstat\<close>: the tree \<^verbatim>\<open>os.Lstat\<close> and \<^verbatim>\<open>os.ReadDir\<close> present at a root in a store;
  \<^item> \<open>EncoderLevelFromZstd\<close>; \<open>NewWriter\<close> and \<open>NewReader\<close>: the error of
    \<^verbatim>\<open>zstd.NewWriter\<close> and \<^verbatim>\<open>zstd.NewReader\<close> for a list of options, if any; \<open>Encode\<close>:
    the frame an encoder with these options writes for the bytes copied into it;
    \<open>Decode\<close>: the bytes a decoder with these options delivers from a stream, and the
    error it ends with, if any;
  \<^item> \<open>BuildZstdDict\<close>: \<^verbatim>\<open>dict.BuildZstdDict\<close>;
  \<^item> \<open>Marshal\<close>: \<^verbatim>\<open>json.Marshal\<close>;
  \<^item> \<open>Push\<close>: the answer of the Pushgateway at a URL to a push of a job with a grouping;
  \<^item> \<open>Now\<close>, \<open>NowRFC3339\<close>: the time, in the two layouts the tools print it in.
  Gauge values are floating-point numbers and are not modelled; registering the
  collectors of a fresh registry under distinct names does not fail.
\<close>

record extern =
  TrimSpace :: "string \<Rightarrow> string"
  ToLower :: "string \<Rightarrow> string"
  Atoi :: "string \<Rightarrow> error + int"
  Itoa :: "int \<Rightarrow> string"
  Rel :: "string \<Rightarrow> string \<Rightarrow> error + string"
  Join :: "string \<Rightarrow> string \<Rightarrow> string"
  Dir :: "string \<Rightarrow> string"
  Base :: "string \<Rightarrow> string"
  Lstat :: "world \<Rightarrow> string \<Rightarrow> error + dirent"
  EncoderLevelFromZstd :: "int \<Rightarrow> EncoderLevel"
  NewWriter :: "EOption list \<Rightarrow> error option"
  Encode :: "EOption list \<Rightarrow> bytes \<Rightarrow> bytes"
  NewReader :: "DOption list \<Rightarrow> error option"
  Decode :: "DOption list \<Rightarrow> bytes \<Rightarrow> bytes \<times> error option"
  BuildZstdDict :: "bytes list \<Rightarrow> dictOptions \<Rightarrow> error + bytes"
  Marshal :: "item \<Rightarrow> error + bytes"
  Push :: "string \<Rightarrow> string \<Rightarrow> (string \<times> string) list \<Rightarrow> error option"
  Now :: string
  NowRFC3339 :: string

definition strings_TrimSuffix :: "string \<Rightarrow> string \<Rightarrow> string" where
  "strings_TrimSuffix s suf = (if suffix suf s then take (length s - length suf) s else s)"

subsection \<open>Operations on the store\<close>

text \<open>\<^verbatim>\<open>os.MkdirAll\<close>: fails where a file is in the way.\<close>

definition os_MkdirAll :: "string \<Rightarrow> world \<Rightarrow> error + world" where
  "os_MkdirAll path w =
     (if files w path \<noteq> None then Inl (OSError ''mkdir'' path)
      else Inr (w\<lparr>dirs := insert path (dirs w)\<rparr>))"

text \<open>\<^verbatim>\<open>os.Open\<close>: the handle of an opened file is its path.\<close>

definition os_Open :: "string \<Rightarrow> world \<Rightarrow> error + string" where
  "os_Open path w = (case files w path of None \<Rightarrow> Inl (OSError ''open'' path) | Some c \<Rightarrow> Inr path)"

text \<open>\<^verbatim>\<open>os.Create\<close>: fails on a directory and in a missing directory; truncates.\<close>

definition os_Create :: "extern \<Rightarrow> string \<Rightarrow> world \<Rightarrow> error + world" where
  "os_Create X path w =
     (if path \<in> dirs w \<or> Dir X path \<notin> dirs w then Inl (OSError ''open'' path)
      else Inr (w\<lparr>files := (files w)(path \<mapsto> [])\<rparr>))"

definition os_Write :: "string \<Rightarrow> bytes \<Rightarrow> world \<Rightarrow> error + world" where
  "os_Write path data w =
     (case files w path of
        None \<Rightarrow> Inl (OSError ''write'' path)
      | Some old \<Rightarrow>
          (case capacity w path of
             None \<Rightarrow> Inr (w\<lparr>files := (files w)(path \<mapsto> old @ data)\<rparr>)
           | Some c \<Rightarrow>
               if length old + length data > c then Inl (OSError ''write'' path)
               else Inr (w\<lparr>files := (files w)(path \<mapsto> old @ data)\<rparr>)))"

definition os_Stat :: "string \<Rightarrow> world \<Rightarrow> error + int" where
  "os_Stat path w =
     (case files w path of
        Some c \<Rightarrow> Inr (int (length c))
      | None \<Rightarrow> if path \<in> dirs w then Inr 4096 else Inl (OSError ''stat'' path))"

definition os_ReadFile :: "string \<Rightarrow> world \<Rightarrow> error + bytes" where
  "os_ReadFile path w =
     (case files w path of
        None \<Rightarrow> Inl (OSError ''open'' path)
      | Some c \<Rightarrow> (case faults w path of Some e \<Rightarrow> Inl e | None \<Rightarrow> Inr c))"

definition os_WriteFile :: "extern \<Rightarrow> string \<Rightarrow> bytes \<Rightarrow> world \<Rightarrow> error + world" where
  "os_WriteFile X path data w =
     (case os_Create X path w of Inl e \<Rightarrow> Inl e | Inr w1 \<Rightarrow> os_Write path data w1)"

section \<open>listFiles\<close>

text \<open>
  \<^verbatim>\<open>filepath.WalkDir\<close>, after its source: \<open>fn\<close> is the callback, which gets the path, the
  entry (none when \<^verbatim>\<open>os.Lstat\<close> of the root failed) and an error, and returns an error or
  none; the variables the callback captures are the state \<open>s\<close>.
\<close>

fun walkDir ::
  "(string \<Rightarrow> string \<Rightarrow> string) \<Rightarrow> (string \<Rightarrow> dirent option \<Rightarrow> error option \<Rightarrow> 's \<Rightarrow> error option \<times> 's)
     \<Rightarrow> string \<Rightarrow> dirent \<Rightarrow> 's \<Rightarrow> error option \<times> 's"
and walkEntries ::
  "(string \<Rightarrow> string \<Rightarrow> string) \<Rightarrow> (string \<Rightarrow> dirent option \<Rightarrow> error option \<Rightarrow> 's \<Rightarrow> error option \<times> 's)
     \<Rightarrow> string \<Rightarrow> (string \<times> dirent) list \<Rightarrow> 's \<Rightarrow> error option \<times> 's"
where
  "walkDir join fn path (FileEntry m info) s = fn path (Some (FileEntry m info)) None s"
| "walkDir join fn path (DirEntry rerr ents) s =
     (case fn path (Some (DirEntry rerr ents)) None s of
        (Some e, s1) \<Rightarrow> (if e = SkipDir then (None, s1) else (Some e, s1))
      | (None, s1) \<Rightarrow>
          (case rerr of
             None \<Rightarrow> walkEntries join fn path ents s1
           | Some re \<Rightarrow>
               (case fn path (Some (DirEntry rerr ents)) (Some re) s1 of
                  (Some e, s2) \<Rightarrow> (if e = SkipDir then (None, s2) else (Some e, s2))
                | (None, s2) \<Rightarrow> walkEntries join fn path ents s2)))"
| "walkEntries join fn path [] s = (None, s)"
| "walkEntries join fn path ((name, d1) # rest) s =
     (case walkDir join fn (join path name) d1 s of
        (Some e, s1) \<Rightarrow> (if e = SkipDir then (None, s1) else (Some e, s1))
      | (None, s1) \<Rightarrow> walkEntries join fn path rest s1)"

definition filepath_WalkDir ::
  "extern \<Rightarrow> world \<Rightarrow> string \<Rightarrow> (string \<Rightarrow> dirent option \<Rightarrow> error option \<Rightarrow> 's \<Rightarrow> error option \<times> 's)
     \<Rightarrow> 's \<Rightarrow> error option \<times> 's" where
  "filepath_WalkDir X w rootPath fn s =
     (case (case Lstat X w rootPath of
              Inl e \<Rightarrow> fn rootPath None (Some e) s
            | Inr d \<Rightarrow> walkDir (Join X) fn rootPath d s) of
        (Some e, s1) \<Rightarrow> (if e = SkipDir \<or> e = SkipAll then (None, s1) else (Some e, s1))
      | (None, s1) \<Rightarrow> (None, s1))"

text \<open>The callback of \<^verbatim>\<open>listFiles\<close>; it appends to the captured \<^verbatim>\<open>paths\<close>.\<close>

definition listFilesFn :: "string \<Rightarrow> dirent option \<Rightarrow> error option \<Rightarrow> string list \<Rightarrow> error option \<times> string list" where
  "listFilesFn path d err paths =
     (case err of
        Some e \<Rightarrow> (Some e, paths)
      | None \<Rightarrow>
          (case d of
             None \<Rightarrow> (None, paths)
           | Some (DirEntry rerr ents) \<Rightarrow> (None, paths)
           | Some (FileEntry m info) \<Rightarrow>
               (case info of
                  Inl e \<Rightarrow> (Some e, paths)
                | Inr sz \<Rightarrow> if sz = 0 then (None, paths) else (None, paths @ [path]))))"

definition listFiles :: "extern \<Rightarrow> world \<Rightarrow> string \<Rightarrow> error + string list" where
  "listFiles X w dir =
     (case filepath_WalkDir X w dir listFilesFn [] of
        (Some e, paths) \<Rightarrow> if e \<noteq> SkipDir then Inl e else Inr (sort paths)
      | (None, paths) \<Rightarrow> Inr (sort paths))"

section \<open>train-dict: collecting the samples\<close>

record sampleStats =
  FilesScanned :: int
  Samples :: int
  SampleBytes :: int

definition contents :: "world \<Rightarrow> string \<Rightarrow> bytes" where
  "contents w path = (case files w path of Some c \<Rightarrow> c | None \<Rightarrow> [])"

text \<open>
  \<^verbatim>\<open>make([]byte, maxBytes)\<close> panics for a negative length. On a read error the source
  returns \<^verbatim>\<open>(nil, total, err)\<close>; the callers use the error only.
\<close>

definition readSamplesFromFile :: "world \<Rightarrow> string \<Rightarrow> int \<Rightarrow> int \<Rightarrow> (error + bytes list \<times> int) option" where
  "readSamplesFromFile w path maxBytes maxSamples =
     (case os_Open path w of
        Inl e \<Rightarrow> Some (Inl e)
      | Inr file \<Rightarrow>
          if maxBytes < 0 then Some (Inl (Panic ''makeslice: len out of range''))
          else readLoop (nat maxBytes) maxSamples (faults w file) (contents w file) [] 0)"

definition minInt :: "int \<Rightarrow> int \<Rightarrow> int" where
  "minInt a b = (if a < b then a else b)"

fun collectLoop ::
  "world \<Rightarrow> int \<Rightarrow> int \<Rightarrow> string list \<Rightarrow> bytes list \<Rightarrow> sampleStats \<Rightarrow> (error + bytes list \<times> sampleStats) option"
where
  "collectLoop w maxSamples maxSampleBytes [] samples stats = Some (Inr (samples, stats))"
| "collectLoop w maxSamples maxSampleBytes (path # paths) samples stats =
     (if int (length samples) \<ge> maxSamples then Some (Inr (samples, stats))
      else
        (case readSamplesFromFile w path maxSampleBytes (maxSamples - int (length samples)) of
           None \<Rightarrow> None
         | Some (Inl e) \<Rightarrow> Some (Inl e)
         | Some (Inr (chunks, readBytes)) \<Rightarrow>
             if length chunks = 0
             then collectLoop w maxSamples maxSampleBytes paths samples stats
             else collectLoop w maxSamples maxSampleBytes paths (samples @ chunks)
                    (stats\<lparr>FilesScanned := FilesScanned stats + 1,
                            Samples := Samples stats + int (length chunks),
                            SampleBytes := SampleBytes stats + readBytes\<rparr>)))"

text \<open>
  \<^verbatim>\<open>make([][]byte, 0, min(maxSamples, len(paths)))\<close> panics for a negative capacity.
\<close>

definition collectSamples ::
  "extern \<Rightarrow> world \<Rightarrow> string \<Rightarrow> int \<Rightarrow> int \<Rightarrow> (error + bytes list \<times> sampleStats) option" where
  "collectSamples X w dir maxSamples maxSampleBytes =
     (case listFiles X w dir of
        Inl e \<Rightarrow> Some (Inl e)
      | Inr paths \<Rightarrow>
          if length paths = 0 then Some (Inl (Errorf (''no files found in '' @ dir)))
          else if minInt maxSamples (int (length paths)) < 0
          then Some (Inl (Panic ''makeslice: cap out of range''))
          else
            (case collectLoop w maxSamples maxSampleBytes paths []
                    \<lparr>FilesScanned = 0, Samples = 0, SampleBytes = 0\<rparr> of
               None \<Rightarrow> None
             | Some (Inl e) \<Rightarrow> Some (Inl e)
             | Some (Inr (samples, stats)) \<Rightarrow>
                 if length samples < 2
                 then Some (Inl (Errorf (''not enough samples to train (got ''
                        @ Itoa X (int (length samples))
                        @ ''). Increase data or lower max-sample-bytes to create more chunks'')))
                 else Some (Inr (samples, stats))))"

definition parseZstdLevel :: "int \<Rightarrow> EncoderLevel" where
  "parseZstdLevel level =
     (if level = 1 then SpeedFastest
      else if level = 2 then SpeedDefault
      else if level = 3 then SpeedBetterCompression
      else if level = 4 then SpeedBestCompression
      else SpeedBestCompression)"

section \<open>compress and decompress: the batch functions\<close>

record runStats =
  FilesProcessed :: int
  InputBytes :: int
  OutputBytes :: int

text \<open>
  \<^verbatim>\<open>encoder.Reset(outFile); io.Copy(encoder, inFile); encoder.Close()\<close>: the encoder
  takes the bytes of the input file as they are in the store now, and closing it writes
  the frame of what it took to the output file. The result is \<^verbatim>\<open>written\<close>, the error
  left in \<^verbatim>\<open>err\<close> (the copy's error, else the error of \<^verbatim>\<open>Close\<close>) and the store.
\<close>

definition encodeCopy ::
  "extern \<Rightarrow> EOption list \<Rightarrow> string \<Rightarrow> string \<Rightarrow> world \<Rightarrow> int \<times> error option \<times> world" where
  "encodeCopy X options outFile inFile w =
     (let input = contents w inFile; rerr = faults w inFile in
      case os_Write outFile (Encode X options input) w of
        Inl e \<Rightarrow> (int (length input), (case rerr of Some r \<Rightarrow> Some r | None \<Rightarrow> Some e), w)
      | Inr w1 \<Rightarrow> (int (length input), rerr, w1))"

fun compressLoop ::
  "extern \<Rightarrow> EOption list \<Rightarrow> string list \<Rightarrow> string \<Rightarrow> string \<Rightarrow> runStats \<Rightarrow> world
     \<Rightarrow> runStats \<times> error option \<times> world"
where
  "compressLoop X encoder [] baseDir outDir stats w = (stats, None, w)"
| "compressLoop X encoder (path # paths) baseDir outDir stats w =
     (case Rel X baseDir path of
        Inl e \<Rightarrow> (stats, Some e, w)
      | Inr rel \<Rightarrow>
          (let outPath = Join X outDir rel @ ''.zst'' in
           case os_MkdirAll (Dir X outPath) w of
             Inl e \<Rightarrow> (stats, Some e, w)
           | Inr w1 \<Rightarrow>
               (case os_Open path w1 of
                  Inl e \<Rightarrow> (stats, Some e, w1)
                | Inr inFile \<Rightarrow>
                    (case os_Create X outPath w1 of
                       Inl e \<Rightarrow> (stats, Some e, w1)
                     | Inr w2 \<Rightarrow>
                         (case encodeCopy X encoder outPath inFile w2 of
                            (written, Some e, w3) \<Rightarrow> (stats, Some e, w3)
                          | (written, None, w3) \<Rightarrow>
                              (case os_Stat outPath w3 of
                                 Inl e \<Rightarrow> (stats, Some e, w3)
                               | Inr sz \<Rightarrow>
                                   compressLoop X encoder paths baseDir outDir
                                     (stats\<lparr>FilesProcessed := FilesProcessed stats + 1,
                                             InputBytes := InputBytes stats + written,
                                             OutputBytes := OutputBytes stats + sz\<rparr>) w3))))))"

definition compressOptions :: "extern \<Rightarrow> int \<Rightarrow> bytes \<Rightarrow> EOption list" where
  "compressOptions X level dictBytes =
     (if level \<noteq> 0 then [WithEncoderLevel (EncoderLevelFromZstd X level)] else [])
     @ (if length dictBytes > 0 then [WithEncoderDict dictBytes] else [])"

definition compressFiles ::
  "extern \<Rightarrow> string list \<Rightarrow> string \<Rightarrow> string \<Rightarrow> int \<Rightarrow> bytes \<Rightarrow> world \<Rightarrow> runStats \<times> error option \<times> world" where
  "compressFiles X paths baseDir outDir level dictBytes w =
     (let stats = \<lparr>FilesProcessed = 0, InputBytes = 0, OutputBytes = 0\<rparr>;
          options = compressOptions X level dictBytes
      in case NewWriter X options of
           Some e \<Rightarrow> (stats, Some e, w)
         | None \<Rightarrow> compressLoop X options paths baseDir outDir stats w)"

text \<open>
  \<^verbatim>\<open>decoder.Reset(inFile); io.Copy(outFile, decoder)\<close>: what the decoder delivers is
  written to the output file; the copy ends with the error of the write, of the decoder
  or of the read, if any.
\<close>

definition decodeCopy ::
  "extern \<Rightarrow> DOption list \<Rightarrow> string \<Rightarrow> string \<Rightarrow> world \<Rightarrow> int \<times> error option \<times> world" where
  "decodeCopy X options outFile inFile w =
     (case Decode X options (contents w inFile) of
        (output, derr) \<Rightarrow>
          (case os_Write outFile output w of
             Inl e \<Rightarrow> (0, Some e, w)
           | Inr w1 \<Rightarrow>
               (int (length output),
                (case derr of Some d \<Rightarrow> Some d | None \<Rightarrow> faults w inFile), w1)))"

text \<open>The output path of one file, relative to the output directory.\<close>

definition decompressOutRel :: "string \<Rightarrow> string" where
  "decompressOutRel rel =
     (let outRel = strings_TrimSuffix rel ''.zst'' in
      if outRel = rel then rel @ ''.out'' else outRel)"

fun decompressLoop ::
  "extern \<Rightarrow> DOption list \<Rightarrow> string list \<Rightarrow> string \<Rightarrow> string \<Rightarrow> runStats \<Rightarrow> world
     \<Rightarrow> runStats \<times> error option \<times> world"
where
  "decompressLoop X decoder [] baseDir outDir stats w = (stats, None, w)"
| "decompressLoop X decoder (path # paths) baseDir outDir stats w =
     (case Rel X baseDir path of
        Inl e \<Rightarrow> (stats, Some e, w)
      | Inr rel \<Rightarrow>
          (let outPath = Join X outDir (decompressOutRel rel) in
           case os_MkdirAll (Dir X outPath) w of
             Inl e \<Rightarrow> (stats, Some e, w)
           | Inr w1 \<Rightarrow>
               (case os_Open path w1 of
                  Inl e \<Rightarrow> (stats, Some e, w1)
                | Inr inFile \<Rightarrow>
                    (case os_Create X outPath w1 of
                       Inl e \<Rightarrow> (stats, Some e, w1)
                     | Inr w2 \<Rightarrow>
                         (case decodeCopy X decoder outPath inFile w2 of
                            (written, Some e, w3) \<Rightarrow> (stats, Some e, w3)
                          | (written, None, w3) \<Rightarrow>
                              (case os_Stat path w3 of
                                 Inl e \<Rightarrow> (stats, Some e, w3)
                               | Inr sz \<Rightarrow>
                                   decompressLoop X decoder paths baseDir outDir
                                     (stats\<lparr>FilesProcessed := FilesProcessed stats + 1,
                                             InputBytes := InputBytes stats + sz,
                                             OutputBytes := OutputBytes stats + written\<rparr>) w3))))))"

definition decompressOptions :: "bytes \<Rightarrow> DOption list" where
  "decompressOptions dictBytes = (if length dictBytes > 0 then [WithDecoderDicts dictBytes] else [])"

definition decompressFiles ::
  "extern \<Rightarrow> string list \<Rightarrow> string \<Rightarrow> string \<Rightarrow> bytes \<Rightarrow> world \<Rightarrow> runStats \<times> error option \<times> world" where
  "decompressFiles X paths baseDir outDir dictBytes w =
     (let stats = \<lparr>FilesProcessed = 0, InputBytes = 0, OutputBytes = 0\<rparr>;
          options = decompressOptions dictBytes
      in case NewReader X options of
           Some e \<Rightarrow> (stats, Some e, w)
         | None \<Rightarrow> decompressLoop X options paths baseDir outDir stats w)"

section \<open>The four programs\<close>

text \<open>
  A run of a \<^verbatim>\<open>main\<close> ends with an exit code, the store as it left it and the trace
  of what it did, in order: the calls that touch the store or the network, the lines
  written to standard error (with the error printed, if any) and to standard output, a
  panic.
\<close>

datatype event =
    EvStderr string
  | EvStderrErr string error
  | EvStdout string
  | EvMkdirAll string
  | EvListFiles string
  | EvReadFile string
  | EvCompressFiles
  | EvDecompressFiles
  | EvCollectSamples
  | EvBuildZstdDict
  | EvWriteFile string
  | EvWriteJSONArray string
  | EvPush string
  | EvPanic string

record outcome =
  exitCode :: int
  trace :: "event list"
  disk :: world

definition FormatBool :: "bool \<Rightarrow> string" where
  "FormatBool b = (if b then ''true'' else ''false'')"

definition sourceLabelOf :: "extern \<Rightarrow> string \<Rightarrow> string \<Rightarrow> string" where
  "sourceLabelOf X inputDir dflt =
     (let sourceLabel = Base X inputDir in
      if sourceLabel = ''.'' \<or> sourceLabel = ''/'' then dflt else sourceLabel)"

subsection \<open>compress\<close>

record compressFlags =
  c_inputDir :: string
  c_outDir :: string
  c_level :: int
  c_useDict :: bool
  c_dictPath :: string
  c_pushURL :: string

definition compress_pushMetrics :: "extern \<Rightarrow> string \<Rightarrow> runStats \<Rightarrow> string \<Rightarrow> int \<Rightarrow> bool \<Rightarrow> error option" where
  "compress_pushMetrics X pushURL stats source level useDict =
     (let source1 = TrimSpace X source;
          source2 = (if source1 = [] then ''output'' else source1);
          levelLabel = (if level \<noteq> 0 then Itoa X level else ''default'')
      in Push X pushURL ''compress''
           [(''source'', source2), (''use_dict'', FormatBool useDict), (''level'', levelLabel)])"

definition compress_main :: "extern \<Rightarrow> compressFlags \<Rightarrow> world \<Rightarrow> outcome" where
  "compress_main X f w =
     (if c_useDict f \<and> TrimSpace X (c_dictPath f) = []
      then \<lparr>exitCode = 1, trace = [EvStderr ''-dict is required when -use-dict is set''], disk = w\<rparr>
      else
        (case os_MkdirAll (c_outDir f) w of
           Inl e \<Rightarrow>
             \<lparr>exitCode = 1,
              trace = [EvMkdirAll (c_outDir f), EvStderrErr ''failed to create output dir'' e],
              disk = w\<rparr>
         | Inr w1 \<Rightarrow>
             (let tr1 = [EvMkdirAll (c_outDir f), EvListFiles (c_inputDir f)] in
              case listFiles X w1 (c_inputDir f) of
                Inl e \<Rightarrow>
                  \<lparr>exitCode = 1, trace = tr1 @ [EvStderrErr ''failed to list input files'' e], disk = w1\<rparr>
              | Inr paths \<Rightarrow>
                  if length paths = 0
                  then \<lparr>exitCode = 1, trace = tr1 @ [EvStderr (''no files found in '' @ c_inputDir f)],
                        disk = w1\<rparr>
                  else
                    (let tr2 = tr1 @ (if c_useDict f then [EvReadFile (c_dictPath f)] else []) in
                     case (if c_useDict f then os_ReadFile (c_dictPath f) w1 else Inr []) of
                       Inl e \<Rightarrow>
                         \<lparr>exitCode = 1, trace = tr2 @ [EvStderrErr ''failed to read dict'' e], disk = w1\<rparr>
                     | Inr dictBytes \<Rightarrow>
                         (case compressFiles X paths (c_inputDir f) (c_outDir f) (c_level f) dictBytes w1 of
                            (stats, Some e, w2) \<Rightarrow>
                              \<lparr>exitCode = 1,
                               trace = tr2 @ [EvCompressFiles, EvStderrErr ''compression failed'' e],
                               disk = w2\<rparr>
                          | (stats, None, w2) \<Rightarrow>
                              (case compress_pushMetrics X (c_pushURL f) stats
                                      (sourceLabelOf X (c_inputDir f) ''output'') (c_level f) (c_useDict f) of
                                 Some e \<Rightarrow>
                                   \<lparr>exitCode = 1,
                                    trace = tr2 @ [EvCompressFiles, EvPush ''compress'',
                                                   EvStderrErr ''metrics push failed'' e],
                                    disk = w2\<rparr>
                               | None \<Rightarrow>
                                   \<lparr>exitCode = 0,
                                    trace = tr2 @ [EvCompressFiles, EvPush ''compress'',
                                      EvStdout (''compressed '' @ Itoa X (FilesProcessed stats)
                                        @ '' files ('' @ Itoa X (InputBytes stats) @ '' bytes -> ''
                                        @ Itoa X (OutputBytes stats) @ '' bytes) into '' @ c_outDir f)],
                                    disk = w2\<rparr>))))))"

subsection \<open>decompress\<close>

record decompressFlags =
  d_inputDir :: string
  d_outDir :: string
  d_useDict :: bool
  d_dictPath :: string
  d_runID :: string
  d_pushURL :: string

definition decompress_pushMetrics :: "extern \<Rightarrow> string \<Rightarrow> runStats \<Rightarrow> string \<Rightarrow> bool \<Rightarrow> string \<Rightarrow> error option" where
  "decompress_pushMetrics X pushURL stats source useDict runID =
     (let source1 = TrimSpace X source;
          source2 = (if source1 = [] then ''compressed'' else source1)
      in Push X pushURL ''decompress''
           [(''source'', source2), (''use_dict'', FormatBool useDict), (''run_id'', runID)])"

definition decompress_main :: "extern \<Rightarrow> decompressFlags \<Rightarrow> world \<Rightarrow> outcome" where
  "decompress_main X f w =
     (if d_useDict f \<and> TrimSpace X (d_dictPath f) = []
      then \<lparr>exitCode = 1, trace = [EvStderr ''-dict is required when -use-dict is set''], disk = w\<rparr>
      else
        (case os_MkdirAll (d_outDir f) w of
           Inl e \<Rightarrow>
             \<lparr>exitCode = 1,
              trace = [EvMkdirAll (d_outDir f), EvStderrErr ''failed to create output dir'' e],
              disk = w\<rparr>
         | Inr w1 \<Rightarrow>
             (let tr1 = [EvMkdirAll (d_outDir f), EvListFiles (d_inputDir f)] in
              case listFiles X w1 (d_inputDir f) of
                Inl e \<Rightarrow>
                  \<lparr>exitCode = 1, trace = tr1 @ [EvStderrErr ''failed to list input files'' e], disk = w1\<rparr>
              | Inr paths \<Rightarrow>
                  if length paths = 0
                  then \<lparr>exitCode = 1, trace = tr1 @ [EvStderr (''no files found in '' @ d_inputDir f)],
                        disk = w1\<rparr>
                  else
                    (let tr2 = tr1 @ (if d_useDict f then [EvReadFile (d_dictPath f)] else []) in
                     case (if d_useDict f then os_ReadFile (d_dictPath f) w1 else Inr []) of
                       Inl e \<Rightarrow>
                         \<lparr>exitCode = 1, trace = tr2 @ [EvStderrErr ''failed to read dict'' e], disk = w1\<rparr>
                     | Inr dictBytes \<Rightarrow>
                         (case decompressFiles X paths (d_inputDir f) (d_outDir f) dictBytes w1 of
                            (stats, Some e, w2) \<Rightarrow>
                              \<lparr>exitCode = 1,
                               trace = tr2 @ [EvDecompressFiles, EvStderrErr ''decompression failed'' e],
                               disk = w2\<rparr>
                          | (stats, None, w2) \<Rightarrow>
                              (let runID = (if TrimSpace X (d_runID f) = [] then Now X else d_runID f) in
                               case decompress_pushMetrics X (d_pushURL f) stats
                                      (sourceLabelOf X (d_inputDir f) ''compressed'') (d_useDict f) runID of
                                 Some e \<Rightarrow>
                                   \<lparr>exitCode = 1,
                                    trace = tr2 @ [EvDecompressFiles, EvPush ''decompress'',
                                                   EvStderrErr ''metrics push failed'' e],
                                    disk = w2\<rparr>
                               | None \<Rightarrow>
                                   \<lparr>exitCode = 0,
                                    trace = tr2 @ [EvDecompressFiles, EvPush ''decompress'',
                                      EvStdout (''decompressed '' @ Itoa X (FilesProcessed stats)
                                        @ '' files ('' @ Itoa X (InputBytes stats) @ '' bytes -> ''
                                        @ Itoa X (OutputBytes stats) @ '' bytes) into '' @ d_outDir f)],
                                    disk = w2\<rparr>))))))"

subsection \<open>train-dict\<close>

record trainFlags =
  t_inputDir :: string
  t_outDir :: string
  t_outFile :: string
  t_dictSize :: int
  t_maxSamples :: int
  t_maxSampleBytes :: int
  t_zstdLevel :: int
  t_pushURL :: string

definition train_pushMetrics :: "extern \<Rightarrow> string \<Rightarrow> sampleStats \<Rightarrow> int \<Rightarrow> int \<Rightarrow> string \<Rightarrow> error option" where
  "train_pushMetrics X pushURL stats outputBytes dictSize source =
     (let source1 = TrimSpace X source;
          source2 = (if source1 = [] then ''output'' else source1)
      in Push X pushURL ''train-dict'' [(''source'', source2), (''dict_size'', Itoa X dictSize)])"

definition trainOptions :: "trainFlags \<Rightarrow> dictOptions" where
  "trainOptions f =
     \<lparr>MaxDictSize = t_dictSize f, HashBytes = 6,
      ZstdLevel = (if t_zstdLevel f > 0 then Some (parseZstdLevel (t_zstdLevel f)) else None)\<rparr>"

fun isPanic :: "error \<Rightarrow> bool" where
  "isPanic (Panic m) = True"
| "isPanic e = False"

text \<open>
  The run of \<^verbatim>\<open>main\<close>; \<open>None\<close> when it does not end. A panic ends the process with
  exit code 2.
\<close>

definition train_main :: "extern \<Rightarrow> trainFlags \<Rightarrow> world \<Rightarrow> outcome option" where
  "train_main X f w =
     (if t_dictSize f \<le> 0
      then Some \<lparr>exitCode = 1, trace = [EvStderr ''dict-size must be positive''], disk = w\<rparr>
      else if t_maxSamples f \<le> 0
      then Some \<lparr>exitCode = 1, trace = [EvStderr ''max-samples must be positive''], disk = w\<rparr>
      else if t_maxSampleBytes f \<le> 0
      then Some \<lparr>exitCode = 1, trace = [EvStderr ''max-sample-bytes must be positive''], disk = w\<rparr>
      else
        (case os_MkdirAll (t_outDir f) w of
           Inl e \<Rightarrow>
             Some \<lparr>exitCode = 1,
                   trace = [EvMkdirAll (t_outDir f), EvStderrErr ''failed to create output dir'' e],
                   disk = w\<rparr>
         | Inr w1 \<Rightarrow>
             (let outputPath =
                    (if t_outFile f = []
                     then Join X (t_outDir f) (''zstd_dict_'' @ Now X @ ''.zdict'')
                     else t_outFile f);
                  tr1 = [EvMkdirAll (t_outDir f), EvCollectSamples]
              in case collectSamples X w1 (t_inputDir f) (t_maxSamples f) (t_maxSampleBytes f) of
                   None \<Rightarrow> None
                 | Some (Inl e) \<Rightarrow>
                     if isPanic e
                     then Some \<lparr>exitCode = 2, trace = tr1 @ [EvPanic ''collectSamples''], disk = w1\<rparr>
                     else Some \<lparr>exitCode = 1,
                                trace = tr1 @ [EvStderrErr ''failed to collect samples'' e], disk = w1\<rparr>
                 | Some (Inr (samples, stats)) \<Rightarrow>
                     (let tr2 = tr1 @ [EvBuildZstdDict] in
                      case BuildZstdDict X samples (trainOptions f) of
                        Inl e \<Rightarrow>
                          Some \<lparr>exitCode = 1,
                                trace = tr2 @ [EvStderrErr ''failed to train dictionary'' e], disk = w1\<rparr>
                      | Inr trained \<Rightarrow>
                          (let tr3 = tr2 @ [EvMkdirAll (Dir X outputPath)] in
                           case os_MkdirAll (Dir X outputPath) w1 of
                             Inl e \<Rightarrow>
                               Some \<lparr>exitCode = 1,
                                     trace = tr3 @ [EvStderrErr ''failed to create output dir'' e],
                                     disk = w1\<rparr>
                           | Inr w2 \<Rightarrow>
                               (let tr4 = tr3 @ [EvWriteFile outputPath] in
                                case os_WriteFile X outputPath trained w2 of
                                  Inl e \<Rightarrow>
                                    Some \<lparr>exitCode = 1,
                                          trace = tr4 @ [EvStderrErr ''failed to write dictionary'' e],
                                          disk = w2\<rparr>
                                | Inr w3 \<Rightarrow>
                                    (case train_pushMetrics X (t_pushURL f) stats (int (length trained))
                                            (t_dictSize f) (sourceLabelOf X (t_inputDir f) ''output'') of
                                       Some e \<Rightarrow>
                                         Some \<lparr>exitCode = 1,
                                               trace = tr4 @ [EvPush ''train-dict'',
                                                              EvStderrErr ''metrics push failed'' e],
                                               disk = w3\<rparr>
                                     | None \<Rightarrow>
                                         Some \<lparr>exitCode = 0,
                                               trace = tr4 @ [EvPush ''train-dict'',
                                                 EvStdout (''trained dictionary '' @ outputPath @ '' (''
                                                   @ Itoa X (int (length trained)) @ '' bytes) from ''
                                                   @ Itoa X (Samples stats) @ '' samples'')],
                                               disk = w3\<rparr>)))))))"

subsection \<open>generate-data\<close>

text \<open>
  The state of the \<^verbatim>\<open>*rand.Rand\<close> is the sequence of its raw draws and the number of
  draws made. \<^verbatim>\<open>Intn(n)\<close> is some number from 0 up to \<open>n - 1\<close> (\<open>n\<close> is a positive
  constant at every call), \<^verbatim>\<open>Float64()\<close> some number from 0 up to, not including, 1;
  the ratings are computed over the reals, without rounding.
\<close>

record rng =
  draws :: "nat \<Rightarrow> nat"
  drawn :: nat

definition Intn :: "rng \<Rightarrow> int \<Rightarrow> int \<times> rng" where
  "Intn r n = (int (draws r (drawn r) mod nat n), r\<lparr>drawn := drawn r + 1\<rparr>)"

definition Float64 :: "rng \<Rightarrow> real \<times> rng" where
  "Float64 r = (real (draws r (drawn r) mod 2 ^ 53) / 2 ^ 53, r\<lparr>drawn := drawn r + 1\<rparr>)"

definition pick :: "rng \<Rightarrow> string list \<Rightarrow> string \<times> rng" where
  "pick r items = (case Intn r (int (length items)) of (i, r1) \<Rightarrow> (items ! nat i, r1))"

definition randFloat :: "rng \<Rightarrow> real \<Rightarrow> real \<Rightarrow> real \<times> rng" where
  "randFloat r lo hi = (case Float64 r of (x, r1) \<Rightarrow> (lo + x * (hi - lo), r1))"

definition movieTitles :: "string list" where
  "movieTitles = [''Silent Horizon'', ''Crimson Valley'', ''Echoes of Tomorrow'', ''Northbound'',
     ''Astra Drift'', ''Blue Lantern'', ''Midnight Harbor'', ''Glass River'']"

definition movieGenres :: "string list" where
  "movieGenres = [''Drama'', ''Sci-Fi'', ''Thriller'', ''Comedy'', ''Adventure'', ''Mystery'']"

definition directors :: "string list" where
  "directors = [''Avery Quinn'', ''Morgan Ellis'', ''Riley Chen'', ''Harper Singh'', ''Jordan Blake'',
     ''Taylor Reyes'']"

definition bookTitles :: "string list" where
  "bookTitles = [''The Last Orchard'', ''Paper Cities'', ''Sparks in Winter'',
     ''The River and the Road'', ''Atlas of Dust'', ''The Ninth Signal'']"

definition bookGenres :: "string list" where
  "bookGenres = [''Fantasy'', ''Historical'', ''Non-Fiction'', ''Mystery'', ''Romance'', ''Sci-Fi'']"

definition authors :: "string list" where
  "authors = [''Samira Holt'', ''Eli Navarro'', ''Priya Kapoor'', ''Luca Moretti'', ''Noah Sterling'',
     ''Yuna Park'']"

definition firstNames :: "string list" where
  "firstNames = [''Ava'', ''Liam'', ''Maya'', ''Ethan'', ''Isla'', ''Noah'', ''Zoe'', ''Amir'', ''Nora'', ''Leo'']"

definition lastNames :: "string list" where
  "lastNames = [''Johnson'', ''Khan'', ''Patel'', ''Garcia'', ''Nguyen'', ''Smith'', ''Rossi'', ''Wright'']"

definition cities :: "string list" where
  "cities = [''Austin'', ''Seattle'', ''Denver'', ''Toronto'', ''Dublin'', ''Oslo'', ''Berlin'', ''Lisbon'']"

definition countries :: "string list" where
  "countries = [''USA'', ''Canada'', ''Ireland'', ''Norway'', ''Germany'', ''Portugal'']"

definition makeMovie :: "extern \<Rightarrow> rng \<Rightarrow> int \<Rightarrow> Movie \<times> rng" where
  "makeMovie X r0 id' =
     (case pick r0 movieTitles of (title, r1) \<Rightarrow>
      case pick r1 movieGenres of (genre, r2) \<Rightarrow>
      case Intn r2 45 of (year, r3) \<Rightarrow>
      case pick r3 directors of (director, r4) \<Rightarrow>
      case randFloat r4 5.5 9.8 of (rating, r5) \<Rightarrow>
      case Intn r5 81 of (runtime, r6) \<Rightarrow>
        (\<lparr>m_ID = id', m_Title = title, m_Genre = genre, m_Year = year + 1980,
          m_Director = director, m_Rating = rating, m_Runtime = runtime + 80,
          m_CreatedAt = NowRFC3339 X\<rparr>, r6))"

definition makeBook :: "extern \<Rightarrow> rng \<Rightarrow> int \<Rightarrow> Book \<times> rng" where
  "makeBook X r0 id' =
     (case pick r0 bookTitles of (title, r1) \<Rightarrow>
      case pick r1 authors of (author, r2) \<Rightarrow>
      case pick r2 bookGenres of (genre, r3) \<Rightarrow>
      case Intn r3 60 of (year, r4) \<Rightarrow>
      case Intn r4 450 of (pages, r5) \<Rightarrow>
      case randFloat r5 3.5 5.0 of (rating, r6) \<Rightarrow>
        (\<lparr>b_ID = id', b_Title = title, b_Author = author, b_Genre = genre, b_Year = year + 1965,
          b_Pages = pages + 150, b_Rating = rating, b_CreatedAt = NowRFC3339 X\<rparr>, r6))"

definition makePerson :: "extern \<Rightarrow> rng \<Rightarrow> int \<Rightarrow> Person \<times> rng" where
  "makePerson X r0 id' =
     (case pick r0 firstNames of (first, r1) \<Rightarrow>
      case pick r1 lastNames of (last', r2) \<Rightarrow>
      case pick r2 cities of (city, r3) \<Rightarrow>
      case pick r3 countries of (country, r4) \<Rightarrow>
      case Intn r4 52 of (age, r5) \<Rightarrow>
        (\<lparr>p_ID = id', p_FirstName = first, p_LastName = last',
          p_Email = ToLower X (first @ ''.'' @ last' @ ''@example.com''),
          p_City = city, p_Country = country, p_Age = age + 18,
          p_CreatedAt = NowRFC3339 X\<rparr>, r5))"

text \<open>
  \<^verbatim>\<open>writeJSONArray\<close>. The buffer of the \<^verbatim>\<open>bufio.Writer\<close> is left out: each
  \<^verbatim>\<open>WriteString\<close> and \<^verbatim>\<open>Write\<close> goes to the file at once, and the deferred
  \<^verbatim>\<open>Flush\<close> and \<^verbatim>\<open>Close\<close> have nothing left to do. The two agree on every run in which
  the file accepts all that is written (on a file that refuses a write the source can
  return no error, since it drops the error of the deferred \<^verbatim>\<open>Flush\<close>).
  \<open>makeItem\<close> draws from the generator it captures: it takes and returns its state.
\<close>

function writeItems ::
  "extern \<Rightarrow> string \<Rightarrow> int \<Rightarrow> (int \<Rightarrow> rng \<Rightarrow> item \<times> rng) \<Rightarrow> int \<Rightarrow> rng \<Rightarrow> world
     \<Rightarrow> error option \<times> rng \<times> world"
where
  "writeItems X path count makeItem i r w =
     (if i < count then
        (case (if i > 0 then os_Write path [CHR '','', CHR 0x0A] w else Inr w) of
           Inl e \<Rightarrow> (Some e, r, w)
         | Inr w1 \<Rightarrow>
             (case makeItem i r of
                (item, r1) \<Rightarrow>
                  (case Marshal X item of
                     Inl e \<Rightarrow> (Some e, r1, w1)
                   | Inr data \<Rightarrow>
                       (case os_Write path data w1 of
                          Inl e \<Rightarrow> (Some e, r1, w1)
                        | Inr w2 \<Rightarrow> writeItems X path count makeItem (i + 1) r1 w2))))
      else (None, r, w))"
  by pat_completeness auto
termination
  by (relation "measure (\<lambda>(X, path, count, makeItem, i, r, w). nat (count - i))") auto

declare writeItems.simps [simp del]

definition writeJSONArray ::
  "extern \<Rightarrow> string \<Rightarrow> int \<Rightarrow> (int \<Rightarrow> rng \<Rightarrow> item \<times> rng) \<Rightarrow> rng \<Rightarrow> world
     \<Rightarrow> error option \<times> rng \<times> world" where
  "writeJSONArray X path count makeItem r w =
     (case os_Create X path w of
        Inl e \<Rightarrow> (Some e, r, w)
      | Inr w1 \<Rightarrow>
          (case os_Write path [CHR ''['', CHR 0x0A] w1 of
             Inl e \<Rightarrow> (Some e, r, w1)
           | Inr w2 \<Rightarrow>
               (case writeItems X path count makeItem 0 r w2 of
                  (Some e, r1, w3) \<Rightarrow> (Some e, r1, w3)
                | (None, r1, w3) \<Rightarrow>
                    (case os_Write path [CHR 0x0A, CHR '']'', CHR 0x0A] w3 of
                       Inl e \<Rightarrow> (Some e, r1, w3)
                     | Inr w4 \<Rightarrow> (None, r1, w4)))))"

text \<open>
  The prompts read standard input line by line; the result is the answer (\<open>None\<close>: the
  read failed, and the process has exited with code 1), the lines left and the trace.
\<close>

fun promptString :: "extern \<Rightarrow> string \<Rightarrow> string list \<Rightarrow> event list \<Rightarrow> string option \<times> string list \<times> event list" where
  "promptString X message [] tr = (None, [], tr @ [EvStdout message, EvStderr ''input error''])"
| "promptString X message (line # rest) tr =
     (let text' = TrimSpace X line in
      if text' \<noteq> [] then (Some text', rest, tr @ [EvStdout message])
      else promptString X message rest (tr @ [EvStdout message]))"

fun promptInt :: "extern \<Rightarrow> string \<Rightarrow> string list \<Rightarrow> event list \<Rightarrow> int option \<times> string list \<times> event list" where
  "promptInt X message [] tr = (None, [], tr @ [EvStdout message, EvStderr ''input error''])"
| "promptInt X message (line # rest) tr =
     (case Atoi X (TrimSpace X line) of
        Inl e \<Rightarrow>
          promptInt X message rest (tr @ [EvStdout message, EvStdout ''please enter a positive number''])
      | Inr v \<Rightarrow>
          if v \<le> 0
          then promptInt X message rest (tr @ [EvStdout message, EvStdout ''please enter a positive number''])
          else (Some v, rest, tr @ [EvStdout message]))"

record generateFlags =
  g_dataType :: string
  g_count :: int
  g_outDir :: string
  g_pushURL :: string

definition generate_pushMetrics :: "extern \<Rightarrow> string \<Rightarrow> string \<Rightarrow> int \<Rightarrow> error option" where
  "generate_pushMetrics X pushURL dataType count =
     Push X pushURL ''generate-data'' [(''type'', dataType)]"

text \<open>
  The \<^verbatim>\<open>switch\<close> of \<^verbatim>\<open>main\<close> with its three calls of \<^verbatim>\<open>writeJSONArray\<close>; for another
  type it writes nothing and leaves \<^verbatim>\<open>err\<close> nil.
\<close>

definition generate :: "extern \<Rightarrow> string \<Rightarrow> string \<Rightarrow> int \<Rightarrow> rng \<Rightarrow> world \<Rightarrow> error option \<times> rng \<times> world" where
  "generate X dataTypeVal outputFile count r w =
     (if dataTypeVal = ''movies''
      then writeJSONArray X outputFile count
             (\<lambda>i g. case makeMovie X g (i + 1) of (m, g1) \<Rightarrow> (MovieItem m, g1)) r w
      else if dataTypeVal = ''books''
      then writeJSONArray X outputFile count
             (\<lambda>i g. case makeBook X g (i + 1) of (b, g1) \<Rightarrow> (BookItem b, g1)) r w
      else if dataTypeVal = ''people''
      then writeJSONArray X outputFile count
             (\<lambda>i g. case makePerson X g (i + 1) of (p, g1) \<Rightarrow> (PersonItem p, g1)) r w
      else (None, r, w))"

definition generate_main :: "extern \<Rightarrow> generateFlags \<Rightarrow> rng \<Rightarrow> world \<Rightarrow> outcome" where
  "generate_main X f r w =
     (case (if g_dataType f = []
            then promptString X ''Select type (movies, books, people): '' (stdin w) []
            else (Some (g_dataType f), stdin w, [])) of
        (None, in1, tr1) \<Rightarrow> \<lparr>exitCode = 1, trace = tr1, disk = w\<lparr>stdin := in1\<rparr>\<rparr>
      | (Some dataType, in1, tr1) \<Rightarrow>
          (case (if g_count f \<le> 0
                 then promptInt X ''How many items do you want to generate? '' in1 tr1
                 else (Some (g_count f), in1, tr1)) of
             (None, in2, tr2) \<Rightarrow> \<lparr>exitCode = 1, trace = tr2, disk = w\<lparr>stdin := in2\<rparr>\<rparr>
           | (Some count, in2, tr2) \<Rightarrow>
               (let w0 = w\<lparr>stdin := in2\<rparr>;
                    dataTypeVal = ToLower X (TrimSpace X dataType)
                in if dataTypeVal \<noteq> ''movies'' \<and> dataTypeVal \<noteq> ''books'' \<and> dataTypeVal \<noteq> ''people''
                   then \<lparr>exitCode = 1,
                         trace = tr2 @ [EvStderr (''unknown type: '' @ dataTypeVal
                                   @ '' (expected movies, books, people)'')],
                         disk = w0\<rparr>
                   else
                     (case os_MkdirAll (g_outDir f) w0 of
                        Inl e \<Rightarrow>
                          \<lparr>exitCode = 1,
                           trace = tr2 @ [EvMkdirAll (g_outDir f),
                                          EvStderrErr ''failed to create output dir'' e],
                           disk = w0\<rparr>
                      | Inr w1 \<Rightarrow>
                          (let outputFile = Join X (g_outDir f) (dataTypeVal @ ''_'' @ Now X @ ''.json'');
                               tr3 = tr2 @ [EvMkdirAll (g_outDir f), EvWriteJSONArray outputFile]
                           in case generate X dataTypeVal outputFile count r w1 of
                                (Some e, r1, w2) \<Rightarrow>
                                  \<lparr>exitCode = 1,
                                   trace = tr3 @ [EvStderrErr ''failed to write output'' e], disk = w2\<rparr>
                              | (None, r1, w2) \<Rightarrow>
                                  (case generate_pushMetrics X (g_pushURL f) dataTypeVal count of
                                     Some e \<Rightarrow>
                                       \<lparr>exitCode = 1,
                                        trace = tr3 @ [EvPush ''generate-data'',
                                                       EvStderrErr ''metrics push failed'' e],
                                        disk = w2\<rparr>
                                   | None \<Rightarrow>
                                       \<lparr>exitCode = 0,
                                        trace = tr3 @ [EvPush ''generate-data'',
                                          EvStdout (''generated '' @ Itoa X count @ '' '' @ dataTypeVal
                                            @ '' into '' @ outputFile)],
                                        disk = w2\<rparr>))))))"

section \<open>What the claims speak of\<close>

text \<open>
  White space among the ASCII bytes, as Go has it (\<^verbatim>\<open>unicode.IsSpace\<close>, and with it
  \<^verbatim>\<open>bytes.TrimSpace\<close> and \<^verbatim>\<open>strings.TrimSpace\<close>): space, horizontal tab, line feed,
  vertical tab, form feed and carriage return.
\<close>

definition asciiSpace :: "char \<Rightarrow> bool" where
  "asciiSpace c = (c = CHR '' '' \<or> c = CHR 0x09 \<or> c = CHR 0x0A \<or> c = CHR 0x0B \<or> c = CHR 0x0C \<or> c = CHR 0x0D)"

text \<open>
  The consecutive chunks of at most \<open>n\<close> bytes a file's bytes fall into, and the samples
  they give: each chunk trimmed, the empty ones left out.
\<close>

function chunksOf :: "nat \<Rightarrow> bytes \<Rightarrow> bytes list" where
  "chunksOf n xs = (if n = 0 \<or> xs = [] then [] else take n xs # chunksOf n (drop n xs))"
  by pat_completeness auto
termination
  by (relation "measure (\<lambda>(n, xs). length xs)") auto

declare chunksOf.simps [simp del]

definition fileSamples :: "nat \<Rightarrow> bytes \<Rightarrow> bytes list" where
  "fileSamples n content = filter (\<lambda>d. d \<noteq> []) (map bytesTrimSpace (chunksOf n content))"

definition sampleBytes :: "bytes list \<Rightarrow> int" where
  "sampleBytes samples = int (sum_list (map length samples))"

text \<open>The samples of the files at the given paths, file after file.\<close>

definition pathSamples :: "world \<Rightarrow> nat \<Rightarrow> string list \<Rightarrow> bytes list" where
  "pathSamples w n paths = concat (map (\<lambda>p. fileSamples n (contents w p)) paths)"

section \<open>A small instance\<close>

text \<open>
  One instance of what the tools import, and one store, on which the functions above can
  be evaluated: \<^verbatim>\<open>strings.TrimSpace\<close> and \<^verbatim>\<open>strings.ToLower\<close> on ASCII, decimal
  \<^verbatim>\<open>strconv\<close>, slash-separated paths (\<open>Rel\<close> for a target at or below the base, where
  \<^verbatim>\<open>filepath.Rel\<close> answers \<^verbatim>\<open>.\<close> or the rest of the path; \<open>Join\<close>, \<open>Dir\<close> and \<open>Base\<close>
  on clean relative paths), a toy codec whose frame is a mark, the dictionary and the
  bytes, and a Pushgateway that is down at one URL.
\<close>

definition simTrimSpace :: "string \<Rightarrow> string" where
  "simTrimSpace s = rev (dropWhile asciiSpace (rev (dropWhile asciiSpace s)))"

definition simToLower :: "string \<Rightarrow> string" where
  "simToLower s =
     map (\<lambda>c. let n = (of_char c :: nat) in if 65 \<le> n \<and> n \<le> 90 then char_of (n + 32) else c) s"

function natToDec :: "nat \<Rightarrow> string" where
  "natToDec n = (if n < 10 then [char_of (48 + n)] else natToDec (n div 10) @ [char_of (48 + n mod 10)])"
  by pat_completeness auto
termination
  by (relation "measure (\<lambda>n. n)") auto

declare natToDec.simps [simp del]

definition simItoa :: "int \<Rightarrow> string" where
  "simItoa i = (if i < 0 then CHR ''-'' # natToDec (nat (- i)) else natToDec (nat i))"

definition isDigit :: "char \<Rightarrow> bool" where
  "isDigit c = (48 \<le> (of_char c :: nat) \<and> (of_char c :: nat) \<le> 57)"

definition decToNat :: "string \<Rightarrow> nat" where
  "decToNat s = foldl (\<lambda>a c. 10 * a + ((of_char c :: nat) - 48)) 0 s"

definition simAtoi :: "string \<Rightarrow> error + int" where
  "simAtoi s =
     (case s of
        [] \<Rightarrow> Inl (Errorf ''strconv.Atoi: invalid syntax'')
      | c # cs \<Rightarrow>
          if (c = CHR ''-'' \<or> c = CHR ''+'') \<and> cs \<noteq> [] \<and> list_all isDigit cs
          then Inr (if c = CHR ''-'' then - int (decToNat cs) else int (decToNat cs))
          else if list_all isDigit s then Inr (int (decToNat s))
          else Inl (Errorf ''strconv.Atoi: invalid syntax''))"

definition simRel :: "string \<Rightarrow> string \<Rightarrow> error + string" where
  "simRel base targ =
     (if targ = base then Inr ''.''
      else if prefix (base @ ''/'') targ then Inr (drop (length base + 1) targ)
      else Inl (Errorf ''Rel: target outside the base''))"

definition simJoin :: "string \<Rightarrow> string \<Rightarrow> string" where
  "simJoin a b =
     (if b = [] \<or> b = ''.'' then a else if a = [] \<or> a = ''.'' then b else a @ ''/'' @ b)"

definition simDir :: "string \<Rightarrow> string" where
  "simDir p =
     (let d = rev (drop 1 (dropWhile (\<lambda>c. c \<noteq> CHR ''/'') (rev p))) in if d = [] then ''.'' else d)"

definition simBase :: "string \<Rightarrow> string" where
  "simBase p = (if p = [] then ''.'' else rev (takeWhile (\<lambda>c. c \<noteq> CHR ''/'') (rev p)))"

definition simTree :: "string \<Rightarrow> error + dirent" where
  "simTree p =
     (if p = ''in'' then
        Inr (DirEntry None
              [(''a.txt'', FileEntry ModeRegular (Inr 9)),
               (''empty'', FileEntry ModeRegular (Inr 0)),
               (''sub'', DirEntry None [(''b.txt'', FileEntry ModeRegular (Inr 6))])])
      else if p = ''blank'' then
        Inr (DirEntry None
              [(''e1'', FileEntry ModeRegular (Inr 0)),
               (''sub'', DirEntry None [(''e2'', FileEntry ModeRegular (Inr 0))])])
      else if p = ''links'' then
        Inr (DirEntry None [(''latest'', FileEntry ModeSymlink (Inr 5))])
      else if p = ''one'' then
        Inr (DirEntry None [(''a.txt'', FileEntry ModeRegular (Inr 3))])
      else if p = ''data.zst'' then
        Inr (FileEntry ModeRegular (Inr 5))
      else if p = ''packed'' then
        Inr (DirEntry None
              [(''a.txt.zst'', FileEntry ModeRegular (Inr 4)),
               (''notes'', FileEntry ModeRegular (Inr 3))])
      else if p = ''vt'' then
        Inr (DirEntry None [(''f'', FileEntry ModeRegular (Inr 7))])
      else if p = ''locked'' then
        Inr (DirEntry (Some (OSError ''readdir'' ''locked'')) [])
      else if p = ''mix'' then
        Inr (DirEntry None
              [(''a'', FileEntry ModeRegular (Inr 5)),
               (''a.zst'', FileEntry ModeRegular (Inr 5))])
      else Inl (OSError ''lstat'' p))"

fun encoderDict :: "EOption list \<Rightarrow> bytes" where
  "encoderDict [] = []"
| "encoderDict (WithEncoderDict d # opts) = d"
| "encoderDict (WithEncoderLevel l # opts) = encoderDict opts"

fun decoderDict :: "DOption list \<Rightarrow> bytes" where
  "decoderDict [] = []"
| "decoderDict (WithDecoderDicts d # opts) = d"

definition simEncode :: "EOption list \<Rightarrow> bytes \<Rightarrow> bytes" where
  "simEncode opts input = CHR ''Z'' # encoderDict opts @ input"

definition simDecode :: "DOption list \<Rightarrow> bytes \<Rightarrow> bytes \<times> error option" where
  "simDecode opts stream =
     (case stream of
        [] \<Rightarrow> ([], None)
      | c # cs \<Rightarrow>
          if c = CHR ''Z'' \<and> prefix (decoderDict opts) cs
          then (drop (length (decoderDict opts)) cs, None)
          else ([], Some (CodecError ''invalid input'')))"

definition simLevel :: "int \<Rightarrow> EncoderLevel" where
  "simLevel level =
     (if level < 3 then SpeedFastest
      else if level < 6 then SpeedDefault
      else if level < 10 then SpeedBetterCompression
      else SpeedBestCompression)"

definition sim :: extern where
  "sim =
     \<lparr>TrimSpace = simTrimSpace, ToLower = simToLower, Atoi = simAtoi, Itoa = simItoa,
      Rel = simRel, Join = simJoin, Dir = simDir, Base = simBase,
      Lstat = (\<lambda>w p. simTree p),
      EncoderLevelFromZstd = simLevel,
      NewWriter = (\<lambda>opts. None), Encode = simEncode,
      NewReader = (\<lambda>opts. None), Decode = simDecode,
      BuildZstdDict = (\<lambda>samples opts. Inr (take (nat (MaxDictSize opts)) (concat samples))),
      Marshal = (\<lambda>it. Inr (''{\"id\":'' @ simItoa (itemID it) @ ''}'')),
      Push = (\<lambda>url job grouping. if url = ''http://down'' then Some (PushError ''connection refused'') else None),
      Now = ''20260101_120000'', NowRFC3339 = ''2026-01-01T12:00:00Z''\<rparr>"

definition simWorld :: world where
  "simWorld =
     \<lparr>files = (\<lambda>p. if p = ''in/a.txt'' then Some [CHR '' '', CHR ''a'', CHR ''b'', CHR 0x0A, CHR ''c'', CHR ''d'', CHR '' '', CHR '' '', CHR ''e'']
                   else if p = ''in/sub/b.txt'' then Some ''hello ''
                   else if p = ''in/empty'' then Some []
                   else if p = ''one/a.txt'' then Some ''abc''
                   else if p = ''data.zst'' then Some ''hello''
                   else if p = ''packed/a.txt.zst'' then Some ''Zabc''
                   else if p = ''packed/notes'' then Some ''Zhi''
                   else if p = ''mix/a'' then Some ''hello''
                   else if p = ''vt/f'' then Some [CHR 0x0B, CHR ''a'', CHR ''b'', CHR '' '', CHR ''c'', CHR ''d'', CHR 0x0C]
                   else if p = ''mix/a.zst'' then Some ''world''
                   else None),
      faults = (\<lambda>p. None),
      capacity = (\<lambda>p. None),
      dirs = {''.'', ''in'', ''in/sub'', ''one'', ''packed'', ''mix'', ''vt''},
      stdin = []\<rparr>"

definition simTrainFlags :: trainFlags where
  "simTrainFlags =
     \<lparr>t_inputDir = ''in'', t_outDir = ''dict-out'', t_outFile = [], t_dictSize = 1024,
      t_maxSamples = 10, t_maxSampleBytes = 4, t_zstdLevel = 0, t_pushURL = ''http://localhost:9091''\<rparr>"

definition simCompressFlags :: compressFlags where
  "simCompressFlags =
     \<lparr>c_inputDir = ''in'', c_outDir = ''out'', c_level = 0, c_useDict = False, c_dictPath = [],
      c_pushURL = ''http://localhost:9091''\<rparr>"

definition simDecompressFlags :: decompressFlags where
  "simDecompressFlags =
     \<lparr>d_inputDir = ''in'', d_outDir = ''plain'', d_useDict = False, d_dictPath = [], d_runID = [],
      d_pushURL = ''http://localhost:9091''\<rparr>"

definition simGenerateFlags :: generateFlags where
  "simGenerateFlags =
     \<lparr>g_dataType = ''people'', g_count = 3, g_outDir = ''output'', g_pushURL = ''http://localhost:9091''\<rparr>"

definition simRng :: rng where
  "simRng = \<lparr>draws = (\<lambda>k. 7 * k + 3), drawn = 0\<rparr>"

text \<open>
  The push is the step after the last step of the work, only the closing message
  follows it, and the exit code is 1 when the push failed and 0 otherwise.
\<close>

definition pushedLast :: "event \<Rightarrow> string \<Rightarrow> error option \<Rightarrow> outcome \<Rightarrow> bool" where
  "pushedLast work job pushResult out =
     (\<exists>pre fin. trace out = pre @ [work, EvPush job, fin] \<and> (\<forall>k. EvPush k \<notin> set pre) \<and>
        (case pushResult of
           Some e \<Rightarrow> fin = EvStderrErr ''metrics push failed'' e \<and> exitCode out = 1
         | None \<Rightarrow> exitCode out = 0))"

text \<open>
  The work of a run was done when it ended: every step up to and including the batch
  function (the writing of the dictionary, of the JSON file) returned without an error,
  the store the run ended with is the store that step left, and the push came last.
\<close>

definition compressWorkDone :: "extern \<Rightarrow> compressFlags \<Rightarrow> world \<Rightarrow> outcome \<Rightarrow> bool" where
  "compressWorkDone X f w out =
     (\<exists>w1 paths dictBytes stats.
        os_MkdirAll (c_outDir f) w = Inr w1 \<and>
        listFiles X w1 (c_inputDir f) = Inr paths \<and>
        compressFiles X paths (c_inputDir f) (c_outDir f) (c_level f) dictBytes w1 = (stats, None, disk out) \<and>
        pushedLast EvCompressFiles ''compress''
          (compress_pushMetrics X (c_pushURL f) stats
             (sourceLabelOf X (c_inputDir f) ''output'') (c_level f) (c_useDict f)) out)"

definition decompressWorkDone :: "extern \<Rightarrow> decompressFlags \<Rightarrow> world \<Rightarrow> outcome \<Rightarrow> bool" where
  "decompressWorkDone X f w out =
     (\<exists>w1 paths dictBytes stats.
        os_MkdirAll (d_outDir f) w = Inr w1 \<and>
        listFiles X w1 (d_inputDir f) = Inr paths \<and>
        decompressFiles X paths (d_inputDir f) (d_outDir f) dictBytes w1 = (stats, None, disk out) \<and>
        pushedLast EvDecompressFiles ''decompress''
          (decompress_pushMetrics X (d_pushURL f) stats
             (sourceLabelOf X (d_inputDir f) ''compressed'') (d_useDict f)
             (if TrimSpace X (d_runID f) = [] then Now X else d_runID f)) out)"

definition trainWorkDone :: "extern \<Rightarrow> trainFlags \<Rightarrow> world \<Rightarrow> outcome \<Rightarrow> bool" where
  "trainWorkDone X f w out =
     (\<exists>w1 samples stats trained outputPath w2.
        os_MkdirAll (t_outDir f) w = Inr w1 \<and>
        collectSamples X w1 (t_inputDir f) (t_maxSamples f) (t_maxSampleBytes f) = Some (Inr (samples, stats)) \<and>
        BuildZstdDict X samples (trainOptions f) = Inr trained \<and>
        os_MkdirAll (Dir X outputPath) w1 = Inr w2 \<and>
        os_WriteFile X outputPath trained w2 = Inr (disk out) \<and>
        pushedLast (EvWriteFile outputPath) ''train-dict''
          (train_pushMetrics X (t_pushURL f) stats (int (length trained)) (t_dictSize f)
             (sourceLabelOf X (t_inputDir f) ''output'')) out)"

definition generateWorkDone :: "extern \<Rightarrow> generateFlags \<Rightarrow> rng \<Rightarrow> world \<Rightarrow> outcome \<Rightarrow> bool" where
  "generateWorkDone X f r w out =
     (\<exists>dataTypeVal count lines w1 outputFile r1.
        os_MkdirAll (g_outDir f) (w\<lparr>stdin := lines\<rparr>) = Inr w1 \<and>
        generate X dataTypeVal outputFile count r w1 = (None, r1, disk out) \<and>
        pushedLast (EvWriteJSONArray outputFile) ''generate-data''
          (generate_pushMetrics X (g_pushURL f) dataTypeVal count) out)"

text \<open>
  The entries below (or at) a root that are not directories and whose \<^verbatim>\<open>Info\<close> succeeds,
  in the order of the walk: the path, the type and the size of each. A tree is readable
  when no \<^verbatim>\<open>ReadDir\<close> and no \<^verbatim>\<open>Info\<close> in it fails.
\<close>

fun treeFiles :: "(string \<Rightarrow> string \<Rightarrow> string) \<Rightarrow> string \<Rightarrow> dirent \<Rightarrow> (string \<times> fmode \<times> int) list"
and treeFilesIn :: "(string \<Rightarrow> string \<Rightarrow> string) \<Rightarrow> string \<Rightarrow> (string \<times> dirent) list \<Rightarrow> (string \<times> fmode \<times> int) list"
where
  "treeFiles join path (FileEntry m info) = (case info of Inl e \<Rightarrow> [] | Inr sz \<Rightarrow> [(path, m, sz)])"
| "treeFiles join path (DirEntry rerr ents) = treeFilesIn join path ents"
| "treeFilesIn join path [] = []"
| "treeFilesIn join path ((name, d) # rest) = treeFiles join (join path name) d @ treeFilesIn join path rest"

fun treeReadable :: "dirent \<Rightarrow> bool"
and entriesReadable :: "(string \<times> dirent) list \<Rightarrow> bool"
where
  "treeReadable (FileEntry m info) = (case info of Inl e \<Rightarrow> False | Inr sz \<Rightarrow> True)"
| "treeReadable (DirEntry rerr ents) = (rerr = None \<and> entriesReadable ents)"
| "entriesReadable [] = True"
| "entriesReadable ((name, d) # rest) = (treeReadable d \<and> entriesReadable rest)"

text \<open>The paths of the entries that are not directories and have a size other than 0.\<close>

definition nonEmptyFiles :: "(string \<Rightarrow> string \<Rightarrow> string) \<Rightarrow> string \<Rightarrow> dirent \<Rightarrow> string list" where
  "nonEmptyFiles join path t = map fst (filter (\<lambda>(p, m, sz). sz \<noteq> 0) (treeFiles join path t))"

text \<open>The paths of the regular files among them, as the specification words it.\<close>

definition regularNonEmptyFiles :: "(string \<Rightarrow> string \<Rightarrow> string) \<Rightarrow> string \<Rightarrow> dirent \<Rightarrow> string list" where
  "regularNonEmptyFiles join path t =
     map fst (filter (\<lambda>(p, m, sz). m = ModeRegular \<and> sz \<noteq> 0) (treeFiles join path t))"

text \<open>
  The output path \<^verbatim>\<open>compressFiles\<close> and \<^verbatim>\<open>decompressFiles\<close> compute for an input path
  (none when \<^verbatim>\<open>filepath.Rel\<close> fails).
\<close>

definition compressOutPath :: "extern \<Rightarrow> string \<Rightarrow> string \<Rightarrow> string \<Rightarrow> string option" where
  "compressOutPath X baseDir outDir path =
     (case Rel X baseDir path of Inl e \<Rightarrow> None | Inr rel \<Rightarrow> Some (Join X outDir rel @ ''.zst''))"

definition decompressOutPath :: "extern \<Rightarrow> string \<Rightarrow> string \<Rightarrow> string \<Rightarrow> string option" where
  "decompressOutPath X baseDir outDir path =
     (case Rel X baseDir path of Inl e \<Rightarrow> None | Inr rel \<Rightarrow> Some (Join X outDir (decompressOutRel rel)))"

text \<open>
  The output paths of a batch are separate from its input paths when none of them is
  one of the input paths and different input paths have different output paths.
\<close>

definition separateOutputs :: "(string \<Rightarrow> string option) \<Rightarrow> string list \<Rightarrow> bool" where
  "separateOutputs outPath paths =
     ((\<forall>p\<in>set paths. \<forall>out. outPath p = Some out \<longrightarrow> out \<notin> set paths) \<and> inj_on outPath (set paths))"

text \<open>
  What the zstd library promises, for the options the two tools build from a level and
  the bytes of a dictionary: a decoder given the frame the encoder wrote for some bytes
  delivers these bytes and no error.
\<close>

definition lossless :: "extern \<Rightarrow> int \<Rightarrow> bytes \<Rightarrow> bool" where
  "lossless X level dictBytes =
     (\<forall>input. Decode X (decompressOptions dictBytes) (Encode X (compressOptions X level dictBytes) input)
               = (input, None))"

text \<open>
  The records a run of the generator makes: the closure \<^verbatim>\<open>main\<close> passes for a type,
  called for \<open>i\<close>, \<open>i + 1\<close>, ... below \<open>count\<close>, each call drawing from the generator where
  the call before left it. The JSON array of their encodings is an opening line, the
  encodings with a comma and a line feed between them, and a closing line.
\<close>

definition makeItemOf :: "extern \<Rightarrow> string \<Rightarrow> int \<Rightarrow> rng \<Rightarrow> item \<times> rng" where
  "makeItemOf X dataTypeVal i g =
     (if dataTypeVal = ''movies'' then (case makeMovie X g (i + 1) of (m, g1) \<Rightarrow> (MovieItem m, g1))
      else if dataTypeVal = ''books'' then (case makeBook X g (i + 1) of (b, g1) \<Rightarrow> (BookItem b, g1))
      else (case makePerson X g (i + 1) of (p, g1) \<Rightarrow> (PersonItem p, g1)))"

function itemsFrom :: "(int \<Rightarrow> rng \<Rightarrow> item \<times> rng) \<Rightarrow> int \<Rightarrow> int \<Rightarrow> rng \<Rightarrow> item list" where
  "itemsFrom makeItem i count r =
     (if i < count then (case makeItem i r of (it, r1) \<Rightarrow> it # itemsFrom makeItem (i + 1) count r1)
      else [])"
  by pat_completeness auto
termination
  by (relation "measure (\<lambda>(makeItem, i, count, r). nat (count - i))") auto

declare itemsFrom.simps [simp del]

definition marshalled :: "extern \<Rightarrow> item \<Rightarrow> bytes" where
  "marshalled X it = (case Marshal X it of Inl e \<Rightarrow> [] | Inr data \<Rightarrow> data)"

fun joinComma :: "bytes list \<Rightarrow> bytes" where
  "joinComma [] = []"
| "joinComma [b] = b"
| "joinComma (b # bs) = b @ [CHR '','', CHR 0x0A] @ joinComma bs"

definition jsonArray :: "bytes list \<Rightarrow> bytes" where
  "jsonArray bs = [CHR ''['', CHR 0x0A] @ joinComma bs @ [CHR 0x0A, CHR '']'', CHR 0x0A]"

section \<open>Properties of the trimming\<close>

lemma trimStart_props:
  "start \<le> endpos \<Longrightarrow>
     start \<le> trimStart input start endpos \<and> trimStart input start endpos \<le> endpos \<and>
     (trimStart input start endpos < endpos \<longrightarrow> \<not> isTrimByte (input ! trimStart input start endpos))"
proof (induction input start endpos rule: trimStart.induct)
  case (1 input start endpos)
  show ?case
  proof (cases "start < endpos \<and> isTrimByte (input ! start)")
    case True
    with 1 have "start + 1 \<le> trimStart input (start + 1) endpos \<and>
        trimStart input (start + 1) endpos \<le> endpos \<and>
        (trimStart input (start + 1) endpos < endpos \<longrightarrow>
           \<not> isTrimByte (input ! trimStart input (start + 1) endpos))"
      by simp
    moreover from True have "trimStart input start endpos = trimStart input (start + 1) endpos"
      by (subst trimStart.simps) simp
    ultimately show ?thesis by simp
  next
    case False
    then have "trimStart input start endpos = start"
      by (subst trimStart.simps) auto
    with False 1 show ?thesis by auto
  qed
qed

lemma trimEnd_props:
  "start \<le> endpos \<Longrightarrow>
     start \<le> trimEnd input start endpos \<and> trimEnd input start endpos \<le> endpos \<and>
     (start < trimEnd input start endpos \<longrightarrow> \<not> isTrimByte (input ! (trimEnd input start endpos - 1)))"
proof (induction input start endpos rule: trimEnd.induct)
  case (1 input start endpos)
  show ?case
  proof (cases "start < endpos \<and> isTrimByte (input ! (endpos - 1))")
    case True
    then have "start \<le> endpos - 1" by auto
    with True 1 have "start \<le> trimEnd input start (endpos - 1) \<and>
        trimEnd input start (endpos - 1) \<le> endpos - 1 \<and>
        (start < trimEnd input start (endpos - 1) \<longrightarrow>
           \<not> isTrimByte (input ! (trimEnd input start (endpos - 1) - 1))) "
      by auto
    moreover from True have "trimEnd input start endpos = trimEnd input start (endpos - 1)"
      by (subst trimEnd.simps) simp
    ultimately show ?thesis by auto
  next
    case False
    then have "trimEnd input start endpos = endpos"
      by (subst trimEnd.simps) auto
    with False 1 show ?thesis by auto
  qed
qed

lemma bytesTrimSpace_length: "length (bytesTrimSpace input) \<le> length input"
  by (simp add: bytesTrimSpace_def Let_def)

lemma bytesTrimSpace_ends:
  assumes "bytesTrimSpace input \<noteq> []"
  shows "\<not> isTrimByte (hd (bytesTrimSpace input)) \<and> \<not> isTrimByte (last (bytesTrimSpace input))"
proof -
  define s where "s = trimStart input 0 (length input)"
  define e where "e = trimEnd input s (length input)"
  have s: "s \<le> length input" "s < length input \<longrightarrow> \<not> isTrimByte (input ! s)"
    using trimStart_props [of 0 "length input" input] by (simp_all add: s_def)
  have e: "s \<le> e" "e \<le> length input" "s < e \<longrightarrow> \<not> isTrimByte (input ! (e - 1))"
    using trimEnd_props [of s "length input" input] s(1) by (simp_all add: e_def)
  have d: "bytesTrimSpace input = take (e - s) (drop s input)"
    by (simp add: bytesTrimSpace_def Let_def s_def e_def)
  with assms have lt: "s < e" by (cases "s < e") auto
  have len: "length (take (e - s) (drop s input)) = e - s"
    using e by simp
  have "hd (take (e - s) (drop s input)) = input ! s"
    using lt e by (simp add: hd_conv_nth hd_drop_conv_nth)
  moreover have "last (take (e - s) (drop s input)) = input ! (e - 1)"
    using lt e assms d by (simp add: last_conv_nth len)
  ultimately show ?thesis using d s e lt by simp
qed

lemma trimStart_takeWhile:
  "start \<le> endpos \<Longrightarrow> endpos = length input \<Longrightarrow>
     trimStart input start endpos = start + length (takeWhile isTrimByte (drop start input))"
proof (induction input start endpos rule: trimStart.induct)
  case (1 input start endpos)
  show ?case
  proof (cases "start < endpos")
    case True
    then have d: "drop start input = input ! start # drop (start + 1) input"
      using 1(3) by (simp add: Cons_nth_drop_Suc)
    show ?thesis
    proof (cases "isTrimByte (input ! start)")
      case True
      with \<open>start < endpos\<close> 1 have "trimStart input (start + 1) endpos
          = start + 1 + length (takeWhile isTrimByte (drop (start + 1) input))"
        by simp
      moreover have "trimStart input start endpos = trimStart input (start + 1) endpos"
        using True \<open>start < endpos\<close> by (subst trimStart.simps) simp
      ultimately show ?thesis using True d by simp
    next
      case False
      then have "trimStart input start endpos = start"
        by (subst trimStart.simps) simp
      then show ?thesis using False d by simp
    qed
  next
    case False
    then have "trimStart input start endpos = start"
      by (subst trimStart.simps) simp
    then show ?thesis using False 1 by simp
  qed
qed

lemma trimEnd_dropWhile:
  "start \<le> endpos \<Longrightarrow> endpos \<le> length input \<Longrightarrow>
     trimEnd input start endpos
       = start + length (dropWhile isTrimByte (rev (take (endpos - start) (drop start input))))"
proof (induction input start endpos rule: trimEnd.induct)
  case (1 input start endpos)
  show ?case
  proof (cases "start < endpos")
    case True
    have t: "take (endpos - start) (drop start input)
        = take (endpos - 1 - start) (drop start input) @ [input ! (endpos - 1)]"
    proof -
      have "endpos - start = Suc (endpos - 1 - start)" using True by simp
      moreover have "endpos - 1 - start < length (drop start input)" using True 1(3) by simp
      ultimately have "take (endpos - start) (drop start input)
          = take (endpos - 1 - start) (drop start input) @ [drop start input ! (endpos - 1 - start)]"
        by (simp add: take_Suc_conv_app_nth)
      moreover have "drop start input ! (endpos - 1 - start) = input ! (endpos - 1)"
        using True 1(3) by simp
      ultimately show ?thesis by simp
    qed
    show ?thesis
    proof (cases "isTrimByte (input ! (endpos - 1))")
      case True
      moreover have "start \<le> endpos - 1" using \<open>start < endpos\<close> by auto
      ultimately have "trimEnd input start (endpos - 1)
          = start + length (dropWhile isTrimByte (rev (take (endpos - 1 - start) (drop start input))))"
        using \<open>start < endpos\<close> 1 by auto
      moreover have "trimEnd input start endpos = trimEnd input start (endpos - 1)"
        using True \<open>start < endpos\<close> by (subst trimEnd.simps) simp
      ultimately show ?thesis using True t by simp
    next
      case False
      then have "trimEnd input start endpos = endpos"
        by (subst trimEnd.simps) simp
      then show ?thesis using False t True 1(3) by simp
    qed
  next
    case False
    then have "trimEnd input start endpos = endpos"
      by (subst trimEnd.simps) simp
    then show ?thesis using False 1 by simp
  qed
qed

lemma take_rev_dropWhile: "take (length (dropWhile P (rev ys))) ys = rev (dropWhile P (rev ys))"
proof -
  have "rev ys = takeWhile P (rev ys) @ dropWhile P (rev ys)" by simp
  then have "ys = rev (dropWhile P (rev ys)) @ rev (takeWhile P (rev ys))"
    by (metis rev_append rev_rev_ident)
  then have "take (length (rev (dropWhile P (rev ys)))) ys = rev (dropWhile P (rev ys))"
    by (metis append_eq_conv_conj)
  then show ?thesis by simp
qed

lemma bytesTrimSpace_spec:
  "bytesTrimSpace input = rev (dropWhile isTrimByte (rev (dropWhile isTrimByte input)))"
proof -
  define s where "s = trimStart input 0 (length input)"
  have s: "s = length (takeWhile isTrimByte input)"
    using trimStart_takeWhile [of 0 "length input" input] by (simp add: s_def)
  then have sl: "s \<le> length input" by (simp add: length_takeWhile_le)
  have dr: "drop s input = dropWhile isTrimByte input"
    by (simp add: s dropWhile_eq_drop)
  have "trimEnd input s (length input)
      = s + length (dropWhile isTrimByte (rev (take (length input - s) (drop s input))))"
    using trimEnd_dropWhile [of s "length input" input] sl by simp
  moreover have "take (length input - s) (drop s input) = drop s input" by simp
  ultimately have e: "trimEnd input s (length input) - s
      = length (dropWhile isTrimByte (rev (dropWhile isTrimByte input)))"
    by (simp only: dr)
  show ?thesis
    unfolding bytesTrimSpace_def Let_def s_def [symmetric] e dr
    by (rule take_rev_dropWhile)
qed

section \<open>Properties of the sample collection\<close>

lemma chunksOf_Nil: "chunksOf n [] = []"
  by (subst chunksOf.simps) simp

lemma chunksOf_step: "0 < n \<Longrightarrow> xs \<noteq> [] \<Longrightarrow> chunksOf n xs = take n xs # chunksOf n (drop n xs)"
  by (subst chunksOf.simps) simp

lemma chunksOf_short: "0 < n \<Longrightarrow> xs \<noteq> [] \<Longrightarrow> length xs < n \<Longrightarrow> chunksOf n xs = [xs]"
  by (simp add: chunksOf_step chunksOf_Nil)

lemma chunksOf_length: "c \<in> set (chunksOf n xs) \<Longrightarrow> length c \<le> n \<and> c \<noteq> []"
proof (induction n xs rule: chunksOf.induct)
  case (1 n xs)
  show ?case
  proof (cases "n = 0 \<or> xs = []")
    case True
    then have "chunksOf n xs = []" by (subst chunksOf.simps) simp
    with 1(2) show ?thesis by simp
  next
    case False
    then have "chunksOf n xs = take n xs # chunksOf n (drop n xs)" by (simp add: chunksOf_step)
    with 1 False show ?thesis by auto
  qed
qed

lemma concat_chunksOf: "0 < n \<Longrightarrow> concat (chunksOf n xs) = xs"
proof (induction n xs rule: chunksOf.induct)
  case (1 n xs)
  show ?case
  proof (cases "xs = []")
    case True
    then show ?thesis by (simp add: chunksOf_Nil)
  next
    case False
    with 1 show ?thesis by (simp add: chunksOf_step)
  qed
qed

lemma fileSamples_props:
  assumes "s \<in> set (fileSamples n content)"
  shows "s \<noteq> [] \<and> \<not> isTrimByte (hd s) \<and> \<not> isTrimByte (last s) \<and> length s \<le> n"
proof -
  from assms obtain c where c: "c \<in> set (chunksOf n content)" "s = bytesTrimSpace c" "s \<noteq> []"
    by (auto simp: fileSamples_def)
  have "length s \<le> length c" using c(2) bytesTrimSpace_length by simp
  moreover have "length c \<le> n" using c(1) chunksOf_length by blast
  ultimately show ?thesis using c bytesTrimSpace_ends [of c] by simp
qed

lemma readLoop_result:
  assumes mb: "0 < mb"
  shows "\<exists>r. readLoop mb ms fault rest samples tot = Some r \<and>
           (fault = None \<longrightarrow> (\<exists>out t. r = Inr (out, t))) \<and>
           (\<forall>out t. r = Inr (out, t) \<longrightarrow>
              out = samples @ take (nat (ms - int (length samples))) (fileSamples mb rest) \<and>
              t = tot + sampleBytes (take (nat (ms - int (length samples))) (fileSamples mb rest)))"
proof (induction "length rest" arbitrary: rest samples tot rule: less_induct)
  case less
  let ?k = "nat (ms - int (length samples))"
  show ?case
  proof (cases "int (length samples) < ms")
    case False
    then have "readLoop mb ms fault rest samples tot = Some (Inr (samples, tot))"
      by (subst readLoop.simps) simp
    moreover from False have "?k = 0" by simp
    ultimately show ?thesis by (simp add: sampleBytes_def)
  next
    case cap: True
    then have k: "0 < ?k" by simp
    show ?thesis
    proof (cases "length rest < mb")
      case short: True
      show ?thesis
      proof (cases fault)
        case (Some e)
        then have "readLoop mb ms fault rest samples tot = Some (Inl e)"
          using cap short by (subst readLoop.simps) simp
        then show ?thesis using Some by simp
      next
        case None
        show ?thesis
        proof (cases "rest = []")
          case True
          then have "readLoop mb ms fault rest samples tot = Some (Inr (samples, tot))"
            using cap short None by (subst readLoop.simps) simp
          moreover have "fileSamples mb rest = []"
            using True by (simp add: fileSamples_def chunksOf_Nil)
          ultimately show ?thesis by (simp add: sampleBytes_def)
        next
          case False
          then have ch: "chunksOf mb rest = [rest]"
            using short mb by (simp add: chunksOf_short)
          show ?thesis
          proof (cases "bytesTrimSpace rest = []")
            case True
            then have "readLoop mb ms fault rest samples tot = Some (Inr (samples, tot))"
              using cap short None False by (subst readLoop.simps) (simp add: Let_def)
            moreover have "fileSamples mb rest = []"
              using True ch by (simp add: fileSamples_def)
            ultimately show ?thesis by (simp add: sampleBytes_def)
          next
            case nonempty: False
            then have "readLoop mb ms fault rest samples tot
                = Some (Inr (samples @ [bytesTrimSpace rest], tot + int (length (bytesTrimSpace rest))))"
              using cap short None False by (subst readLoop.simps) (simp add: Let_def)
            moreover have "fileSamples mb rest = [bytesTrimSpace rest]"
              using nonempty ch by (simp add: fileSamples_def)
            moreover have "take ?k [bytesTrimSpace rest] = [bytesTrimSpace rest]"
              using k by (cases ?k) simp_all
            ultimately show ?thesis by (simp add: sampleBytes_def)
          qed
        qed
      qed
    next
      case full: False
      then have ne: "rest \<noteq> []" using mb by auto
      then have ch: "chunksOf mb rest = take mb rest # chunksOf mb (drop mb rest)"
        using mb by (simp add: chunksOf_step)
      have smaller: "length (drop mb rest) < length rest"
        using ne mb by simp
      let ?data = "bytesTrimSpace (take mb rest)"
      show ?thesis
      proof (cases "?data = []")
        case True
        then have eq: "readLoop mb ms fault rest samples tot
            = readLoop mb ms fault (drop mb rest) samples tot"
          using cap full by (subst readLoop.simps) (simp add: Let_def)
        have fs: "fileSamples mb rest = fileSamples mb (drop mb rest)"
          using True ch by (simp add: fileSamples_def)
        show ?thesis
          using less [OF smaller, of samples tot] by (simp only: eq fs)
      next
        case False
        then have eq: "readLoop mb ms fault rest samples tot
            = readLoop mb ms fault (drop mb rest) (samples @ [?data]) (tot + int (length ?data))"
          using cap full by (subst readLoop.simps) (simp add: Let_def)
        have fs: "fileSamples mb rest = ?data # fileSamples mb (drop mb rest)"
          using False ch by (simp add: fileSamples_def)
        have k': "nat (ms - int (length (samples @ [?data]))) = ?k - 1"
          by simp
        have tk: "take ?k (?data # fileSamples mb (drop mb rest))
            = ?data # take (?k - 1) (fileSamples mb (drop mb rest))"
          using k by (cases ?k) simp_all
        show ?thesis
          using less [OF smaller, of "samples @ [?data]" "tot + int (length ?data)"]
          by (simp only: eq fs k' tk) (auto simp: sampleBytes_def)
      qed
    qed
  qed
qed

lemma sampleBytes_append: "sampleBytes (a @ b) = sampleBytes a + sampleBytes b"
  by (simp add: sampleBytes_def)

lemma readSamplesFromFile_result:
  assumes "0 < mb"
  shows "\<exists>r. readSamplesFromFile w p mb cap = Some r \<and>
           (files w p \<noteq> None \<and> faults w p = None \<longrightarrow> (\<exists>out t. r = Inr (out, t))) \<and>
           (\<forall>out t. r = Inr (out, t) \<longrightarrow>
              out = take (nat cap) (fileSamples (nat mb) (contents w p)) \<and> t = sampleBytes out)"
proof (cases "files w p")
  case None
  then show ?thesis by (simp add: readSamplesFromFile_def os_Open_def)
next
  case (Some c)
  then have eq: "readSamplesFromFile w p mb cap
      = readLoop (nat mb) cap (faults w p) (contents w p) [] 0"
    using assms by (simp add: readSamplesFromFile_def os_Open_def)
  have "0 < nat mb" using assms by simp
  from readLoop_result [OF this, of cap "faults w p" "contents w p" "[]" 0]
  show ?thesis using Some by (simp only: eq) auto
qed

lemma collectLoop_result:
  assumes mb: "0 < mb"
  shows "\<exists>r. collectLoop w ms mb paths samples stats = Some r \<and>
           ((\<forall>p\<in>set paths. files w p \<noteq> None \<and> faults w p = None) \<longrightarrow> (\<exists>out st. r = Inr (out, st))) \<and>
           (\<forall>out st. r = Inr (out, st) \<longrightarrow>
              out = samples @ take (nat (ms - int (length samples))) (pathSamples w (nat mb) paths) \<and>
              Samples st = Samples stats + int (length (drop (length samples) out)) \<and>
              SampleBytes st = SampleBytes stats + sampleBytes (drop (length samples) out))"
proof (induction paths arbitrary: samples stats)
  case Nil
  then show ?case by (simp add: pathSamples_def sampleBytes_def)
next
  case (Cons p paths)
  let ?k = "nat (ms - int (length samples))"
  let ?fs = "fileSamples (nat mb) (contents w p)"
  have ps: "pathSamples w (nat mb) (p # paths) = ?fs @ pathSamples w (nat mb) paths"
    by (simp add: pathSamples_def)
  show ?case
  proof (cases "int (length samples) \<ge> ms")
    case True
    then have "?k = 0" by simp
    then show ?thesis using True by (simp add: sampleBytes_def)
  next
    case cap: False
    then have k: "0 < ?k" by simp
    from readSamplesFromFile_result [OF mb, of w p "ms - int (length samples)"]
    obtain r where r: "readSamplesFromFile w p mb (ms - int (length samples)) = Some r"
      and ok: "files w p \<noteq> None \<and> faults w p = None \<longrightarrow> (\<exists>out t. r = Inr (out, t))"
      and res: "\<forall>out t. r = Inr (out, t) \<longrightarrow> out = take ?k ?fs \<and> t = sampleBytes out"
      by blast
    show ?thesis
    proof (cases r)
      case (Inl e)
      then have "collectLoop w ms mb (p # paths) samples stats = Some (Inl e)"
        using cap r by simp
      then show ?thesis using ok Inl by auto
    next
      case (Inr pr)
      obtain chunks readBytes where pr: "pr = (chunks, readBytes)" by (cases pr)
      with Inr res have chunks: "chunks = take ?k ?fs" and rb: "readBytes = sampleBytes chunks"
        by auto
      show ?thesis
      proof (cases "chunks = []")
        case True
        then have eq: "collectLoop w ms mb (p # paths) samples stats
            = collectLoop w ms mb paths samples stats"
          using cap r Inr pr by simp
        from True chunks k have "?fs = []" by (cases ?k; cases ?fs) simp_all
        then have ps': "pathSamples w (nat mb) (p # paths) = pathSamples w (nat mb) paths"
          using ps by simp
        show ?thesis using Cons.IH [of samples stats] by (simp only: eq ps') auto
      next
        case False
        let ?stats = "stats\<lparr>FilesScanned := FilesScanned stats + 1,
                            Samples := Samples stats + int (length chunks),
                            SampleBytes := SampleBytes stats + readBytes\<rparr>"
        from False have eq: "collectLoop w ms mb (p # paths) samples stats
            = collectLoop w ms mb paths (samples @ chunks) ?stats"
          using cap r Inr pr by simp
        have tk: "take ?k (?fs @ pathSamples w (nat mb) paths)
            = chunks @ take (nat (ms - int (length (samples @ chunks)))) (pathSamples w (nat mb) paths)"
        proof (cases "length ?fs \<le> ?k")
          case True
          then have "chunks = ?fs" using chunks by simp
          moreover have "nat (ms - int (length (samples @ ?fs))) = ?k - length ?fs"
            by simp
          ultimately show ?thesis using True by simp
        next
          case False
          then have "length chunks = ?k" using chunks by simp
          then have "nat (ms - int (length (samples @ chunks))) = 0" using cap by simp
          then show ?thesis using False chunks by simp
        qed
        from Cons.IH [of "samples @ chunks" ?stats]
        obtain r' where r': "collectLoop w ms mb paths (samples @ chunks) ?stats = Some r'"
          and ok': "(\<forall>p\<in>set paths. files w p \<noteq> None \<and> faults w p = None) \<longrightarrow> (\<exists>out st. r' = Inr (out, st))"
          and res': "\<forall>out st. r' = Inr (out, st) \<longrightarrow>
              out = (samples @ chunks) @ take (nat (ms - int (length (samples @ chunks)))) (pathSamples w (nat mb) paths) \<and>
              Samples st = Samples ?stats + int (length (drop (length (samples @ chunks)) out)) \<and>
              SampleBytes st = SampleBytes ?stats + sampleBytes (drop (length (samples @ chunks)) out)"
          by blast
        have "\<forall>out st. r' = Inr (out, st) \<longrightarrow>
              out = samples @ take ?k (pathSamples w (nat mb) (p # paths)) \<and>
              Samples st = Samples stats + int (length (drop (length samples) out)) \<and>
              SampleBytes st = SampleBytes stats + sampleBytes (drop (length samples) out)"
        proof (intro allI impI)
          fix out st
          assume a: "r' = Inr (out, st)"
          let ?tail = "take (nat (ms - int (length (samples @ chunks)))) (pathSamples w (nat mb) paths)"
          from a res' have o: "out = (samples @ chunks) @ ?tail"
            and s1: "Samples st = Samples ?stats + int (length (drop (length (samples @ chunks)) out))"
            and s2: "SampleBytes st = SampleBytes ?stats + sampleBytes (drop (length (samples @ chunks)) out)"
            by blast+
          have d1: "drop (length (samples @ chunks)) out = ?tail" using o by simp
          have d2: "drop (length samples) out = chunks @ ?tail" using o by simp
          have "out = samples @ take ?k (pathSamples w (nat mb) (p # paths))"
            using o ps tk by simp
          moreover have "Samples st = Samples stats + int (length (drop (length samples) out))"
            using s1 unfolding d1 d2 by simp
          moreover have "SampleBytes st = SampleBytes stats + sampleBytes (drop (length samples) out)"
            using s2 rb unfolding d1 d2 by (simp add: sampleBytes_append)
          ultimately show "out = samples @ take ?k (pathSamples w (nat mb) (p # paths)) \<and>
              Samples st = Samples stats + int (length (drop (length samples) out)) \<and>
              SampleBytes st = SampleBytes stats + sampleBytes (drop (length samples) out)"
            by blast
        qed
        with r' ok' show ?thesis by (simp only: eq) auto
      qed
    qed
  qed
qed

lemma collectSamples_result:
  assumes mb: "0 < mb"
  shows "\<exists>r. collectSamples X w dir ms mb = Some r \<and>
           (\<forall>samples stats. r = Inr (samples, stats) \<longrightarrow>
              2 \<le> length samples \<and>
              (\<exists>paths. listFiles X w dir = Inr paths \<and>
                 samples = take (nat ms) (pathSamples w (nat mb) paths)) \<and>
              Samples stats = int (length samples) \<and>
              SampleBytes stats = sampleBytes samples)"
proof (cases "listFiles X w dir")
  case (Inl e)
  then show ?thesis by (simp add: collectSamples_def)
next
  case (Inr paths)
  let ?s0 = "\<lparr>FilesScanned = 0, Samples = 0, SampleBytes = 0\<rparr>"
  from collectLoop_result [OF mb, of w ms paths "[]" ?s0]
  obtain r where r: "collectLoop w ms mb paths [] ?s0 = Some r"
    and res: "\<forall>out st. r = Inr (out, st) \<longrightarrow>
        out = take (nat ms) (pathSamples w (nat mb) paths) \<and>
        Samples st = int (length out) \<and> SampleBytes st = sampleBytes out"
    by auto
  show ?thesis
  proof (cases r)
    case (Inl e)
    with Inr r show ?thesis by (simp add: collectSamples_def)
  next
    case inr: (Inr pr)
    obtain out st where pr: "pr = (out, st)" by (cases pr)
    with inr res have "out = take (nat ms) (pathSamples w (nat mb) paths)"
      "Samples st = int (length out)" "SampleBytes st = sampleBytes out"
      by auto
    with Inr r inr pr show ?thesis
      by (auto simp: collectSamples_def)
  qed
qed

lemma collectSamples_few:
  assumes mb: "0 < mb" and ms: "0 < ms"
    and ls: "listFiles X w dir = Inr paths"
    and few: "length (take (nat ms) (pathSamples w (nat mb) paths)) < 2"
  shows "\<exists>e. collectSamples X w dir ms mb = Some (Inl e)"
proof -
  from collectSamples_result [OF mb, of X w dir ms]
  obtain r where r: "collectSamples X w dir ms mb = Some r"
    and res: "\<forall>samples stats. r = Inr (samples, stats) \<longrightarrow>
        2 \<le> length samples \<and>
        (\<exists>paths. listFiles X w dir = Inr paths \<and> samples = take (nat ms) (pathSamples w (nat mb) paths))"
    by blast
  show ?thesis
  proof (cases r)
    case (Inl e)
    with r show ?thesis by simp
  next
    case (Inr pr)
    obtain samples stats where "pr = (samples, stats)" by (cases pr)
    with Inr res ls have "2 \<le> length samples" "samples = take (nat ms) (pathSamples w (nat mb) paths)"
      by auto
    with few show ?thesis by (auto simp: min_def split: if_splits)
  qed
qed

lemma train_main_collect_error:
  assumes "collectSamples X w1 (t_inputDir f) (t_maxSamples f) (t_maxSampleBytes f) = Some (Inl e)"
    and "os_MkdirAll (t_outDir f) w = Inr w1"
  shows "\<exists>out. train_main X f w = Some out \<and> exitCode out \<noteq> 0 \<and> EvBuildZstdDict \<notin> set (trace out)
           \<and> disk out \<in> {w, w1}"
  using assms by (simp add: train_main_def Let_def)

text \<open>
  The file \<^verbatim>\<open>vt/f\<close> of the small instance starts with a vertical tab and ends with a
  form feed. Its two samples keep them: the first starts and the second ends with white
  space.
\<close>

theorem collectSamples_whitespace_counterexample:
  "collectSamples sim simWorld ''vt'' 10 4
     = Some (Inr ([[CHR 0x0B, CHR ''a'', CHR ''b''], [CHR ''c'', CHR ''d'', CHR 0x0C]],
                  \<lparr>FilesScanned = 1, Samples = 2, SampleBytes = 6\<rparr>)) \<and>
   asciiSpace (hd [CHR 0x0B, CHR ''a'', CHR ''b'']) \<and>
   asciiSpace (last [CHR ''c'', CHR ''d'', CHR 0x0C])"
  by code_simp

text \<open>
  C2, as the code has it. For positive \<open>maxSamples\<close> and \<open>maxSampleBytes\<close>,
  \<^verbatim>\<open>collectSamples\<close> returns, and every sample in the list it returns is non-empty and
  neither starts nor ends with one of the four bytes \<^verbatim>\<open>bytesTrimSpace\<close> trims: space,
  line feed, carriage return, horizontal tab.
\<close>

theorem collectSamples_samples_trimmed:
  assumes "0 < maxSamples" and "0 < maxSampleBytes"
  shows "\<exists>r. collectSamples X w dir maxSamples maxSampleBytes = Some r \<and>
           (\<forall>samples stats s. r = Inr (samples, stats) \<and> s \<in> set samples \<longrightarrow>
              s \<noteq> [] \<and> \<not> isTrimByte (hd s) \<and> \<not> isTrimByte (last s))"
proof -
  from collectSamples_result [OF assms(2), of X w dir maxSamples]
  obtain r where r: "collectSamples X w dir maxSamples maxSampleBytes = Some r"
    and res: "\<forall>samples stats. r = Inr (samples, stats) \<longrightarrow>
        (\<exists>paths. listFiles X w dir = Inr paths \<and>
           samples = take (nat maxSamples) (pathSamples w (nat maxSampleBytes) paths))"
    by blast
  have "s \<noteq> [] \<and> \<not> isTrimByte (hd s) \<and> \<not> isTrimByte (last s)"
    if "r = Inr (samples, stats)" and "s \<in> set samples" for samples stats s
  proof -
    from that res obtain paths where
      "samples = take (nat maxSamples) (pathSamples w (nat maxSampleBytes) paths)"
      by blast
    with that(2) have "s \<in> set (pathSamples w (nat maxSampleBytes) paths)"
      by (auto dest: in_set_takeD)
    then obtain p where "s \<in> set (fileSamples (nat maxSampleBytes) (contents w p))"
      by (auto simp: pathSamples_def)
    then show ?thesis using fileSamples_props by blast
  qed
  with r show ?thesis by blast
qed

theorem collectSamples_samples_trimmed_witness:
  "(0::int) < 10 \<and> (0::int) < 4 \<and>
   collectSamples sim simWorld ''in'' 10 4
     = Some (Inr ([''ab'', ''cd'', ''e'', ''hell'', ''o''], \<lparr>FilesScanned = 2, Samples = 5, SampleBytes = 10\<rparr>)) \<and>
   ''hell'' \<noteq> [] \<and> \<not> isTrimByte (hd ''hell'') \<and> \<not> isTrimByte (last ''hell'')"
proof -
  have ev: "collectSamples sim simWorld ''in'' 10 4
     = Some (Inr ([''ab'', ''cd'', ''e'', ''hell'', ''o''], \<lparr>FilesScanned = 2, Samples = 5, SampleBytes = 10\<rparr>))"
    by code_simp
  from collectSamples_samples_trimmed [of 10 4 sim simWorld "''in''"] ev
  have "''hell'' \<noteq> [] \<and> \<not> isTrimByte (hd ''hell'') \<and> \<not> isTrimByte (last ''hell'')"
    by auto
  with ev show ?thesis by simp
qed

text \<open>
  C7. For positive \<open>maxSamples\<close> and \<open>maxSampleBytes\<close>, \<^verbatim>\<open>collectSamples\<close> returns at most
  \<open>maxSamples\<close> samples, each of at most \<open>maxSampleBytes\<close> bytes: the list is the first
  \<open>maxSamples\<close> of the samples that the consecutive chunks of \<open>maxSampleBytes\<close> bytes of the
  listed files give, file after file and chunk after chunk.
\<close>

theorem collectSamples_bounded_sequential:
  assumes "0 < maxSamples" and "0 < maxSampleBytes"
  shows "\<exists>r. collectSamples X w dir maxSamples maxSampleBytes = Some r \<and>
           (\<forall>samples stats. r = Inr (samples, stats) \<longrightarrow>
              int (length samples) \<le> maxSamples \<and>
              list_all (\<lambda>s. int (length s) \<le> maxSampleBytes) samples \<and>
              (\<exists>paths. listFiles X w dir = Inr paths \<and>
                 samples = take (nat maxSamples) (pathSamples w (nat maxSampleBytes) paths)))"
proof -
  from collectSamples_result [OF assms(2), of X w dir maxSamples]
  obtain r where r: "collectSamples X w dir maxSamples maxSampleBytes = Some r"
    and res: "\<forall>samples stats. r = Inr (samples, stats) \<longrightarrow>
        (\<exists>paths. listFiles X w dir = Inr paths \<and>
           samples = take (nat maxSamples) (pathSamples w (nat maxSampleBytes) paths))"
    by blast
  have "int (length samples) \<le> maxSamples \<and>
        list_all (\<lambda>s. int (length s) \<le> maxSampleBytes) samples \<and>
        (\<exists>paths. listFiles X w dir = Inr paths \<and>
           samples = take (nat maxSamples) (pathSamples w (nat maxSampleBytes) paths))"
    if "r = Inr (samples, stats)" for samples stats
  proof -
    from that res obtain paths where ls: "listFiles X w dir = Inr paths"
      and s: "samples = take (nat maxSamples) (pathSamples w (nat maxSampleBytes) paths)"
      by blast
    have "length samples \<le> nat maxSamples" using s by simp
    then have a: "int (length samples) \<le> maxSamples" using assms(1) by linarith
    have "int (length x) \<le> maxSampleBytes" if "x \<in> set samples" for x
    proof -
      from that s have "x \<in> set (pathSamples w (nat maxSampleBytes) paths)"
        by (auto dest: in_set_takeD)
      then obtain p where "x \<in> set (fileSamples (nat maxSampleBytes) (contents w p))"
        by (auto simp: pathSamples_def)
      then have "length x \<le> nat maxSampleBytes" using fileSamples_props by blast
      then show ?thesis using assms(2) by linarith
    qed
    then have b: "list_all (\<lambda>s. int (length s) \<le> maxSampleBytes) samples"
      by (simp add: list_all_iff)
    from a b ls s show ?thesis by blast
  qed
  with r show ?thesis by blast
qed

theorem collectSamples_bounded_sequential_witness:
  "(0::int) < 2 \<and> (0::int) < 4 \<and>
   collectSamples sim simWorld ''in'' 2 4
     = Some (Inr ([''ab'', ''cd''], \<lparr>FilesScanned = 1, Samples = 2, SampleBytes = 4\<rparr>)) \<and>
   int (length [''ab'', ''cd'']) \<le> 2 \<and>
   list_all (\<lambda>s. int (length s) \<le> 4) [''ab'', ''cd''] \<and>
   listFiles sim simWorld ''in'' = Inr [''in/a.txt'', ''in/sub/b.txt''] \<and>
   [''ab'', ''cd''] = take (nat 2) (pathSamples simWorld (nat 4) [''in/a.txt'', ''in/sub/b.txt''])"
proof -
  have ev: "collectSamples sim simWorld ''in'' 2 4
     = Some (Inr ([''ab'', ''cd''], \<lparr>FilesScanned = 1, Samples = 2, SampleBytes = 4\<rparr>))"
    by code_simp
  have ls: "listFiles sim simWorld ''in'' = Inr [''in/a.txt'', ''in/sub/b.txt'']"
    by code_simp
  from collectSamples_bounded_sequential [of 2 4 sim simWorld "''in''"]
  obtain r where r: "collectSamples sim simWorld ''in'' 2 4 = Some r"
    and res: "\<forall>samples stats. r = Inr (samples, stats) \<longrightarrow>
        int (length samples) \<le> 2 \<and> list_all (\<lambda>s. int (length s) \<le> 4) samples \<and>
        (\<exists>paths. listFiles sim simWorld ''in'' = Inr paths \<and>
           samples = take (nat 2) (pathSamples simWorld (nat 4) paths))"
    by auto
  from r ev have "r = Inr ([''ab'', ''cd''], \<lparr>FilesScanned = 1, Samples = 2, SampleBytes = 4\<rparr>)"
    by simp
  with res have b: "int (length [''ab'', ''cd'']) \<le> 2 \<and>
        list_all (\<lambda>s. int (length s) \<le> 4) [''ab'', ''cd'']"
    and "\<exists>paths. listFiles sim simWorld ''in'' = Inr paths \<and>
           [''ab'', ''cd''] = take (nat 2) (pathSamples simWorld (nat 4) paths)"
    by blast+
  then obtain paths where p1: "listFiles sim simWorld ''in'' = Inr paths"
    and p2: "[''ab'', ''cd''] = take (nat 2) (pathSamples simWorld (nat 4) paths)"
    by blast
  from p1 ls have "paths = [''in/a.txt'', ''in/sub/b.txt'']" by simp
  with p2 have c: "[''ab'', ''cd''] = take (nat 2) (pathSamples simWorld (nat 4) [''in/a.txt'', ''in/sub/b.txt''])"
    by (simp only:)
  from ev ls b c show ?thesis by (intro conjI) simp_all
qed

text \<open>
  C3. When the files listed give fewer than two samples, \<^verbatim>\<open>collectSamples\<close> returns an
  error, and \<^verbatim>\<open>main\<close> then ends with a non-zero exit code without having called
  \<^verbatim>\<open>dict.BuildZstdDict\<close> or written a dictionary, whatever \<^verbatim>\<open>-dict-size\<close> is.
\<close>

theorem train_needs_two_samples:
  assumes "0 < t_maxSamples f" and "0 < t_maxSampleBytes f"
    and "os_MkdirAll (t_outDir f) w = Inr w1"
    and "listFiles X w1 (t_inputDir f) = Inr paths"
    and "length (take (nat (t_maxSamples f)) (pathSamples w1 (nat (t_maxSampleBytes f)) paths)) < 2"
  shows "(\<exists>e. collectSamples X w1 (t_inputDir f) (t_maxSamples f) (t_maxSampleBytes f) = Some (Inl e)) \<and>
         (\<forall>d. \<exists>out. train_main X (f\<lparr>t_dictSize := d\<rparr>) w = Some out \<and> exitCode out \<noteq> 0 \<and>
                 EvBuildZstdDict \<notin> set (trace out) \<and> (\<forall>p. EvWriteFile p \<notin> set (trace out)))"
proof -
  from collectSamples_few [OF assms(2) assms(1) assms(4) assms(5)]
  obtain e where e: "collectSamples X w1 (t_inputDir f) (t_maxSamples f) (t_maxSampleBytes f) = Some (Inl e)"
    by blast
  have "\<exists>out. train_main X (f\<lparr>t_dictSize := d\<rparr>) w = Some out \<and> exitCode out \<noteq> 0 \<and>
                 EvBuildZstdDict \<notin> set (trace out) \<and> (\<forall>p. EvWriteFile p \<notin> set (trace out))" for d
    using e assms(1,2,3) by (simp add: train_main_def Let_def)
  with e show ?thesis by blast
qed

theorem train_needs_two_samples_witness:
  "0 < t_maxSamples (simTrainFlags\<lparr>t_inputDir := ''one''\<rparr>) \<and>
   0 < t_maxSampleBytes (simTrainFlags\<lparr>t_inputDir := ''one''\<rparr>) \<and>
   os_MkdirAll ''dict-out'' simWorld = Inr (simWorld\<lparr>dirs := insert ''dict-out'' (dirs simWorld)\<rparr>) \<and>
   listFiles sim (simWorld\<lparr>dirs := insert ''dict-out'' (dirs simWorld)\<rparr>) ''one'' = Inr [''one/a.txt''] \<and>
   length (take (nat 10) (pathSamples (simWorld\<lparr>dirs := insert ''dict-out'' (dirs simWorld)\<rparr>) (nat 4) [''one/a.txt''])) < 2 \<and>
   (\<exists>e. collectSamples sim (simWorld\<lparr>dirs := insert ''dict-out'' (dirs simWorld)\<rparr>) ''one'' 10 4 = Some (Inl e)) \<and>
   (\<forall>d. \<exists>out. train_main sim (simTrainFlags\<lparr>t_inputDir := ''one'', t_dictSize := d\<rparr>) simWorld = Some out \<and>
           exitCode out \<noteq> 0 \<and> EvBuildZstdDict \<notin> set (trace out) \<and> (\<forall>p. EvWriteFile p \<notin> set (trace out)))"
proof -
  let ?f = "simTrainFlags\<lparr>t_inputDir := ''one''\<rparr>"
  let ?w1 = "simWorld\<lparr>dirs := insert ''dict-out'' (dirs simWorld)\<rparr>"
  have h1: "0 < t_maxSamples ?f" and h2: "0 < t_maxSampleBytes ?f"
    by (simp_all add: simTrainFlags_def)
  have h3: "os_MkdirAll (t_outDir ?f) simWorld = Inr ?w1"
    by (simp add: os_MkdirAll_def simTrainFlags_def simWorld_def)
  have h4: "listFiles sim ?w1 (t_inputDir ?f) = Inr [''one/a.txt'']"
    by code_simp
  have h5: "length (take (nat (t_maxSamples ?f)) (pathSamples ?w1 (nat (t_maxSampleBytes ?f)) [''one/a.txt''])) < 2"
    by code_simp
  from train_needs_two_samples [OF h1 h2 h3 h4 h5] h1 h2 h3 h4 h5
  show ?thesis by (simp add: simTrainFlags_def)
qed

section \<open>The programs\<close>

text \<open>
  C10. When \<^verbatim>\<open>-use-dict\<close> is set and \<^verbatim>\<open>strings.TrimSpace\<close> leaves nothing of \<^verbatim>\<open>-dict\<close>,
  the compressor and the decompressor exit with code 1 having done nothing but print
  the message: no directory made, no file listed, read or written, the store as it was.
\<close>

theorem use_dict_requires_dict:
  "(c_useDict cf \<and> TrimSpace X (c_dictPath cf) = [] \<longrightarrow>
      compress_main X cf w =
        \<lparr>exitCode = 1, trace = [EvStderr ''-dict is required when -use-dict is set''], disk = w\<rparr>) \<and>
   (d_useDict df \<and> TrimSpace X (d_dictPath df) = [] \<longrightarrow>
      decompress_main X df w =
        \<lparr>exitCode = 1, trace = [EvStderr ''-dict is required when -use-dict is set''], disk = w\<rparr>)"
  by (simp add: compress_main_def decompress_main_def)

theorem use_dict_requires_dict_witness:
  "c_useDict (simCompressFlags\<lparr>c_useDict := True, c_dictPath := [CHR '' '', CHR 0x09]\<rparr>) \<and>
   TrimSpace sim (c_dictPath (simCompressFlags\<lparr>c_useDict := True, c_dictPath := [CHR '' '', CHR 0x09]\<rparr>)) = [] \<and>
   compress_main sim (simCompressFlags\<lparr>c_useDict := True, c_dictPath := [CHR '' '', CHR 0x09]\<rparr>) simWorld =
     \<lparr>exitCode = 1, trace = [EvStderr ''-dict is required when -use-dict is set''], disk = simWorld\<rparr> \<and>
   d_useDict (simDecompressFlags\<lparr>d_useDict := True\<rparr>) \<and>
   TrimSpace sim (d_dictPath (simDecompressFlags\<lparr>d_useDict := True\<rparr>)) = [] \<and>
   decompress_main sim (simDecompressFlags\<lparr>d_useDict := True\<rparr>) simWorld =
     \<lparr>exitCode = 1, trace = [EvStderr ''-dict is required when -use-dict is set''], disk = simWorld\<rparr>"
proof -
  let ?cf = "simCompressFlags\<lparr>c_useDict := True, c_dictPath := [CHR '' '', CHR 0x09]\<rparr>"
  let ?df = "simDecompressFlags\<lparr>d_useDict := True\<rparr>"
  have c: "c_useDict ?cf \<and> TrimSpace sim (c_dictPath ?cf) = []"
    by (simp add: simCompressFlags_def sim_def simTrimSpace_def asciiSpace_def)
  have d: "d_useDict ?df \<and> TrimSpace sim (d_dictPath ?df) = []"
    by (simp add: simDecompressFlags_def sim_def simTrimSpace_def)
  from use_dict_requires_dict [of ?cf sim simWorld ?df] c d
  show ?thesis by blast
qed

lemma compress_push_after_work:
  assumes push: "EvPush j \<in> set (trace (compress_main X f w))"
  shows "\<exists>w1 paths dictBytes stats fin.
           os_MkdirAll (c_outDir f) w = Inr w1 \<and>
           listFiles X w1 (c_inputDir f) = Inr paths \<and>
           compressFiles X paths (c_inputDir f) (c_outDir f) (c_level f) dictBytes w1
             = (stats, None, disk (compress_main X f w)) \<and>
           (\<exists>pre. trace (compress_main X f w) = pre @ [EvCompressFiles, EvPush ''compress'', fin] \<and>
                  (\<forall>k. EvPush k \<notin> set pre)) \<and>
           (case compress_pushMetrics X (c_pushURL f) stats
                   (sourceLabelOf X (c_inputDir f) ''output'') (c_level f) (c_useDict f) of
              Some e \<Rightarrow> fin = EvStderrErr ''metrics push failed'' e \<and> exitCode (compress_main X f w) = 1
            | None \<Rightarrow> exitCode (compress_main X f w) = 0)"
proof -
  have nd: "\<not> (c_useDict f \<and> TrimSpace X (c_dictPath f) = [])"
    using push by (auto simp: compress_main_def)
  obtain w1 where mk: "os_MkdirAll (c_outDir f) w = Inr w1"
    using push nd by (cases "os_MkdirAll (c_outDir f) w") (auto simp: compress_main_def)
  obtain paths where ls: "listFiles X w1 (c_inputDir f) = Inr paths"
    using push nd mk by (cases "listFiles X w1 (c_inputDir f)") (auto simp: compress_main_def)
  have ne: "length paths \<noteq> 0"
    using push nd mk ls by (auto simp: compress_main_def)
  obtain dictBytes where rd: "(if c_useDict f then os_ReadFile (c_dictPath f) w1 else Inr []) = Inr dictBytes"
    using push nd mk ls ne
    by (cases "if c_useDict f then os_ReadFile (c_dictPath f) w1 else Inr []")
       (auto simp: compress_main_def Let_def)
  obtain stats err w2 where cf: "compressFiles X paths (c_inputDir f) (c_outDir f) (c_level f) dictBytes w1 = (stats, err, w2)"
    by (cases "compressFiles X paths (c_inputDir f) (c_outDir f) (c_level f) dictBytes w1") auto
  have err: "err = None"
    using push nd mk ls ne rd cf by (cases err) (auto simp: compress_main_def Let_def)
  let ?tr2 = "[EvMkdirAll (c_outDir f), EvListFiles (c_inputDir f)]
               @ (if c_useDict f then [EvReadFile (c_dictPath f)] else [])"
  let ?p = "compress_pushMetrics X (c_pushURL f) stats
              (sourceLabelOf X (c_inputDir f) ''output'') (c_level f) (c_useDict f)"
  show ?thesis
  proof (cases ?p)
    case None
    then have out: "compress_main X f w =
        \<lparr>exitCode = 0,
         trace = ?tr2 @ [EvCompressFiles, EvPush ''compress'',
            EvStdout (''compressed '' @ Itoa X (FilesProcessed stats)
              @ '' files ('' @ Itoa X (InputBytes stats) @ '' bytes -> ''
              @ Itoa X (OutputBytes stats) @ '' bytes) into '' @ c_outDir f)],
         disk = w2\<rparr>"
      using nd mk ls ne rd cf err by (simp add: compress_main_def Let_def)
    have "\<forall>k. EvPush k \<notin> set ?tr2" by simp
    with mk ls cf err None out show ?thesis
      by (intro exI conjI) (simp_all only: outcome.simps option.case, auto)
  next
    case (Some e)
    then have out: "compress_main X f w =
        \<lparr>exitCode = 1,
         trace = ?tr2 @ [EvCompressFiles, EvPush ''compress'', EvStderrErr ''metrics push failed'' e],
         disk = w2\<rparr>"
      using nd mk ls ne rd cf err by (simp add: compress_main_def Let_def)
    have "\<forall>k. EvPush k \<notin> set ?tr2" by simp
    with mk ls cf err Some out show ?thesis
      by (intro exI conjI) (simp_all only: outcome.simps option.case, auto)
  qed
qed

lemma decompress_push_after_work:
  assumes push: "EvPush j \<in> set (trace (decompress_main X f w))"
  shows "\<exists>w1 paths dictBytes stats fin.
           os_MkdirAll (d_outDir f) w = Inr w1 \<and>
           listFiles X w1 (d_inputDir f) = Inr paths \<and>
           decompressFiles X paths (d_inputDir f) (d_outDir f) dictBytes w1
             = (stats, None, disk (decompress_main X f w)) \<and>
           (\<exists>pre. trace (decompress_main X f w) = pre @ [EvDecompressFiles, EvPush ''decompress'', fin] \<and>
                  (\<forall>k. EvPush k \<notin> set pre)) \<and>
           (case decompress_pushMetrics X (d_pushURL f) stats
                   (sourceLabelOf X (d_inputDir f) ''compressed'') (d_useDict f)
                   (if TrimSpace X (d_runID f) = [] then Now X else d_runID f) of
              Some e \<Rightarrow> fin = EvStderrErr ''metrics push failed'' e \<and> exitCode (decompress_main X f w) = 1
            | None \<Rightarrow> exitCode (decompress_main X f w) = 0)"
proof -
  have nd: "\<not> (d_useDict f \<and> TrimSpace X (d_dictPath f) = [])"
    using push by (auto simp: decompress_main_def)
  obtain w1 where mk: "os_MkdirAll (d_outDir f) w = Inr w1"
    using push nd by (cases "os_MkdirAll (d_outDir f) w") (auto simp: decompress_main_def)
  obtain paths where ls: "listFiles X w1 (d_inputDir f) = Inr paths"
    using push nd mk by (cases "listFiles X w1 (d_inputDir f)") (auto simp: decompress_main_def)
  have ne: "length paths \<noteq> 0"
    using push nd mk ls by (auto simp: decompress_main_def)
  obtain dictBytes where rd: "(if d_useDict f then os_ReadFile (d_dictPath f) w1 else Inr []) = Inr dictBytes"
    using push nd mk ls ne
    by (cases "if d_useDict f then os_ReadFile (d_dictPath f) w1 else Inr []")
       (auto simp: decompress_main_def Let_def)
  obtain stats err w2 where cf: "decompressFiles X paths (d_inputDir f) (d_outDir f) dictBytes w1 = (stats, err, w2)"
    by (cases "decompressFiles X paths (d_inputDir f) (d_outDir f) dictBytes w1") auto
  have err: "err = None"
    using push nd mk ls ne rd cf by (cases err) (auto simp: decompress_main_def Let_def)
  let ?tr2 = "[EvMkdirAll (d_outDir f), EvListFiles (d_inputDir f)]
               @ (if d_useDict f then [EvReadFile (d_dictPath f)] else [])"
  let ?p = "decompress_pushMetrics X (d_pushURL f) stats
              (sourceLabelOf X (d_inputDir f) ''compressed'') (d_useDict f)
              (if TrimSpace X (d_runID f) = [] then Now X else d_runID f)"
  show ?thesis
  proof (cases ?p)
    case None
    then have out: "decompress_main X f w =
        \<lparr>exitCode = 0,
         trace = ?tr2 @ [EvDecompressFiles, EvPush ''decompress'',
            EvStdout (''decompressed '' @ Itoa X (FilesProcessed stats)
              @ '' files ('' @ Itoa X (InputBytes stats) @ '' bytes -> ''
              @ Itoa X (OutputBytes stats) @ '' bytes) into '' @ d_outDir f)],
         disk = w2\<rparr>"
      using nd mk ls ne rd cf err by (simp add: decompress_main_def Let_def)
    have "\<forall>k. EvPush k \<notin> set ?tr2" by simp
    with mk ls cf err None out show ?thesis
      by (intro exI conjI) (simp_all only: outcome.simps option.case, auto)
  next
    case (Some e)
    then have out: "decompress_main X f w =
        \<lparr>exitCode = 1,
         trace = ?tr2 @ [EvDecompressFiles, EvPush ''decompress'', EvStderrErr ''metrics push failed'' e],
         disk = w2\<rparr>"
      using nd mk ls ne rd cf err by (simp add: decompress_main_def Let_def)
    have "\<forall>k. EvPush k \<notin> set ?tr2" by simp
    with mk ls cf err Some out show ?thesis
      by (intro exI conjI) (simp_all only: outcome.simps option.case, auto)
  qed
qed


lemma train_push_after_work:
  assumes run: "train_main X f w = Some out" and push: "EvPush j \<in> set (trace out)"
  shows "\<exists>w1 samples stats trained outputPath w2 fin.
           os_MkdirAll (t_outDir f) w = Inr w1 \<and>
           collectSamples X w1 (t_inputDir f) (t_maxSamples f) (t_maxSampleBytes f) = Some (Inr (samples, stats)) \<and>
           BuildZstdDict X samples (trainOptions f) = Inr trained \<and>
           os_MkdirAll (Dir X outputPath) w1 = Inr w2 \<and>
           os_WriteFile X outputPath trained w2 = Inr (disk out) \<and>
           (\<exists>pre. trace out = pre @ [EvWriteFile outputPath, EvPush ''train-dict'', fin] \<and>
                  (\<forall>k. EvPush k \<notin> set pre)) \<and>
           (case train_pushMetrics X (t_pushURL f) stats (int (length trained)) (t_dictSize f)
                   (sourceLabelOf X (t_inputDir f) ''output'') of
              Some e \<Rightarrow> fin = EvStderrErr ''metrics push failed'' e \<and> exitCode out = 1
            | None \<Rightarrow> exitCode out = 0)"
proof -
  have pos: "\<not> t_dictSize f \<le> 0" "\<not> t_maxSamples f \<le> 0" "\<not> t_maxSampleBytes f \<le> 0"
    using run push by (auto simp: train_main_def split: if_splits)
  obtain w1 where mk: "os_MkdirAll (t_outDir f) w = Inr w1"
    using run push pos by (cases "os_MkdirAll (t_outDir f) w") (auto simp: train_main_def)
  define outputPath where "outputPath =
     (if t_outFile f = [] then Join X (t_outDir f) (''zstd_dict_'' @ Now X @ ''.zdict'') else t_outFile f)"
  obtain samples stats where cs:
    "collectSamples X w1 (t_inputDir f) (t_maxSamples f) (t_maxSampleBytes f) = Some (Inr (samples, stats))"
    using run push pos mk
    by (cases "collectSamples X w1 (t_inputDir f) (t_maxSamples f) (t_maxSampleBytes f)")
       (auto simp: train_main_def Let_def split: sum.splits if_splits)
  obtain trained where bd: "BuildZstdDict X samples (trainOptions f) = Inr trained"
    using run push pos mk cs
    by (cases "BuildZstdDict X samples (trainOptions f)") (auto simp: train_main_def Let_def)
  obtain w2 where mk2: "os_MkdirAll (Dir X outputPath) w1 = Inr w2"
    using run push pos mk cs bd
    by (cases "os_MkdirAll (Dir X outputPath) w1") (auto simp: train_main_def Let_def outputPath_def)
  obtain w3 where wf: "os_WriteFile X outputPath trained w2 = Inr w3"
    using run push pos mk cs bd mk2
    by (cases "os_WriteFile X outputPath trained w2")
       (auto simp: train_main_def Let_def outputPath_def split: if_splits)
  let ?tr4 = "[EvMkdirAll (t_outDir f), EvCollectSamples, EvBuildZstdDict, EvMkdirAll (Dir X outputPath)]"
  let ?p = "train_pushMetrics X (t_pushURL f) stats (int (length trained)) (t_dictSize f)
              (sourceLabelOf X (t_inputDir f) ''output'')"
  have np: "\<forall>k. EvPush k \<notin> set ?tr4" by simp
  show ?thesis
  proof (cases ?p)
    case None
    then have out: "out =
        \<lparr>exitCode = 0,
         trace = ?tr4 @ [EvWriteFile outputPath, EvPush ''train-dict'',
            EvStdout (''trained dictionary '' @ outputPath @ '' (''
              @ Itoa X (int (length trained)) @ '' bytes) from ''
              @ Itoa X (Samples stats) @ '' samples'')],
         disk = w3\<rparr>"
      using run pos mk cs bd mk2 wf
      by (simp add: train_main_def Let_def outputPath_def split: if_splits)
    with mk cs bd mk2 wf None np show ?thesis
      by (intro exI conjI) (simp_all only: outcome.simps option.case, auto)
  next
    case (Some e)
    then have out: "out =
        \<lparr>exitCode = 1,
         trace = ?tr4 @ [EvWriteFile outputPath, EvPush ''train-dict'',
                         EvStderrErr ''metrics push failed'' e],
         disk = w3\<rparr>"
      using run pos mk cs bd mk2 wf
      by (simp add: train_main_def Let_def outputPath_def split: if_splits)
    with mk cs bd mk2 wf Some np show ?thesis
      by (intro exI conjI) (simp_all only: outcome.simps option.case, auto)
  qed
qed

lemma promptString_no_push:
  "promptString X message lines tr = (res, rest, tr') \<Longrightarrow> \<forall>k. EvPush k \<notin> set tr \<Longrightarrow> \<forall>k. EvPush k \<notin> set tr'"
  by (induction X message lines tr rule: promptString.induct) (auto simp: Let_def split: if_splits)

lemma promptInt_no_push:
  "promptInt X message lines tr = (res, rest, tr') \<Longrightarrow> \<forall>k. EvPush k \<notin> set tr \<Longrightarrow> \<forall>k. EvPush k \<notin> set tr'"
  by (induction X message lines tr rule: promptInt.induct) (auto split: if_splits sum.splits)

lemma generate_push_after_work:
  assumes push: "EvPush j \<in> set (trace (generate_main X f r w))"
  shows "\<exists>dataTypeVal count lines w1 outputFile r1 fin.
           os_MkdirAll (g_outDir f) (w\<lparr>stdin := lines\<rparr>) = Inr w1 \<and>
           generate X dataTypeVal outputFile count r w1 = (None, r1, disk (generate_main X f r w)) \<and>
           (\<exists>pre. trace (generate_main X f r w) = pre @ [EvWriteJSONArray outputFile, EvPush ''generate-data'', fin] \<and>
                  (\<forall>k. EvPush k \<notin> set pre)) \<and>
           (case generate_pushMetrics X (g_pushURL f) dataTypeVal count of
              Some e \<Rightarrow> fin = EvStderrErr ''metrics push failed'' e \<and> exitCode (generate_main X f r w) = 1
            | None \<Rightarrow> exitCode (generate_main X f r w) = 0)"
proof -
  let ?ps = "if g_dataType f = []
            then promptString X ''Select type (movies, books, people): '' (stdin w) []
            else (Some (g_dataType f), stdin w, [])"
  obtain a in1 tr1 where ps: "?ps = (a, in1, tr1)" by (cases ?ps) auto
  have np1: "\<forall>k. EvPush k \<notin> set tr1"
    using ps promptString_no_push [of X _ "stdin w" "[]" a in1 tr1] by (auto split: if_splits)
  obtain dataType where a: "a = Some dataType"
    using push ps np1 by (cases a) (auto simp: generate_main_def)
  let ?pi = "if g_count f \<le> 0
            then promptInt X ''How many items do you want to generate? '' in1 tr1
            else (Some (g_count f), in1, tr1)"
  obtain b in2 tr2 where pi: "?pi = (b, in2, tr2)" by (cases ?pi) auto
  have np2: "\<forall>k. EvPush k \<notin> set tr2"
    using pi np1 promptInt_no_push [of X _ in1 tr1 b in2 tr2] by (auto split: if_splits)
  obtain count where b: "b = Some count"
    using push ps a pi np2 by (cases b) (auto simp: generate_main_def)
  define dataTypeVal where "dataTypeVal = ToLower X (TrimSpace X dataType)"
  define w0 where "w0 = w\<lparr>stdin := in2\<rparr>"
  have ty: "\<not> (dataTypeVal \<noteq> ''movies'' \<and> dataTypeVal \<noteq> ''books'' \<and> dataTypeVal \<noteq> ''people'')"
    using push ps a pi b np2
    by (auto simp: generate_main_def Let_def dataTypeVal_def simp del: not_Cons_self2 split: if_splits)
  obtain w1 where mk: "os_MkdirAll (g_outDir f) w0 = Inr w1"
    using push ps a pi b np2 ty
    by (cases "os_MkdirAll (g_outDir f) w0")
       (auto simp: generate_main_def Let_def dataTypeVal_def w0_def)
  define outputFile where "outputFile = Join X (g_outDir f) (dataTypeVal @ ''_'' @ Now X @ ''.json'')"
  obtain err r1 w2 where gen: "generate X dataTypeVal outputFile count r w1 = (err, r1, w2)"
    by (cases "generate X dataTypeVal outputFile count r w1") auto
  have err: "err = None"
    using push ps a pi b np2 ty mk gen
    by (cases err) (auto simp: generate_main_def Let_def dataTypeVal_def w0_def outputFile_def)
  let ?tr3 = "tr2 @ [EvMkdirAll (g_outDir f)]"
  let ?p = "generate_pushMetrics X (g_pushURL f) dataTypeVal count"
  have np3: "\<forall>k. EvPush k \<notin> set ?tr3" using np2 by simp
  show ?thesis
  proof (cases ?p)
    case None
    then have out: "generate_main X f r w =
        \<lparr>exitCode = 0,
         trace = ?tr3 @ [EvWriteJSONArray outputFile, EvPush ''generate-data'',
            EvStdout (''generated '' @ Itoa X count @ '' '' @ dataTypeVal @ '' into '' @ outputFile)],
         disk = w2\<rparr>"
      using ps a pi b ty mk gen err unfolding outputFile_def
      by (simp add: generate_main_def Let_def dataTypeVal_def [symmetric] w0_def [symmetric])
    with mk gen err None np3 show ?thesis
      unfolding w0_def
      by (intro exI conjI) (simp_all only: outcome.simps option.case, auto)
  next
    case (Some e)
    then have out: "generate_main X f r w =
        \<lparr>exitCode = 1,
         trace = ?tr3 @ [EvWriteJSONArray outputFile, EvPush ''generate-data'',
                         EvStderrErr ''metrics push failed'' e],
         disk = w2\<rparr>"
      using ps a pi b ty mk gen err unfolding outputFile_def
      by (simp add: generate_main_def Let_def dataTypeVal_def [symmetric] w0_def [symmetric])
    with mk gen err Some np3 show ?thesis
      unfolding w0_def
      by (intro exI conjI) (simp_all only: outcome.simps option.case, auto)
  qed
qed

text \<open>
  C9. In a run of any of the four programs the push is attempted only when the work
  was done: the batch function (for the trainer the writing of the dictionary, for the
  generator the writing of the JSON file) has returned without an error, the push is the
  next step, and the store the run ends with is the store the work left. When the push
  fails the exit code is 1, and the store is still that one.
\<close>

theorem push_only_after_work:
  "(EvPush j \<in> set (trace (compress_main X cf w)) \<longrightarrow> compressWorkDone X cf w (compress_main X cf w)) \<and>
   (EvPush j \<in> set (trace (decompress_main X df w)) \<longrightarrow> decompressWorkDone X df w (decompress_main X df w)) \<and>
   (\<forall>out. train_main X tf w = Some out \<and> EvPush j \<in> set (trace out) \<longrightarrow> trainWorkDone X tf w out) \<and>
   (EvPush j \<in> set (trace (generate_main X gf r w)) \<longrightarrow> generateWorkDone X gf r w (generate_main X gf r w))"
proof (intro conjI impI allI)
  assume "EvPush j \<in> set (trace (compress_main X cf w))"
  from compress_push_after_work [OF this]
  show "compressWorkDone X cf w (compress_main X cf w)"
    unfolding compressWorkDone_def pushedLast_def by blast
next
  assume "EvPush j \<in> set (trace (decompress_main X df w))"
  from decompress_push_after_work [OF this]
  show "decompressWorkDone X df w (decompress_main X df w)"
    unfolding decompressWorkDone_def pushedLast_def by blast
next
  fix out
  assume "train_main X tf w = Some out \<and> EvPush j \<in> set (trace out)"
  then have "train_main X tf w = Some out" "EvPush j \<in> set (trace out)" by simp_all
  from train_push_after_work [OF this]
  show "trainWorkDone X tf w out"
    unfolding trainWorkDone_def pushedLast_def by blast
next
  assume "EvPush j \<in> set (trace (generate_main X gf r w))"
  from generate_push_after_work [OF this]
  show "generateWorkDone X gf r w (generate_main X gf r w)"
    unfolding generateWorkDone_def pushedLast_def by blast
qed


theorem push_only_after_work_witness:
  "EvPush ''compress'' \<in> set (trace (compress_main sim (simCompressFlags\<lparr>c_pushURL := ''http://down''\<rparr>) simWorld)) \<and>
   compressWorkDone sim (simCompressFlags\<lparr>c_pushURL := ''http://down''\<rparr>) simWorld
     (compress_main sim (simCompressFlags\<lparr>c_pushURL := ''http://down''\<rparr>) simWorld) \<and>
   EvPush ''decompress'' \<in> set (trace (decompress_main sim
     (simDecompressFlags\<lparr>d_inputDir := ''packed'', d_pushURL := ''http://down''\<rparr>) simWorld)) \<and>
   decompressWorkDone sim (simDecompressFlags\<lparr>d_inputDir := ''packed'', d_pushURL := ''http://down''\<rparr>) simWorld
     (decompress_main sim (simDecompressFlags\<lparr>d_inputDir := ''packed'', d_pushURL := ''http://down''\<rparr>) simWorld) \<and>
   (\<exists>out. train_main sim (simTrainFlags\<lparr>t_pushURL := ''http://down''\<rparr>) simWorld = Some out \<and>
          EvPush ''train-dict'' \<in> set (trace out) \<and>
          trainWorkDone sim (simTrainFlags\<lparr>t_pushURL := ''http://down''\<rparr>) simWorld out) \<and>
   EvPush ''generate-data'' \<in> set (trace (generate_main sim (simGenerateFlags\<lparr>g_pushURL := ''http://down''\<rparr>) simRng simWorld)) \<and>
   generateWorkDone sim (simGenerateFlags\<lparr>g_pushURL := ''http://down''\<rparr>) simRng simWorld
     (generate_main sim (simGenerateFlags\<lparr>g_pushURL := ''http://down''\<rparr>) simRng simWorld)"
proof -
  let ?cf = "simCompressFlags\<lparr>c_pushURL := ''http://down''\<rparr>"
  let ?df = "simDecompressFlags\<lparr>d_inputDir := ''packed'', d_pushURL := ''http://down''\<rparr>"
  let ?tf = "simTrainFlags\<lparr>t_pushURL := ''http://down''\<rparr>"
  let ?gf = "simGenerateFlags\<lparr>g_pushURL := ''http://down''\<rparr>"
  have c: "EvPush ''compress'' \<in> set (trace (compress_main sim ?cf simWorld))"
    by code_simp
  have d: "EvPush ''decompress'' \<in> set (trace (decompress_main sim ?df simWorld))"
    by code_simp
  have "train_main sim ?tf simWorld \<noteq> None" by code_simp
  then obtain out where t: "train_main sim ?tf simWorld = Some out" by blast
  have "EvPush ''train-dict'' \<in> set (trace (the (train_main sim ?tf simWorld)))"
    by code_simp
  with t have t': "EvPush ''train-dict'' \<in> set (trace out)" by simp
  have g: "EvPush ''generate-data'' \<in> set (trace (generate_main sim ?gf simRng simWorld))"
    by code_simp
  from push_only_after_work [of "''compress''" sim ?cf simWorld ?df ?tf ?gf simRng] c
  have c': "compressWorkDone sim ?cf simWorld (compress_main sim ?cf simWorld)" by blast
  from push_only_after_work [of "''decompress''" sim ?cf simWorld ?df ?tf ?gf simRng] d
  have d': "decompressWorkDone sim ?df simWorld (decompress_main sim ?df simWorld)" by blast
  from push_only_after_work [of "''train-dict''" sim ?cf simWorld ?df ?tf ?gf simRng] t t'
  have t'': "trainWorkDone sim ?tf simWorld out" by blast
  from push_only_after_work [of "''generate-data''" sim ?cf simWorld ?df ?tf ?gf simRng] g
  have g': "generateWorkDone sim ?gf simRng simWorld (generate_main sim ?gf simRng simWorld)" by blast
  from c c' d d' t t' t'' g g' show ?thesis by blast
qed

lemma trainOptions_level:
  "trainOptions (f\<lparr>t_zstdLevel := z\<rparr>)
     = trainOptions (f\<lparr>t_zstdLevel := (if z \<le> 0 then 0 else if 4 \<le> z then 4 else z)\<rparr>)"
  by (simp add: trainOptions_def parseZstdLevel_def)

text \<open>
  With \<^verbatim>\<open>-zstd-level 9\<close> the trainer of the small instance trains a dictionary and exits
  with code 0.
\<close>

theorem zstd_level_unchecked_counterexample:
  "\<exists>out. train_main sim (simTrainFlags\<lparr>t_zstdLevel := 9\<rparr>) simWorld = Some out \<and>
         exitCode out = 0 \<and> EvBuildZstdDict \<in> set (trace out)"
proof -
  have "train_main sim (simTrainFlags\<lparr>t_zstdLevel := 9\<rparr>) simWorld \<noteq> None" by code_simp
  moreover have "exitCode (the (train_main sim (simTrainFlags\<lparr>t_zstdLevel := 9\<rparr>) simWorld)) = 0"
    by code_simp
  moreover have "EvBuildZstdDict \<in> set (trace (the (train_main sim (simTrainFlags\<lparr>t_zstdLevel := 9\<rparr>) simWorld)))"
    by code_simp
  ultimately show ?thesis by auto
qed

text \<open>
  C8, as the code has it. A non-positive \<^verbatim>\<open>-dict-size\<close>, \<^verbatim>\<open>-max-samples\<close> or
  \<^verbatim>\<open>-max-sample-bytes\<close> ends the run with exit code 1 and one line on standard error
  before anything else is done. \<^verbatim>\<open>-zstd-level\<close> is not checked: a run with a level of 0
  or less is the run with level 0 (the library's default), and a run with a level above
  4 is the run with level 4.
\<close>

theorem train_flag_checks:
  "(t_dictSize f \<le> 0 \<or> t_maxSamples f \<le> 0 \<or> t_maxSampleBytes f \<le> 0 \<longrightarrow>
      (\<exists>m. train_main X f w = Some \<lparr>exitCode = 1, trace = [EvStderr m], disk = w\<rparr>)) \<and>
   train_main X (f\<lparr>t_zstdLevel := z\<rparr>) w
     = train_main X (f\<lparr>t_zstdLevel := (if z \<le> 0 then 0 else if 4 \<le> z then 4 else z)\<rparr>) w"
proof
  show "t_dictSize f \<le> 0 \<or> t_maxSamples f \<le> 0 \<or> t_maxSampleBytes f \<le> 0 \<longrightarrow>
      (\<exists>m. train_main X f w = Some \<lparr>exitCode = 1, trace = [EvStderr m], disk = w\<rparr>)"
    by (auto simp: train_main_def)
next
  show "train_main X (f\<lparr>t_zstdLevel := z\<rparr>) w
     = train_main X (f\<lparr>t_zstdLevel := (if z \<le> 0 then 0 else if 4 \<le> z then 4 else z)\<rparr>) w"
    unfolding train_main_def trainOptions_level [where f = f and z = z]
    by (simp cong: sum.case_cong option.case_cong prod.case_cong if_cong)
qed

theorem train_flag_checks_witness:
  "(t_dictSize (simTrainFlags\<lparr>t_dictSize := 0\<rparr>) \<le> 0 \<or> t_maxSamples (simTrainFlags\<lparr>t_dictSize := 0\<rparr>) \<le> 0
      \<or> t_maxSampleBytes (simTrainFlags\<lparr>t_dictSize := 0\<rparr>) \<le> 0) \<and>
   (\<exists>m. train_main sim (simTrainFlags\<lparr>t_dictSize := 0\<rparr>) simWorld
           = Some \<lparr>exitCode = 1, trace = [EvStderr m], disk = simWorld\<rparr>) \<and>
   train_main sim (simTrainFlags\<lparr>t_dictSize := 0, t_zstdLevel := 9\<rparr>) simWorld
     = train_main sim (simTrainFlags\<lparr>t_dictSize := 0, t_zstdLevel := 4\<rparr>) simWorld"
proof -
  let ?f = "simTrainFlags\<lparr>t_dictSize := 0\<rparr>"
  have h: "t_dictSize ?f \<le> 0 \<or> t_maxSamples ?f \<le> 0 \<or> t_maxSampleBytes ?f \<le> 0"
    by simp
  from train_flag_checks [where f = ?f and X = sim and w = simWorld and z = 9] h
  show ?thesis by simp
qed

section \<open>Listing the files\<close>

lemma listFilesFn_dir [simp]:
  "listFilesFn path (Some (DirEntry rerr ents)) None paths = (None, paths)"
  by (simp add: listFilesFn_def)

lemma listFilesFn_err [simp]:
  "listFilesFn path d (Some e) paths = (Some e, paths)"
  by (simp add: listFilesFn_def)

lemma listFilesFn_file [simp]:
  "listFilesFn path (Some (FileEntry m (Inr sz))) None paths
     = (None, if sz = 0 then paths else paths @ [path])"
  by (simp add: listFilesFn_def)

lemma walk_readable:
  "fn = listFilesFn \<Longrightarrow> treeReadable t \<Longrightarrow>
     walkDir join fn path t acc = (None, acc @ nonEmptyFiles join path t)"
  and walkEntries_readable:
  "fn = listFilesFn \<Longrightarrow> entriesReadable ents \<Longrightarrow>
     walkEntries join fn path ents acc
       = (None, acc @ map fst (filter (\<lambda>(p, m, sz). sz \<noteq> 0) (treeFilesIn join path ents)))"
proof (induction join fn path t acc and join fn path ents acc rule: walkDir_walkEntries.induct)
  case (1 join fn path m info s)
  then show ?case by (cases info) (simp_all add: nonEmptyFiles_def)
next
  case (2 join fn path rerr ents s)
  then show ?case by (simp add: nonEmptyFiles_def)
next
  case (3 join fn path s)
  then show ?case by simp
next
  case (4 join fn path name d1 rest s)
  then show ?case by (simp add: nonEmptyFiles_def)
qed

lemma listFiles_readable:
  assumes "Lstat X w dir = Inr t" and "treeReadable t"
  shows "listFiles X w dir = Inr (sort (nonEmptyFiles (Join X) dir t))"
  using assms walk_readable [of listFilesFn t "Join X" dir "[]"]
  by (simp add: listFiles_def filepath_WalkDir_def)

lemma listFiles_lstat_error:
  assumes "Lstat X w dir = Inl e" and "e \<noteq> SkipDir" and "e \<noteq> SkipAll"
  shows "listFiles X w dir = Inl e"
  using assms by (simp add: listFiles_def filepath_WalkDir_def)

lemma listFiles_readdir_error:
  assumes "Lstat X w dir = Inr (DirEntry (Some e) ents)" and "e \<noteq> SkipDir" and "e \<noteq> SkipAll"
  shows "listFiles X w dir = Inl e"
  using assms by (simp add: listFiles_def filepath_WalkDir_def)

lemma compress_main_no_files:
  assumes "os_MkdirAll (c_outDir f) w = Inr w1" and "listFiles X w1 (c_inputDir f) = Inr []"
    and "\<not> (c_useDict f \<and> TrimSpace X (c_dictPath f) = [])"
  shows "compress_main X f w =
           \<lparr>exitCode = 1,
            trace = [EvMkdirAll (c_outDir f), EvListFiles (c_inputDir f),
                     EvStderr (''no files found in '' @ c_inputDir f)],
            disk = w1\<rparr>"
  using assms by (simp add: compress_main_def)

lemma decompress_main_no_files:
  assumes "os_MkdirAll (d_outDir f) w = Inr w1" and "listFiles X w1 (d_inputDir f) = Inr []"
    and "\<not> (d_useDict f \<and> TrimSpace X (d_dictPath f) = [])"
  shows "decompress_main X f w =
           \<lparr>exitCode = 1,
            trace = [EvMkdirAll (d_outDir f), EvListFiles (d_inputDir f),
                     EvStderr (''no files found in '' @ d_inputDir f)],
            disk = w1\<rparr>"
  using assms by (simp add: decompress_main_def)

text \<open>
  In the directory \<^verbatim>\<open>links\<close> of the small instance there is one entry, a symbolic
  link. \<^verbatim>\<open>listFiles\<close> returns its path; no regular file is there.
\<close>

theorem listFiles_regular_counterexample:
  "Lstat sim simWorld ''links'' = Inr (DirEntry None [(''latest'', FileEntry ModeSymlink (Inr 5))]) \<and>
   listFiles sim simWorld ''links'' = Inr [''links/latest''] \<and>
   sort (regularNonEmptyFiles (Join sim) ''links''
           (DirEntry None [(''latest'', FileEntry ModeSymlink (Inr 5))])) = []"
  by code_simp

text \<open>
  C5, as the code has it. \<^verbatim>\<open>listFiles\<close> fails with the error of \<^verbatim>\<open>os.Lstat\<close> on the
  root, or of \<^verbatim>\<open>os.ReadDir\<close> on it. On a readable tree it returns, sorted, exactly the
  paths of the entries that are not directories and whose size is not 0, whatever their
  type; so for a tree that holds only entries of size 0 it returns the empty list. When
  the list is empty the compressor and the decompressor exit with code 1 and the message
  that no files were found.
\<close>

theorem listFiles_sorted_nonempty_entries:
  "(Lstat X w dir = Inl e \<and> e \<noteq> SkipDir \<and> e \<noteq> SkipAll \<longrightarrow> listFiles X w dir = Inl e) \<and>
   (Lstat X w dir = Inr (DirEntry (Some e) ents) \<and> e \<noteq> SkipDir \<and> e \<noteq> SkipAll \<longrightarrow>
      listFiles X w dir = Inl e) \<and>
   (Lstat X w dir = Inr t \<and> treeReadable t \<longrightarrow>
      listFiles X w dir = Inr (sort (nonEmptyFiles (Join X) dir t)) \<and>
      (list_all (\<lambda>(p, m, sz). sz = 0) (treeFiles (Join X) dir t) \<longrightarrow> listFiles X w dir = Inr [])) \<and>
   (os_MkdirAll (c_outDir cf) w = Inr w1 \<and> listFiles X w1 (c_inputDir cf) = Inr [] \<and>
    \<not> (c_useDict cf \<and> TrimSpace X (c_dictPath cf) = []) \<longrightarrow>
      compress_main X cf w =
        \<lparr>exitCode = 1,
         trace = [EvMkdirAll (c_outDir cf), EvListFiles (c_inputDir cf),
                  EvStderr (''no files found in '' @ c_inputDir cf)],
         disk = w1\<rparr>) \<and>
   (os_MkdirAll (d_outDir df) w = Inr w1' \<and> listFiles X w1' (d_inputDir df) = Inr [] \<and>
    \<not> (d_useDict df \<and> TrimSpace X (d_dictPath df) = []) \<longrightarrow>
      decompress_main X df w =
        \<lparr>exitCode = 1,
         trace = [EvMkdirAll (d_outDir df), EvListFiles (d_inputDir df),
                  EvStderr (''no files found in '' @ d_inputDir df)],
         disk = w1'\<rparr>)"
proof (intro conjI impI)
  assume "Lstat X w dir = Inl e \<and> e \<noteq> SkipDir \<and> e \<noteq> SkipAll"
  then show "listFiles X w dir = Inl e" using listFiles_lstat_error by blast
next
  assume "Lstat X w dir = Inr (DirEntry (Some e) ents) \<and> e \<noteq> SkipDir \<and> e \<noteq> SkipAll"
  then show "listFiles X w dir = Inl e" using listFiles_readdir_error by blast
next
  assume "Lstat X w dir = Inr t \<and> treeReadable t"
  then show "listFiles X w dir = Inr (sort (nonEmptyFiles (Join X) dir t))"
    using listFiles_readable by blast
next
  assume a: "Lstat X w dir = Inr t \<and> treeReadable t"
    and b: "list_all (\<lambda>(p, m, sz). sz = 0) (treeFiles (Join X) dir t)"
  from b have "filter (\<lambda>(p, m, sz). sz \<noteq> 0) (treeFiles (Join X) dir t) = []"
    by (auto simp: list_all_iff filter_empty_conv)
  then have "nonEmptyFiles (Join X) dir t = []" by (simp add: nonEmptyFiles_def)
  with a show "listFiles X w dir = Inr []" using listFiles_readable [of X w dir t] by simp
next
  assume "os_MkdirAll (c_outDir cf) w = Inr w1 \<and> listFiles X w1 (c_inputDir cf) = Inr [] \<and>
    \<not> (c_useDict cf \<and> TrimSpace X (c_dictPath cf) = [])"
  then show "compress_main X cf w =
        \<lparr>exitCode = 1,
         trace = [EvMkdirAll (c_outDir cf), EvListFiles (c_inputDir cf),
                  EvStderr (''no files found in '' @ c_inputDir cf)],
         disk = w1\<rparr>"
    using compress_main_no_files by blast
next
  assume "os_MkdirAll (d_outDir df) w = Inr w1' \<and> listFiles X w1' (d_inputDir df) = Inr [] \<and>
    \<not> (d_useDict df \<and> TrimSpace X (d_dictPath df) = [])"
  then show "decompress_main X df w =
        \<lparr>exitCode = 1,
         trace = [EvMkdirAll (d_outDir df), EvListFiles (d_inputDir df),
                  EvStderr (''no files found in '' @ d_inputDir df)],
         disk = w1'\<rparr>"
    using decompress_main_no_files by blast
qed

theorem listFiles_sorted_nonempty_entries_witness:
  "Lstat sim simWorld ''nowhere'' = Inl (OSError ''lstat'' ''nowhere'') \<and>
   OSError ''lstat'' ''nowhere'' \<noteq> SkipDir \<and> OSError ''lstat'' ''nowhere'' \<noteq> SkipAll \<and>
   listFiles sim simWorld ''nowhere'' = Inl (OSError ''lstat'' ''nowhere'') \<and>
   Lstat sim simWorld ''locked'' = Inr (DirEntry (Some (OSError ''readdir'' ''locked'')) []) \<and>
   listFiles sim simWorld ''locked'' = Inl (OSError ''readdir'' ''locked'') \<and>
   Lstat sim simWorld ''blank''
     = Inr (DirEntry None [(''e1'', FileEntry ModeRegular (Inr 0)),
                           (''sub'', DirEntry None [(''e2'', FileEntry ModeRegular (Inr 0))])]) \<and>
   treeReadable (DirEntry None [(''e1'', FileEntry ModeRegular (Inr 0)),
                           (''sub'', DirEntry None [(''e2'', FileEntry ModeRegular (Inr 0))])]) \<and>
   list_all (\<lambda>(p, m, sz). sz = 0)
     (treeFiles (Join sim) ''blank''
        (DirEntry None [(''e1'', FileEntry ModeRegular (Inr 0)),
                        (''sub'', DirEntry None [(''e2'', FileEntry ModeRegular (Inr 0))])])) \<and>
   listFiles sim simWorld ''blank'' = Inr [] \<and>
   os_MkdirAll ''out'' simWorld = Inr (simWorld\<lparr>dirs := insert ''out'' (dirs simWorld)\<rparr>) \<and>
   listFiles sim (simWorld\<lparr>dirs := insert ''out'' (dirs simWorld)\<rparr>) ''blank'' = Inr [] \<and>
   compress_main sim (simCompressFlags\<lparr>c_inputDir := ''blank''\<rparr>) simWorld =
     \<lparr>exitCode = 1,
      trace = [EvMkdirAll ''out'', EvListFiles ''blank'', EvStderr ''no files found in blank''],
      disk = simWorld\<lparr>dirs := insert ''out'' (dirs simWorld)\<rparr>\<rparr> \<and>
   os_MkdirAll ''plain'' simWorld = Inr (simWorld\<lparr>dirs := insert ''plain'' (dirs simWorld)\<rparr>) \<and>
   listFiles sim (simWorld\<lparr>dirs := insert ''plain'' (dirs simWorld)\<rparr>) ''blank'' = Inr [] \<and>
   decompress_main sim (simDecompressFlags\<lparr>d_inputDir := ''blank''\<rparr>) simWorld =
     \<lparr>exitCode = 1,
      trace = [EvMkdirAll ''plain'', EvListFiles ''blank'', EvStderr ''no files found in blank''],
      disk = simWorld\<lparr>dirs := insert ''plain'' (dirs simWorld)\<rparr>\<rparr>"
proof -
  let ?tb = "DirEntry None [(''e1'', FileEntry ModeRegular (Inr 0)),
                           (''sub'', DirEntry None [(''e2'', FileEntry ModeRegular (Inr 0))])]"
  let ?cf = "simCompressFlags\<lparr>c_inputDir := ''blank''\<rparr>"
  let ?df = "simDecompressFlags\<lparr>d_inputDir := ''blank''\<rparr>"
  let ?w1 = "simWorld\<lparr>dirs := insert ''out'' (dirs simWorld)\<rparr>"
  let ?w2 = "simWorld\<lparr>dirs := insert ''plain'' (dirs simWorld)\<rparr>"
  have a1: "Lstat sim simWorld ''nowhere'' = Inl (OSError ''lstat'' ''nowhere'')"
    by (simp add: sim_def simTree_def)
  have a2: "Lstat sim simWorld ''locked'' = Inr (DirEntry (Some (OSError ''readdir'' ''locked'')) [])"
    by (simp add: sim_def simTree_def)
  have a3: "Lstat sim simWorld ''blank'' = Inr ?tb"
    by (simp add: sim_def simTree_def)
  have a4: "treeReadable ?tb" by simp
  have a5: "list_all (\<lambda>(p, m, sz). sz = 0) (treeFiles (Join sim) ''blank'' ?tb)" by simp
  have c1: "os_MkdirAll (c_outDir ?cf) simWorld = Inr ?w1"
    by (simp add: os_MkdirAll_def simCompressFlags_def simWorld_def)
  have c2: "listFiles sim ?w1 (c_inputDir ?cf) = Inr []" by code_simp
  have c3: "\<not> (c_useDict ?cf \<and> TrimSpace sim (c_dictPath ?cf) = [])"
    by (simp add: simCompressFlags_def)
  have d1: "os_MkdirAll (d_outDir ?df) simWorld = Inr ?w2"
    by (simp add: os_MkdirAll_def simDecompressFlags_def simWorld_def)
  have d2: "listFiles sim ?w2 (d_inputDir ?df) = Inr []" by code_simp
  have d3: "\<not> (d_useDict ?df \<and> TrimSpace sim (d_dictPath ?df) = [])"
    by (simp add: simDecompressFlags_def)
  note thm1 = listFiles_sorted_nonempty_entries
    [where X = sim and w = simWorld and dir = "''nowhere''" and e = "OSError ''lstat'' ''nowhere''"]
  note thm2 = listFiles_sorted_nonempty_entries
    [where X = sim and w = simWorld and dir = "''locked''" and e = "OSError ''readdir'' ''locked''"
       and ents = "[]"]
  note thm3 = listFiles_sorted_nonempty_entries
    [where X = sim and w = simWorld and dir = "''blank''" and t = ?tb and cf = ?cf and ?w1.0 = ?w1
       and df = ?df and w1' = ?w2]
  have r1: "listFiles sim simWorld ''nowhere'' = Inl (OSError ''lstat'' ''nowhere'')"
    using thm1 a1 by blast
  have r2: "listFiles sim simWorld ''locked'' = Inl (OSError ''readdir'' ''locked'')"
    using thm2 a2 by blast
  have r3: "listFiles sim simWorld ''blank'' = Inr []"
    using thm3 a3 a4 a5 by blast
  have r4: "compress_main sim ?cf simWorld =
     \<lparr>exitCode = 1,
      trace = [EvMkdirAll (c_outDir ?cf), EvListFiles (c_inputDir ?cf),
               EvStderr (''no files found in '' @ c_inputDir ?cf)],
      disk = ?w1\<rparr>"
    using thm3 c1 c2 c3 by blast
  have r5: "decompress_main sim ?df simWorld =
     \<lparr>exitCode = 1,
      trace = [EvMkdirAll (d_outDir ?df), EvListFiles (d_inputDir ?df),
               EvStderr (''no files found in '' @ d_inputDir ?df)],
      disk = ?w2\<rparr>"
    using thm3 d1 d2 d3 by blast
  from a1 a2 a3 a4 a5 r1 r2 r3 c1 c2 r4 d1 d2 r5
  show ?thesis by (simp add: simCompressFlags_def simDecompressFlags_def)
qed

section \<open>Compressing and decompressing\<close>

lemma decompressOutRel_suffix:
  assumes "suffix ''.zst'' rel"
  shows "decompressOutRel rel = take (length rel - 4) rel" and "decompressOutRel rel @ ''.zst'' = rel"
proof -
  from assms obtain pre where rel: "rel = pre @ ''.zst''" by (auto simp: suffix_def)
  then have t: "strings_TrimSuffix rel ''.zst'' = pre"
    using assms by (simp add: strings_TrimSuffix_def)
  have "pre \<noteq> rel" using rel by simp
  with t have "decompressOutRel rel = pre" by (simp add: decompressOutRel_def Let_def)
  then show "decompressOutRel rel = take (length rel - 4) rel" "decompressOutRel rel @ ''.zst'' = rel"
    using rel by simp_all
qed

lemma decompressOutRel_no_suffix:
  assumes "\<not> suffix ''.zst'' rel"
  shows "decompressOutRel rel = rel @ ''.out''"
  using assms by (simp add: decompressOutRel_def strings_TrimSuffix_def)

lemma decompressOutRel_out_iff:
  "decompressOutRel rel = rel @ ''.out'' \<longleftrightarrow> \<not> suffix ''.zst'' rel"
proof
  assume a: "decompressOutRel rel = rel @ ''.out''"
  show "\<not> suffix ''.zst'' rel"
  proof
    assume "suffix ''.zst'' rel"
    from decompressOutRel_suffix(1) [OF this] a
    have "length (take (length rel - 4) rel) = length (rel @ ''.out'')" by simp
    then show False by simp
  qed
qed (rule decompressOutRel_no_suffix)

lemma decompressFiles_single:
  assumes "Rel X baseDir path = Inr rel"
    and "NewReader X (decompressOptions dictBytes) = None"
    and "os_MkdirAll (Dir X (Join X outDir (decompressOutRel rel))) w = Inr w1"
    and "os_Open path w1 = Inr inFile"
    and "os_Create X (Join X outDir (decompressOutRel rel)) w1 = Inr w2"
    and "decodeCopy X (decompressOptions dictBytes) (Join X outDir (decompressOutRel rel)) inFile w2
           = (written, None, w3)"
    and "os_Stat path w3 = Inr sz"
  shows "decompressFiles X [path] baseDir outDir dictBytes w
           = (\<lparr>FilesProcessed = 1, InputBytes = sz, OutputBytes = written\<rparr>, None, w3)"
  using assms by (simp add: decompressFiles_def Let_def)

text \<open>
  C6. The output path of a file is the output directory joined with its path relative
  to the input directory, with the suffix \<^verbatim>\<open>.zst\<close> stripped when the relative path ends
  in it and with \<^verbatim>\<open>.out\<close> appended exactly when it does not. A missing suffix is no
  error: when the steps on the file succeed, \<^verbatim>\<open>decompressFiles\<close> returns none and has
  written the file named with \<^verbatim>\<open>.out\<close>.
\<close>

theorem decompress_output_path:
  "(suffix ''.zst'' rel \<longrightarrow>
      decompressOutRel rel = take (length rel - 4) rel \<and> decompressOutRel rel @ ''.zst'' = rel) \<and>
   (decompressOutRel rel = rel @ ''.out'' \<longleftrightarrow> \<not> suffix ''.zst'' rel) \<and>
   (Rel X baseDir path = Inr rel \<and> \<not> suffix ''.zst'' rel \<and>
    NewReader X (decompressOptions dictBytes) = None \<and>
    os_MkdirAll (Dir X (Join X outDir (rel @ ''.out''))) w = Inr w1 \<and>
    os_Open path w1 = Inr inFile \<and>
    os_Create X (Join X outDir (rel @ ''.out'')) w1 = Inr w2 \<and>
    decodeCopy X (decompressOptions dictBytes) (Join X outDir (rel @ ''.out'')) inFile w2
      = (written, None, w3) \<and>
    os_Stat path w3 = Inr sz \<longrightarrow>
      decompressFiles X [path] baseDir outDir dictBytes w
        = (\<lparr>FilesProcessed = 1, InputBytes = sz, OutputBytes = written\<rparr>, None, w3))"
proof (intro conjI impI)
  assume "suffix ''.zst'' rel"
  then show "decompressOutRel rel = take (length rel - 4) rel" "decompressOutRel rel @ ''.zst'' = rel"
    by (rule decompressOutRel_suffix)+
next
  show "decompressOutRel rel = rel @ ''.out'' \<longleftrightarrow> \<not> suffix ''.zst'' rel"
    by (rule decompressOutRel_out_iff)
next
  assume a: "Rel X baseDir path = Inr rel \<and> \<not> suffix ''.zst'' rel \<and>
    NewReader X (decompressOptions dictBytes) = None \<and>
    os_MkdirAll (Dir X (Join X outDir (rel @ ''.out''))) w = Inr w1 \<and>
    os_Open path w1 = Inr inFile \<and>
    os_Create X (Join X outDir (rel @ ''.out'')) w1 = Inr w2 \<and>
    decodeCopy X (decompressOptions dictBytes) (Join X outDir (rel @ ''.out'')) inFile w2
      = (written, None, w3) \<and>
    os_Stat path w3 = Inr sz"
  then have "decompressOutRel rel = rel @ ''.out''" using decompressOutRel_no_suffix by blast
  with a show "decompressFiles X [path] baseDir outDir dictBytes w
        = (\<lparr>FilesProcessed = 1, InputBytes = sz, OutputBytes = written\<rparr>, None, w3)"
    using decompressFiles_single [of X baseDir path rel dictBytes outDir w w1 inFile w2 written w3 sz]
    by simp
qed

theorem decompress_output_path_witness:
  "suffix ''.zst'' ''a.txt.zst'' \<and> decompressOutRel ''a.txt.zst'' = ''a.txt'' \<and>
   \<not> suffix ''.zst'' ''notes'' \<and> decompressOutRel ''notes'' = ''notes.out'' \<and>
   (\<exists>w1 inFile w2 written w3 sz.
      Rel sim ''packed'' ''packed/notes'' = Inr ''notes'' \<and>
      NewReader sim (decompressOptions []) = None \<and>
      os_MkdirAll (Dir sim (Join sim ''plain'' (''notes'' @ ''.out''))) simWorld = Inr w1 \<and>
      os_Open ''packed/notes'' w1 = Inr inFile \<and>
      os_Create sim (Join sim ''plain'' (''notes'' @ ''.out'')) w1 = Inr w2 \<and>
      decodeCopy sim (decompressOptions []) (Join sim ''plain'' (''notes'' @ ''.out'')) inFile w2
        = (written, None, w3) \<and>
      os_Stat ''packed/notes'' w3 = Inr sz \<and>
      decompressFiles sim [''packed/notes''] ''packed'' ''plain'' [] simWorld
        = (\<lparr>FilesProcessed = 1, InputBytes = sz, OutputBytes = written\<rparr>, None, w3) \<and>
      files w3 ''plain/notes.out'' = Some ''hi'')"
proof -
  have s1: "suffix ''.zst'' ''a.txt.zst''" by (simp add: suffix_def)
  have s2: "\<not> suffix ''.zst'' ''notes''" by code_simp
  note thm1 = decompress_output_path [where rel = "''a.txt.zst''"]
  from thm1 s1 have r1: "decompressOutRel ''a.txt.zst'' = ''a.txt''" by simp
  define w1 where "w1 = simWorld\<lparr>dirs := insert ''plain'' (dirs simWorld)\<rparr>"
  define w2 where "w2 = w1\<lparr>files := (files w1)(''plain/notes.out'' \<mapsto> [])\<rparr>"
  define w3 where "w3 = w2\<lparr>files := (files w2)(''plain/notes.out'' \<mapsto> ''hi'')\<rparr>"
  have h1: "Rel sim ''packed'' ''packed/notes'' = Inr ''notes''" by code_simp
  have h2: "NewReader sim (decompressOptions []) = None" by (simp add: sim_def)
  have p: "Join sim ''plain'' (''notes'' @ ''.out'') = ''plain/notes.out''"
    by (simp add: sim_def simJoin_def)
  have dp: "Dir sim ''plain/notes.out'' = ''plain''"
    by (simp add: sim_def simDir_def)
  have h3: "os_MkdirAll (Dir sim (Join sim ''plain'' (''notes'' @ ''.out''))) simWorld = Inr w1"
    unfolding p dp by (simp add: os_MkdirAll_def simWorld_def w1_def)
  have h4: "os_Open ''packed/notes'' w1 = Inr ''packed/notes''"
    by (simp add: os_Open_def w1_def simWorld_def)
  have h5: "os_Create sim (Join sim ''plain'' (''notes'' @ ''.out'')) w1 = Inr w2"
    unfolding p by (simp add: os_Create_def dp w1_def w2_def simWorld_def)
  have h6: "decodeCopy sim (decompressOptions []) (Join sim ''plain'' (''notes'' @ ''.out''))
              ''packed/notes'' w2 = (2, None, w3)"
    unfolding p
    by (simp add: decodeCopy_def decompressOptions_def sim_def simDecode_def contents_def
          os_Write_def w3_def w2_def w1_def simWorld_def)
  have h7: "os_Stat ''packed/notes'' w3 = Inr 3"
    by (simp add: os_Stat_def w3_def w2_def w1_def simWorld_def)
  have h8: "files w3 ''plain/notes.out'' = Some ''hi''" by (simp add: w3_def)
  note thm2 = decompress_output_path [where rel = "''notes''" and X = sim and baseDir = "''packed''"
      and path = "''packed/notes''" and dictBytes = "[]" and outDir = "''plain''" and w = simWorld
      and ?w1.0 = w1 and inFile = "''packed/notes''" and ?w2.0 = w2 and written = 2 and ?w3.0 = w3
      and sz = 3]
  from thm2 s2 have r2: "decompressOutRel ''notes'' = ''notes.out''" by simp
  from thm2 s2 h1 h2 h3 h4 h5 h6 h7
  have r3: "decompressFiles sim [''packed/notes''] ''packed'' ''plain'' [] simWorld
        = (\<lparr>FilesProcessed = 1, InputBytes = 3, OutputBytes = 2\<rparr>, None, w3)"
    by blast
  from s1 r1 s2 r2 h1 h2 h3 h4 h5 h6 h7 r3 h8 show ?thesis by blast
qed

lemma compress_step:
  assumes "compressLoop X opts (p # ps) baseDir outDir stats w = (stats', None, w')"
  shows "\<exists>rel c w3 stats3.
           Rel X baseDir p = Inr rel \<and> files w p = Some c \<and>
           files w3 = (files w)(Join X outDir rel @ ''.zst'' \<mapsto>
                         Encode X opts (if Join X outDir rel @ ''.zst'' = p then [] else c)) \<and>
           compressLoop X opts ps baseDir outDir stats3 w3 = (stats', None, w')"
proof -
  obtain rel where rel: "Rel X baseDir p = Inr rel"
    using assms by (cases "Rel X baseDir p") auto
  define out where "out = Join X outDir rel @ ''.zst''"
  obtain w1 where mk: "os_MkdirAll (Dir X out) w = Inr w1"
    using assms rel by (cases "os_MkdirAll (Dir X out) w") (auto simp: Let_def out_def)
  then have f1: "files w1 = files w" by (auto simp: os_MkdirAll_def split: if_splits)
  obtain inFile where op: "os_Open p w1 = Inr inFile"
    using assms rel mk by (cases "os_Open p w1") (auto simp: Let_def out_def)
  then obtain c where c: "files w p = Some c" and inFile: "inFile = p"
    using f1 by (auto simp: os_Open_def split: option.splits)
  obtain w2 where cr: "os_Create X out w1 = Inr w2"
    using assms rel mk op by (cases "os_Create X out w1") (auto simp: Let_def out_def)
  then have f2: "files w2 = (files w)(out \<mapsto> [])" and cap2: "capacity w2 = capacity w1"
    using f1 by (auto simp: os_Create_def split: if_splits)
  obtain written err w3 where ec: "encodeCopy X opts out inFile w2 = (written, err, w3)"
    by (cases "encodeCopy X opts out inFile w2") auto
  have err: "err = None"
    using assms rel mk op cr ec by (cases err) (auto simp: Let_def out_def)
  have con: "contents w2 p = (if out = p then [] else c)"
    using f2 c by (simp add: contents_def)
  have f3: "files w3 = (files w)(out \<mapsto> Encode X opts (if out = p then [] else c))"
    using ec err f2 con inFile
    by (auto simp: encodeCopy_def Let_def os_Write_def split: sum.splits option.splits if_splits)
  obtain sz where st: "os_Stat out w3 = Inr sz"
    using assms rel mk op cr ec err by (cases "os_Stat out w3") (auto simp: Let_def out_def)
  have "compressLoop X opts ps baseDir outDir
          (stats\<lparr>FilesProcessed := FilesProcessed stats + 1,
                  InputBytes := InputBytes stats + written,
                  OutputBytes := OutputBytes stats + sz\<rparr>) w3 = (stats', None, w')"
    using assms rel mk op cr ec err st by (simp add: Let_def out_def)
  with rel c f3 show ?thesis unfolding out_def by blast
qed

lemma compressLoop_files:
  assumes "compressLoop X opts paths baseDir outDir stats w = (stats', None, w')"
    and "separateOutputs (compressOutPath X baseDir outDir) paths"
  shows "(\<forall>x. (\<forall>q\<in>set paths. compressOutPath X baseDir outDir q \<noteq> Some x) \<longrightarrow> files w' x = files w x) \<and>
         (\<forall>p\<in>set paths. \<exists>out c. compressOutPath X baseDir outDir p = Some out \<and>
              files w p = Some c \<and> files w' out = Some (Encode X opts c))"
  using assms
proof (induction paths arbitrary: stats w)
  case Nil
  then show ?case by simp
next
  case (Cons p ps)
  let ?o = "compressOutPath X baseDir outDir"
  from compress_step [OF Cons.prems(1)]
  obtain rel c w3 stats3 where rel: "Rel X baseDir p = Inr rel" and c: "files w p = Some c"
    and f3: "files w3 = (files w)(Join X outDir rel @ ''.zst'' \<mapsto>
                         Encode X opts (if Join X outDir rel @ ''.zst'' = p then [] else c))"
    and rest: "compressLoop X opts ps baseDir outDir stats3 w3 = (stats', None, w')"
    by (elim exE conjE)
  define out where "out = Join X outDir rel @ ''.zst''"
  have op: "?o p = Some out" using rel by (simp add: compressOutPath_def out_def)
  from Cons.prems(2) have notin: "\<And>q x. q \<in> set (p # ps) \<Longrightarrow> ?o q = Some x \<Longrightarrow> x \<notin> set (p # ps)"
    and inj: "inj_on ?o (set (p # ps))"
    unfolding separateOutputs_def by blast+
  from notin [of p out] op have out_notin: "out \<notin> set (p # ps)" by simp
  then have "out \<noteq> p" by auto
  with f3 have f3': "files w3 = (files w)(out \<mapsto> Encode X opts c)" by (simp add: out_def)
  have inj': "inj_on ?o (set ps)" using inj by (rule inj_on_subset) auto
  have sep: "separateOutputs ?o ps"
    unfolding separateOutputs_def
  proof (intro conjI ballI allI impI)
    fix q x assume "q \<in> set ps" "?o q = Some x"
    then have "x \<notin> set (p # ps)" using notin [of q x] by simp
    then show "x \<notin> set ps" by simp
  qed (rule inj')
  note ih = Cons.IH [OF rest sep]
  have frame: "files w' x = files w3 x" if "\<forall>q\<in>set ps. ?o q \<noteq> Some x" for x
    using ih [THEN conjunct1] that by simp
  have written: "\<exists>out c. ?o q = Some out \<and> files w3 q = Some c \<and> files w' out = Some (Encode X opts c)"
    if "q \<in> set ps" for q
    using ih [THEN conjunct2] that by simp
  have A: "files w' x = files w x" if a: "\<forall>q\<in>set (p # ps). ?o q \<noteq> Some x" for x
  proof -
    from a have "?o p \<noteq> Some x" by simp
    then have "x \<noteq> out" using op by auto
    moreover from a have "\<forall>q\<in>set ps. ?o q \<noteq> Some x" by simp
    then have "files w' x = files w3 x" by (rule frame)
    ultimately show ?thesis using f3' by simp
  qed
  have B: "\<exists>out c. ?o q = Some out \<and> files w q = Some c \<and> files w' out = Some (Encode X opts c)"
    if q: "q \<in> set (p # ps)" for q
  proof (cases "q \<in> set ps")
    case True
    from written [OF True] obtain oq cq where oq: "?o q = Some oq" "files w3 q = Some cq"
      "files w' oq = Some (Encode X opts cq)"
      by (elim exE conjE)
    have "q \<noteq> out" using out_notin q by auto
    with oq(2) f3' have "files w q = Some cq" by simp
    with oq(1) oq(3) show ?thesis by (intro exI conjI)
  next
    case False
    with q have qp: "q = p" by simp
    have "\<forall>r\<in>set ps. ?o r \<noteq> Some out"
    proof
      fix r assume r: "r \<in> set ps"
      show "?o r \<noteq> Some out"
      proof
        assume "?o r = Some out"
        with op have "?o r = ?o p" by simp
        with inj r have "r = p" by (simp add: inj_on_def)
        with r False qp show False by simp
      qed
    qed
    then have "files w' out = files w3 out" by (rule frame)
    with f3' have "files w' out = Some (Encode X opts c)" by simp
    with op c show ?thesis unfolding qp by (intro exI conjI)
  qed
  show ?case
  proof (intro conjI allI impI ballI)
    fix x assume "\<forall>q\<in>set (p # ps). ?o q \<noteq> Some x"
    then show "files w' x = files w x" by (rule A)
  next
    fix q assume "q \<in> set (p # ps)"
    then show "\<exists>out c. ?o q = Some out \<and> files w q = Some c \<and> files w' out = Some (Encode X opts c)"
      by (rule B)
  qed
qed

lemma decompress_step:
  assumes "decompressLoop X opts (p # ps) baseDir outDir stats w = (stats', None, w')"
  shows "\<exists>rel c w3 stats3.
           Rel X baseDir p = Inr rel \<and> files w p = Some c \<and>
           files w3 = (files w)(Join X outDir (decompressOutRel rel) \<mapsto>
                         fst (Decode X opts (if Join X outDir (decompressOutRel rel) = p then [] else c))) \<and>
           decompressLoop X opts ps baseDir outDir stats3 w3 = (stats', None, w')"
proof -
  obtain rel where rel: "Rel X baseDir p = Inr rel"
    using assms by (cases "Rel X baseDir p") auto
  define out where "out = Join X outDir (decompressOutRel rel)"
  obtain w1 where mk: "os_MkdirAll (Dir X out) w = Inr w1"
    using assms rel by (cases "os_MkdirAll (Dir X out) w") (auto simp: Let_def out_def)
  then have f1: "files w1 = files w" by (auto simp: os_MkdirAll_def split: if_splits)
  obtain inFile where op: "os_Open p w1 = Inr inFile"
    using assms rel mk by (cases "os_Open p w1") (auto simp: Let_def out_def)
  then obtain c where c: "files w p = Some c" and inFile: "inFile = p"
    using f1 by (auto simp: os_Open_def split: option.splits)
  obtain w2 where cr: "os_Create X out w1 = Inr w2"
    using assms rel mk op by (cases "os_Create X out w1") (auto simp: Let_def out_def)
  then have f2: "files w2 = (files w)(out \<mapsto> [])" and cap2: "capacity w2 = capacity w1"
    using f1 by (auto simp: os_Create_def split: if_splits)
  obtain written err w3 where ec: "decodeCopy X opts out inFile w2 = (written, err, w3)"
    by (cases "decodeCopy X opts out inFile w2") auto
  have err: "err = None"
    using assms rel mk op cr ec by (cases err) (auto simp: Let_def out_def)
  have con: "contents w2 p = (if out = p then [] else c)"
    using f2 c by (simp add: contents_def)
  have f3: "files w3 = (files w)(out \<mapsto> fst (Decode X opts (if out = p then [] else c)))"
    using ec err f2 con inFile
    by (auto simp: decodeCopy_def Let_def os_Write_def split: sum.splits option.splits if_splits prod.splits)
  obtain sz where st: "os_Stat p w3 = Inr sz"
    using assms rel mk op cr ec err by (cases "os_Stat p w3") (auto simp: Let_def out_def)
  have "decompressLoop X opts ps baseDir outDir
          (stats\<lparr>FilesProcessed := FilesProcessed stats + 1,
                  InputBytes := InputBytes stats + sz,
                  OutputBytes := OutputBytes stats + written\<rparr>) w3 = (stats', None, w')"
    using assms rel mk op cr ec err st by (simp add: Let_def out_def)
  with rel c f3 show ?thesis unfolding out_def by blast
qed

lemma decompressLoop_files:
  assumes "decompressLoop X opts paths baseDir outDir stats w = (stats', None, w')"
    and "separateOutputs (decompressOutPath X baseDir outDir) paths"
  shows "(\<forall>x. (\<forall>q\<in>set paths. decompressOutPath X baseDir outDir q \<noteq> Some x) \<longrightarrow> files w' x = files w x) \<and>
         (\<forall>p\<in>set paths. \<exists>out c. decompressOutPath X baseDir outDir p = Some out \<and>
              files w p = Some c \<and> files w' out = Some (fst (Decode X opts c)))"
  using assms
proof (induction paths arbitrary: stats w)
  case Nil
  then show ?case by simp
next
  case (Cons p ps)
  let ?o = "decompressOutPath X baseDir outDir"
  from decompress_step [OF Cons.prems(1)]
  obtain rel c w3 stats3 where rel: "Rel X baseDir p = Inr rel" and c: "files w p = Some c"
    and f3: "files w3 = (files w)(Join X outDir (decompressOutRel rel) \<mapsto>
                         fst (Decode X opts (if Join X outDir (decompressOutRel rel) = p then [] else c)))"
    and rest: "decompressLoop X opts ps baseDir outDir stats3 w3 = (stats', None, w')"
    by (elim exE conjE)
  define out where "out = Join X outDir (decompressOutRel rel)"
  have op: "?o p = Some out" using rel by (simp add: decompressOutPath_def out_def)
  from Cons.prems(2) have notin: "\<And>q x. q \<in> set (p # ps) \<Longrightarrow> ?o q = Some x \<Longrightarrow> x \<notin> set (p # ps)"
    and inj: "inj_on ?o (set (p # ps))"
    unfolding separateOutputs_def by blast+
  from notin [of p out] op have out_notin: "out \<notin> set (p # ps)" by simp
  then have "out \<noteq> p" by auto
  with f3 have f3': "files w3 = (files w)(out \<mapsto> fst (Decode X opts c))" by (simp add: out_def)
  have inj': "inj_on ?o (set ps)" using inj by (rule inj_on_subset) auto
  have sep: "separateOutputs ?o ps"
    unfolding separateOutputs_def
  proof (intro conjI ballI allI impI)
    fix q x assume "q \<in> set ps" "?o q = Some x"
    then have "x \<notin> set (p # ps)" using notin [of q x] by simp
    then show "x \<notin> set ps" by simp
  qed (rule inj')
  note ih = Cons.IH [OF rest sep]
  have frame: "files w' x = files w3 x" if "\<forall>q\<in>set ps. ?o q \<noteq> Some x" for x
    using ih [THEN conjunct1] that by simp
  have written: "\<exists>out c. ?o q = Some out \<and> files w3 q = Some c \<and> files w' out = Some (fst (Decode X opts c))"
    if "q \<in> set ps" for q
    using ih [THEN conjunct2] that by simp
  have A: "files w' x = files w x" if a: "\<forall>q\<in>set (p # ps). ?o q \<noteq> Some x" for x
  proof -
    from a have "?o p \<noteq> Some x" by simp
    then have "x \<noteq> out" using op by auto
    moreover from a have "\<forall>q\<in>set ps. ?o q \<noteq> Some x" by simp
    then have "files w' x = files w3 x" by (rule frame)
    ultimately show ?thesis using f3' by simp
  qed
  have B: "\<exists>out c. ?o q = Some out \<and> files w q = Some c \<and> files w' out = Some (fst (Decode X opts c))"
    if q: "q \<in> set (p # ps)" for q
  proof (cases "q \<in> set ps")
    case True
    from written [OF True] obtain oq cq where oq: "?o q = Some oq" "files w3 q = Some cq"
      "files w' oq = Some (fst (Decode X opts cq))"
      by (elim exE conjE)
    have "q \<noteq> out" using out_notin q by auto
    with oq(2) f3' have "files w q = Some cq" by simp
    with oq(1) oq(3) show ?thesis by (intro exI conjI)
  next
    case False
    with q have qp: "q = p" by simp
    have "\<forall>r\<in>set ps. ?o r \<noteq> Some out"
    proof
      fix r assume r: "r \<in> set ps"
      show "?o r \<noteq> Some out"
      proof
        assume "?o r = Some out"
        with op have "?o r = ?o p" by simp
        with inj r have "r = p" by (simp add: inj_on_def)
        with r False qp show False by simp
      qed
    qed
    then have "files w' out = files w3 out" by (rule frame)
    with f3' have "files w' out = Some (fst (Decode X opts c))" by simp
    with op c show ?thesis unfolding qp by (intro exI conjI)
  qed
  show ?case
  proof (intro conjI allI impI ballI)
    fix x assume "\<forall>q\<in>set (p # ps). ?o q \<noteq> Some x"
    then show "files w' x = files w x" by (rule A)
  next
    fix q assume "q \<in> set (p # ps)"
    then show "\<exists>out c. ?o q = Some out \<and> files w q = Some c \<and> files w' out = Some (fst (Decode X opts c))"
      by (rule B)
  qed
qed


lemma encoderDict_compressOptions: "encoderDict (compressOptions X level d) = d"
  by (cases d) (simp_all add: compressOptions_def)

lemma decoderDict_decompressOptions: "decoderDict (decompressOptions d) = d"
  by (cases d) (simp_all add: decompressOptions_def)

lemma lossless_sim: "lossless sim level d"
  unfolding lossless_def
  by (simp add: sim_def simDecode_def simEncode_def encoderDict_compressOptions
        decoderDict_decompressOptions)


text \<open>
  A directory compressed into itself. The directory \<^verbatim>\<open>mix\<close> of the small instance holds
  the files \<^verbatim>\<open>a\<close> and \<^verbatim>\<open>a.zst\<close>. Compressing \<^verbatim>\<open>mix/a\<close> creates \<^verbatim>\<open>mix/a.zst\<close>, that
  is, truncates the second input before it is read. Both batch functions return no
  error, the codec is lossless, and the file decompressed from \<^verbatim>\<open>mix/a.zst.zst\<close> does
  not hold the bytes \<^verbatim>\<open>mix/a.zst\<close> had.
\<close>

theorem round_trip_counterexample:
  "lossless sim 0 [] \<and>
   fst (snd (compressFiles sim [''mix/a'', ''mix/a.zst''] ''mix'' ''mix'' 0 [] simWorld)) = None \<and>
   compressOutPath sim ''mix'' ''mix'' ''mix/a.zst'' = Some ''mix/a.zst.zst'' \<and>
   fst (snd (decompressFiles sim [''mix/a.zst'', ''mix/a.zst.zst''] ''mix'' ''plain'' []
               (snd (snd (compressFiles sim [''mix/a'', ''mix/a.zst''] ''mix'' ''mix'' 0 [] simWorld))))) = None \<and>
   decompressOutPath sim ''mix'' ''plain'' ''mix/a.zst.zst'' = Some ''plain/a.zst'' \<and>
   files simWorld ''mix/a.zst'' = Some ''world'' \<and>
   files (snd (snd (decompressFiles sim [''mix/a.zst'', ''mix/a.zst.zst''] ''mix'' ''plain'' []
               (snd (snd (compressFiles sim [''mix/a'', ''mix/a.zst''] ''mix'' ''mix'' 0 [] simWorld))))))
     ''plain/a.zst'' = Some ''Zhello''"
proof -
  have "fst (snd (compressFiles sim [''mix/a'', ''mix/a.zst''] ''mix'' ''mix'' 0 [] simWorld)) = None"
    by code_simp
  moreover have "compressOutPath sim ''mix'' ''mix'' ''mix/a.zst'' = Some ''mix/a.zst.zst''"
    by code_simp
  moreover have "fst (snd (decompressFiles sim [''mix/a.zst'', ''mix/a.zst.zst''] ''mix'' ''plain'' []
               (snd (snd (compressFiles sim [''mix/a'', ''mix/a.zst''] ''mix'' ''mix'' 0 [] simWorld))))) = None"
    by code_simp
  moreover have "decompressOutPath sim ''mix'' ''plain'' ''mix/a.zst.zst'' = Some ''plain/a.zst''"
    by code_simp
  moreover have "files simWorld ''mix/a.zst'' = Some ''world''"
    by (simp add: simWorld_def)
  moreover have "files (snd (snd (decompressFiles sim [''mix/a.zst'', ''mix/a.zst.zst''] ''mix'' ''plain'' []
               (snd (snd (compressFiles sim [''mix/a'', ''mix/a.zst''] ''mix'' ''mix'' 0 [] simWorld))))))
     ''plain/a.zst'' = Some ''Zhello''"
    by code_simp
  ultimately show ?thesis using lossless_sim [of 0 "[]"] by (intro conjI)
qed

text \<open>
  C1, as the code has it. Let the zstd library be lossless for the level and the
  dictionary bytes given to both sides. When \<^verbatim>\<open>compressFiles\<close> returns no error on a
  batch, \<^verbatim>\<open>decompressFiles\<close> returns no error on the files it wrote, and in each of the
  two batches the output paths are separate from the input paths, then every file
  decompressed holds exactly the bytes its source held.
\<close>

theorem compress_decompress_round_trip:
  assumes "lossless X level dictBytes"
    and "compressFiles X paths baseDir outDir level dictBytes w0 = (st1, None, w1)"
    and "separateOutputs (compressOutPath X baseDir outDir) paths"
    and "map (compressOutPath X baseDir outDir) paths = map Some zpaths"
    and "decompressFiles X zpaths zbase plainDir dictBytes w1 = (st2, None, w2)"
    and "separateOutputs (decompressOutPath X zbase plainDir) zpaths"
    and "i < length paths"
  shows "\<exists>plain bs. decompressOutPath X zbase plainDir (zpaths ! i) = Some plain \<and>
           files w0 (paths ! i) = Some bs \<and> files w2 plain = Some bs"
proof -
  let ?eo = "compressOptions X level dictBytes"
  let ?do = "decompressOptions dictBytes"
  have len: "length zpaths = length paths"
    using assms(4) by (metis length_map)
  have c: "compressLoop X ?eo paths baseDir outDir
             \<lparr>FilesProcessed = 0, InputBytes = 0, OutputBytes = 0\<rparr> w0 = (st1, None, w1)"
    using assms(2) by (cases "NewWriter X ?eo") (simp_all add: compressFiles_def Let_def)
  have d: "decompressLoop X ?do zpaths zbase plainDir
             \<lparr>FilesProcessed = 0, InputBytes = 0, OutputBytes = 0\<rparr> w1 = (st2, None, w2)"
    using assms(5) by (cases "NewReader X ?do") (simp_all add: decompressFiles_def Let_def)
  have pi: "paths ! i \<in> set paths" using assms(7) by simp
  have zi: "zpaths ! i \<in> set zpaths" using assms(7) len by simp
  from compressLoop_files [OF c assms(3), THEN conjunct2] pi
  obtain out bs where out: "compressOutPath X baseDir outDir (paths ! i) = Some out"
    and bs: "files w0 (paths ! i) = Some bs" and enc: "files w1 out = Some (Encode X ?eo bs)"
    by blast
  have "map (compressOutPath X baseDir outDir) paths ! i = map Some zpaths ! i"
    using assms(4) by simp
  then have "compressOutPath X baseDir outDir (paths ! i) = Some (zpaths ! i)"
    using assms(7) len by simp
  with out have oz: "out = zpaths ! i" by simp
  from decompressLoop_files [OF d assms(6), THEN conjunct2] zi
  obtain plain c' where plain: "decompressOutPath X zbase plainDir (zpaths ! i) = Some plain"
    and c': "files w1 (zpaths ! i) = Some c'" and dec: "files w2 plain = Some (fst (Decode X ?do c'))"
    by blast
  from enc oz c' have "c' = Encode X ?eo bs" by simp
  with assms(1) have "fst (Decode X ?do c') = bs" by (simp add: lossless_def)
  with dec have "files w2 plain = Some bs" by simp
  with plain bs show ?thesis by (intro exI conjI)
qed


theorem compress_decompress_round_trip_witness:
  "lossless sim 0 ''dic'' \<and>
   fst (snd (compressFiles sim [''in/a.txt'', ''in/sub/b.txt''] ''in'' ''out'' 0 ''dic'' simWorld)) = None \<and>
   separateOutputs (compressOutPath sim ''in'' ''out'') [''in/a.txt'', ''in/sub/b.txt''] \<and>
   map (compressOutPath sim ''in'' ''out'') [''in/a.txt'', ''in/sub/b.txt'']
     = map Some [''out/a.txt.zst'', ''out/sub/b.txt.zst''] \<and>
   fst (snd (decompressFiles sim [''out/a.txt.zst'', ''out/sub/b.txt.zst''] ''out'' ''plain'' ''dic''
               (snd (snd (compressFiles sim [''in/a.txt'', ''in/sub/b.txt''] ''in'' ''out'' 0 ''dic'' simWorld))))) = None \<and>
   separateOutputs (decompressOutPath sim ''out'' ''plain'') [''out/a.txt.zst'', ''out/sub/b.txt.zst''] \<and>
   (1::nat) < length [''in/a.txt'', ''in/sub/b.txt''] \<and>
   decompressOutPath sim ''out'' ''plain'' ([''out/a.txt.zst'', ''out/sub/b.txt.zst''] ! 1) = Some ''plain/sub/b.txt'' \<and>
   files simWorld ([''in/a.txt'', ''in/sub/b.txt''] ! 1) = Some ''hello '' \<and>
   files (snd (snd (decompressFiles sim [''out/a.txt.zst'', ''out/sub/b.txt.zst''] ''out'' ''plain'' ''dic''
               (snd (snd (compressFiles sim [''in/a.txt'', ''in/sub/b.txt''] ''in'' ''out'' 0 ''dic'' simWorld))))))
     ''plain/sub/b.txt'' = Some ''hello ''"
proof -
  let ?P = "[''in/a.txt'', ''in/sub/b.txt'']"
  let ?Z = "[''out/a.txt.zst'', ''out/sub/b.txt.zst'']"
  let ?C = "compressFiles sim ?P ''in'' ''out'' 0 ''dic'' simWorld"
  let ?D = "decompressFiles sim ?Z ''out'' ''plain'' ''dic'' (snd (snd ?C))"
  have h1: "lossless sim 0 ''dic''" by (rule lossless_sim)
  have c0: "fst (snd ?C) = None" by code_simp
  then have h2: "?C = (fst ?C, None, snd (snd ?C))" by (metis prod.collapse)
  have m1: "compressOutPath sim ''in'' ''out'' ''in/a.txt'' = Some ''out/a.txt.zst''" by code_simp
  have m2: "compressOutPath sim ''in'' ''out'' ''in/sub/b.txt'' = Some ''out/sub/b.txt.zst''" by code_simp
  have h3: "separateOutputs (compressOutPath sim ''in'' ''out'') ?P"
    by (simp add: separateOutputs_def m1 m2)
  have h4: "map (compressOutPath sim ''in'' ''out'') ?P = map Some ?Z"
    by (simp add: m1 m2)
  have d0: "fst (snd ?D) = None" by code_simp
  then have h5: "?D = (fst ?D, None, snd (snd ?D))" by (metis prod.collapse)
  have n1: "decompressOutPath sim ''out'' ''plain'' ''out/a.txt.zst'' = Some ''plain/a.txt''" by code_simp
  have n2: "decompressOutPath sim ''out'' ''plain'' ''out/sub/b.txt.zst'' = Some ''plain/sub/b.txt''" by code_simp
  have h6: "separateOutputs (decompressOutPath sim ''out'' ''plain'') ?Z"
    by (simp add: separateOutputs_def n1 n2)
  have h7: "(1::nat) < length ?P" by simp
  from compress_decompress_round_trip [OF h1 h2 h3 h4 h5 h6 h7]
  obtain plain bs where r1: "decompressOutPath sim ''out'' ''plain'' (?Z ! 1) = Some plain"
    and r2: "files simWorld (?P ! 1) = Some bs" and r3: "files (snd (snd ?D)) plain = Some bs"
    by blast
  from r1 n2 have p: "plain = ''plain/sub/b.txt''" by simp
  have "files simWorld (?P ! 1) = Some ''hello ''" by (simp add: simWorld_def)
  with r2 have b: "bs = ''hello ''" by simp
  from h1 c0 h3 h4 d0 h6 h7 r1 r2 r3 show ?thesis unfolding p b by (intro conjI)
qed

section \<open>Generating the records\<close>

lemma joinComma_Cons:
  "joinComma (b # bs) = b @ concat (map (\<lambda>x. [CHR '','', CHR 0x0A] @ x) bs)"
  by (induction bs arbitrary: b) simp_all

lemma makeMovie_id: "m_ID (fst (makeMovie X g k)) = k"
  by (simp add: makeMovie_def split: prod.splits)

lemma makeBook_id: "b_ID (fst (makeBook X g k)) = k"
  by (simp add: makeBook_def split: prod.splits)

lemma makePerson_id: "p_ID (fst (makePerson X g k)) = k"
  by (simp add: makePerson_def split: prod.splits)

lemma makeItemOf_id: "itemID (fst (makeItemOf X ty i g)) = i + 1"
proof -
  have "itemID (fst (case makeMovie X g (i + 1) of (m, g1) \<Rightarrow> (MovieItem m, g1))) = i + 1"
    using makeMovie_id [of X g "i + 1"] by (cases "makeMovie X g (i + 1)") simp
  moreover have "itemID (fst (case makeBook X g (i + 1) of (b, g1) \<Rightarrow> (BookItem b, g1))) = i + 1"
    using makeBook_id [of X g "i + 1"] by (cases "makeBook X g (i + 1)") simp
  moreover have "itemID (fst (case makePerson X g (i + 1) of (p, g1) \<Rightarrow> (PersonItem p, g1))) = i + 1"
    using makePerson_id [of X g "i + 1"] by (cases "makePerson X g (i + 1)") simp
  ultimately show ?thesis by (simp add: makeItemOf_def)
qed

lemma itemsFrom_ids:
  "(\<And>k g. itemID (fst (makeItem k g)) = k + 1) \<Longrightarrow>
     map itemID (itemsFrom makeItem i count r) = [i + 1..count]"
proof (induction makeItem i count r rule: itemsFrom.induct)
  case (1 makeItem i count r)
  show ?case
  proof (cases "i < count")
    case True
    obtain it r1 where mk: "makeItem i r = (it, r1)" by (cases "makeItem i r")
    then have id: "itemID it = i + 1" using "1.prems" [of i r] by simp
    have "itemsFrom makeItem i count r = it # itemsFrom makeItem (i + 1) count r1"
      using True mk by (subst itemsFrom.simps) simp
    moreover have "map itemID (itemsFrom makeItem (i + 1) count r1) = [i + 1 + 1..count]"
      using "1.IH" [OF True mk [symmetric] "1.prems"] by simp
    moreover have "[i + 1..count] = (i + 1) # [i + 1 + 1..count]"
      using True by (simp add: upto_rec1)
    ultimately show ?thesis using id by simp
  next
    case False
    then have "itemsFrom makeItem i count r = []" by (subst itemsFrom.simps) simp
    then show ?thesis using False by simp
  qed
qed


lemma os_Write_append:
  assumes "files w path = Some old" and "capacity w path = None"
  shows "os_Write path data w = Inr (w\<lparr>files := (files w)(path \<mapsto> old @ data)\<rparr>)"
  using assms by (simp add: os_Write_def)

lemma writeItems_content:
  "files w path = Some pre \<Longrightarrow> capacity w path = None \<Longrightarrow> (\<forall>it. \<exists>b. Marshal X it = Inr b) \<Longrightarrow> 0 \<le> i \<Longrightarrow>
     \<exists>r' w'. writeItems X path count makeItem i r w = (None, r', w') \<and> capacity w' path = None \<and>
        files w' path = Some (pre @
          (if i > 0
           then concat (map (\<lambda>x. [CHR '','', CHR 0x0A] @ x) (map (marshalled X) (itemsFrom makeItem i count r)))
           else joinComma (map (marshalled X) (itemsFrom makeItem i count r))))"
proof (induction X path count makeItem i r w arbitrary: pre rule: writeItems.induct)
  case (1 X path count makeItem i r w)
  let ?sep = "[CHR '','', CHR 0x0A]"
  show ?case
  proof (cases "i < count")
    case False
    then have "writeItems X path count makeItem i r w = (None, r, w)"
      by (subst writeItems.simps) simp
    moreover have "itemsFrom makeItem i count r = []"
      using False by (subst itemsFrom.simps) simp
    ultimately show ?thesis using "1.prems"(1,2) by simp
  next
    case True
    define pre1 where "pre1 = (if i > 0 then pre @ ?sep else pre)"
    define w1 where "w1 = (if i > 0 then w\<lparr>files := (files w)(path \<mapsto> pre @ ?sep)\<rparr> else w)"
    have s1: "(if i > 0 then os_Write path ?sep w else Inr w) = Inr w1"
      using os_Write_append [OF "1.prems"(1) "1.prems"(2), of ?sep] by (simp add: w1_def)
    have f1: "files w1 path = Some pre1" and c1: "capacity w1 path = None"
      using "1.prems"(1,2) by (simp_all add: w1_def pre1_def)
    obtain it r1 where mk: "makeItem i r = (it, r1)" by (cases "makeItem i r")
    obtain data where ma: "Marshal X it = Inr data" using "1.prems"(3) by blast
    then have md: "marshalled X it = data" by (simp add: marshalled_def)
    define w2 where "w2 = w1\<lparr>files := (files w1)(path \<mapsto> pre1 @ data)\<rparr>"
    have s2: "os_Write path data w1 = Inr w2"
      using os_Write_append [OF f1 c1, of data] by (simp add: w2_def)
    have f2: "files w2 path = Some (pre1 @ data)" and c2: "capacity w2 path = None"
      using c1 by (simp_all add: w2_def)
    have step: "writeItems X path count makeItem i r w = writeItems X path count makeItem (i + 1) r1 w2"
      using True s1 mk ma s2 by (subst writeItems.simps) simp
    have "0 \<le> i + 1" using "1.prems"(4) by simp
    note ih = "1.IH" [OF True s1 mk [symmetric] ma s2 f2 c2 "1.prems"(3) this]
    have pos: "0 < i + 1" using "1.prems"(4) by simp
    from ih obtain r' w' where res: "writeItems X path count makeItem (i + 1) r1 w2 = (None, r', w')"
      and cw: "capacity w' path = None"
      and fw0: "files w' path = Some ((pre1 @ data) @
          (if 0 < i + 1
           then concat (map (\<lambda>x. ?sep @ x) (map (marshalled X) (itemsFrom makeItem (i + 1) count r1)))
           else joinComma (map (marshalled X) (itemsFrom makeItem (i + 1) count r1))))"
      by (elim exE conjE)
    from fw0 have fw: "files w' path = Some ((pre1 @ data) @
          concat (map (\<lambda>x. ?sep @ x) (map (marshalled X) (itemsFrom makeItem (i + 1) count r1))))"
      by (simp only: pos if_True)
    have items: "itemsFrom makeItem i count r = it # itemsFrom makeItem (i + 1) count r1"
      using True mk by (subst itemsFrom.simps) simp
    have "(pre1 @ data) @ concat (map (\<lambda>x. ?sep @ x) (map (marshalled X) (itemsFrom makeItem (i + 1) count r1)))
        = pre @ (if i > 0
           then concat (map (\<lambda>x. ?sep @ x) (map (marshalled X) (itemsFrom makeItem i count r)))
           else joinComma (map (marshalled X) (itemsFrom makeItem i count r)))"
      unfolding items by (simp add: pre1_def md joinComma_Cons del: joinComma.simps)
    with fw cw res step show ?thesis by (simp del: joinComma.simps)
  qed
qed

lemma writeJSONArray_content:
  assumes "os_Create X path w = Inr w1" and "capacity w path = None"
    and "\<forall>it. \<exists>b. Marshal X it = Inr b"
  shows "\<exists>r' w'. writeJSONArray X path count makeItem r w = (None, r', w') \<and>
           files w' path = Some (jsonArray (map (marshalled X) (itemsFrom makeItem 0 count r)))"
proof -
  from assms(1) have f1: "files w1 path = Some []" and c1: "capacity w1 path = None"
    using assms(2) by (auto simp: os_Create_def split: if_splits)
  define w2 where "w2 = w1\<lparr>files := (files w1)(path \<mapsto> [] @ [CHR ''['', CHR 0x0A])\<rparr>"
  have s2: "os_Write path [CHR ''['', CHR 0x0A] w1 = Inr w2"
    using os_Write_append [OF f1 c1] by (simp add: w2_def)
  have f2: "files w2 path = Some [CHR ''['', CHR 0x0A]" and c2: "capacity w2 path = None"
    using c1 by (simp_all add: w2_def)
  have "(0::int) \<le> 0" by simp
  from writeItems_content [OF f2 c2 assms(3) this, of count makeItem r]
  obtain r' w3 where wi: "writeItems X path count makeItem 0 r w2 = (None, r', w3)"
    and c3: "capacity w3 path = None"
    and f30: "files w3 path = Some ([CHR ''['', CHR 0x0A] @
          (if (0::int) < 0
           then concat (map (\<lambda>x. [CHR '','', CHR 0x0A] @ x) (map (marshalled X) (itemsFrom makeItem 0 count r)))
           else joinComma (map (marshalled X) (itemsFrom makeItem 0 count r))))"
    by (elim exE conjE)
  from f30 have f3: "files w3 path = Some ([CHR ''['', CHR 0x0A]
               @ joinComma (map (marshalled X) (itemsFrom makeItem 0 count r)))"
    by (simp only: less_irrefl if_False)
  define w4 where "w4 = w3\<lparr>files := (files w3)(path \<mapsto>
      ([CHR ''['', CHR 0x0A] @ joinComma (map (marshalled X) (itemsFrom makeItem 0 count r)))
      @ [CHR 0x0A, CHR '']'', CHR 0x0A])\<rparr>"
  have s4: "os_Write path [CHR 0x0A, CHR '']'', CHR 0x0A] w3 = Inr w4"
    using os_Write_append [OF f3 c3] by (simp add: w4_def)
  have "writeJSONArray X path count makeItem r w = (None, r', w4)"
    using assms(1) s2 wi s4 by (simp add: writeJSONArray_def)
  moreover have "files w4 path = Some (jsonArray (map (marshalled X) (itemsFrom makeItem 0 count r)))"
    by (simp add: w4_def jsonArray_def)
  ultimately show ?thesis by blast
qed

lemma generate_is_writeJSONArray:
  assumes "ty = ''movies'' \<or> ty = ''books'' \<or> ty = ''people''"
  shows "generate X ty path count r w = writeJSONArray X path count (makeItemOf X ty) r w"
proof -
  have m: "makeItemOf X ''movies'' = (\<lambda>i g. case makeMovie X g (i + 1) of (m, g1) \<Rightarrow> (MovieItem m, g1))"
    by (rule ext)+ (simp add: makeItemOf_def)
  have b: "makeItemOf X ''books'' = (\<lambda>i g. case makeBook X g (i + 1) of (b, g1) \<Rightarrow> (BookItem b, g1))"
    by (rule ext)+ (simp add: makeItemOf_def)
  have p: "makeItemOf X ''people'' = (\<lambda>i g. case makePerson X g (i + 1) of (p, g1) \<Rightarrow> (PersonItem p, g1))"
    by (rule ext)+ (simp add: makeItemOf_def)
  from assms show ?thesis
  proof (elim disjE)
    assume "ty = ''movies''" then show ?thesis by (simp add: generate_def m)
  next
    assume "ty = ''books''" then show ?thesis by (simp add: generate_def b)
  next
    assume "ty = ''people''" then show ?thesis by (simp add: generate_def p)
  qed
qed

text \<open>
  C4. With \<^verbatim>\<open>-n\<close> at least 1 and a valid \<^verbatim>\<open>-type\<close>, in a run in which the output
  directory and the output file can be created, the file accepts what is written and
  \<^verbatim>\<open>json.Marshal\<close> succeeds, the output file ends up holding the JSON array of the
  encodings of exactly \<open>n\<close> records, and their identifiers are 1, 2, ..., \<open>n\<close> in this order.
\<close>

theorem generator_writes_count_records:
  assumes "1 \<le> g_count f" and "g_dataType f \<noteq> []"
    and "ty = ToLower X (TrimSpace X (g_dataType f))"
    and "ty = ''movies'' \<or> ty = ''books'' \<or> ty = ''people''"
    and "outputFile = Join X (g_outDir f) (ty @ ''_'' @ Now X @ ''.json'')"
    and "\<forall>it. \<exists>b. Marshal X it = Inr b"
    and "os_MkdirAll (g_outDir f) w = Inr w1"
    and "os_Create X outputFile w1 = Inr w2"
    and "capacity w outputFile = None"
  shows "files (disk (generate_main X f r w)) outputFile
           = Some (jsonArray (map (marshalled X) (itemsFrom (makeItemOf X ty) 0 (g_count f) r))) \<and>
         length (itemsFrom (makeItemOf X ty) 0 (g_count f) r) = nat (g_count f) \<and>
         map itemID (itemsFrom (makeItemOf X ty) 0 (g_count f) r) = [1..g_count f] \<and>
         distinct (map itemID (itemsFrom (makeItemOf X ty) 0 (g_count f) r))"
proof -
  let ?items = "itemsFrom (makeItemOf X ty) 0 (g_count f) r"
  have ids: "map itemID ?items = [1..g_count f]"
    using itemsFrom_ids [of "makeItemOf X ty" 0 "g_count f" r] makeItemOf_id by simp
  have "length (map itemID ?items) = nat (g_count f)"
    unfolding ids using assms(1) by simp
  then have len: "length ?items = nat (g_count f)" by simp
  have dis: "distinct (map itemID ?items)" unfolding ids by simp
  have c1: "capacity w1 outputFile = None"
    using assms(7,9) by (auto simp: os_MkdirAll_def split: if_splits)
  from writeJSONArray_content [OF assms(8) c1 assms(6), of "g_count f" "makeItemOf X ty" r]
  obtain r' w' where wj: "writeJSONArray X outputFile (g_count f) (makeItemOf X ty) r w1 = (None, r', w')"
    and fw: "files w' outputFile = Some (jsonArray (map (marshalled X) ?items))"
    by (elim exE conjE)
  have gen: "generate X ty outputFile (g_count f) r w1 = (None, r', w')"
    using generate_is_writeJSONArray [OF assms(4)] wj by simp
  let ?ty = "ToLower X (TrimSpace X (g_dataType f))"
  have condF: "(?ty \<noteq> ''movies'' \<and> ?ty \<noteq> ''books'' \<and> ?ty \<noteq> ''people'') = False"
    using assms(4) unfolding assms(3) by blast
  have if1: "(g_dataType f = []) = False" using assms(2) by simp
  have if2: "(g_count f \<le> 0) = False" using assms(1) by simp
  have gen': "generate X ?ty (Join X (g_outDir f) (?ty @ ''_'' @ Now X @ ''.json'')) (g_count f) r w1
      = (None, r', w')"
    using gen unfolding assms(5) assms(3) .
  have "disk (generate_main X f r w) = w'"
    unfolding generate_main_def Let_def using gen' assms(7)
    by (cases "generate_pushMetrics X (g_pushURL f) ?ty (g_count f)")
       (simp_all add: condF if1 if2)
  with fw ids len dis show ?thesis by simp
qed


theorem generator_writes_count_records_witness:
  "1 \<le> g_count simGenerateFlags \<and> g_dataType simGenerateFlags \<noteq> [] \<and>
   ''people'' = ToLower sim (TrimSpace sim (g_dataType simGenerateFlags)) \<and>
   ''output/people_20260101_120000.json''
     = Join sim (g_outDir simGenerateFlags) (''people'' @ ''_'' @ Now sim @ ''.json'') \<and>
   (\<forall>it. \<exists>b. Marshal sim it = Inr b) \<and>
   os_MkdirAll (g_outDir simGenerateFlags) simWorld
     = Inr (simWorld\<lparr>dirs := insert ''output'' (dirs simWorld)\<rparr>) \<and>
   (\<exists>w2. os_Create sim ''output/people_20260101_120000.json''
            (simWorld\<lparr>dirs := insert ''output'' (dirs simWorld)\<rparr>) = Inr w2) \<and>
   capacity simWorld ''output/people_20260101_120000.json'' = None \<and>
   files (disk (generate_main sim simGenerateFlags simRng simWorld)) ''output/people_20260101_120000.json''
     = Some (jsonArray (map (marshalled sim) (itemsFrom (makeItemOf sim ''people'') 0 3 simRng))) \<and>
   length (itemsFrom (makeItemOf sim ''people'') 0 3 simRng) = 3 \<and>
   map itemID (itemsFrom (makeItemOf sim ''people'') 0 3 simRng) = [1, 2, 3] \<and>
   jsonArray (map (marshalled sim) (itemsFrom (makeItemOf sim ''people'') 0 3 simRng))
     = [CHR ''['', CHR 0x0A] @ ''{\"id\":1}'' @ [CHR '','', CHR 0x0A] @ ''{\"id\":2}''
       @ [CHR '','', CHR 0x0A] @ ''{\"id\":3}'' @ [CHR 0x0A, CHR '']'', CHR 0x0A]"
proof -
  let ?out = "''output/people_20260101_120000.json''"
  let ?w1 = "simWorld\<lparr>dirs := insert ''output'' (dirs simWorld)\<rparr>"
  have h1: "1 \<le> g_count simGenerateFlags" by (simp add: simGenerateFlags_def)
  have h2: "g_dataType simGenerateFlags \<noteq> []" by (simp add: simGenerateFlags_def)
  have h3: "''people'' = ToLower sim (TrimSpace sim (g_dataType simGenerateFlags))" by code_simp
  have h4: "''people'' = ''movies'' \<or> ''people'' = ''books'' \<or> ''people'' = ''people''" by simp
  have h5: "?out = Join sim (g_outDir simGenerateFlags) (''people'' @ ''_'' @ Now sim @ ''.json'')"
    by code_simp
  have h6: "\<forall>it. \<exists>b. Marshal sim it = Inr b" by (simp add: sim_def)
  have h7: "os_MkdirAll (g_outDir simGenerateFlags) simWorld = Inr ?w1"
    by (simp add: os_MkdirAll_def simGenerateFlags_def simWorld_def)
  define w2 where "w2 = ?w1\<lparr>files := (files ?w1)(?out \<mapsto> [])\<rparr>"
  have d: "Dir sim ?out = ''output''" by (simp add: sim_def simDir_def)
  have h8: "os_Create sim ?out ?w1 = Inr w2"
    by (simp add: os_Create_def d w2_def simWorld_def)
  have h9: "capacity simWorld ?out = None" by (simp add: simWorld_def)
  have n: "g_count simGenerateFlags = 3" by (simp add: simGenerateFlags_def)
  from generator_writes_count_records [OF h1 h2 h3 h4 h5 h6 h7 h8 h9, of simRng]
  have r1: "files (disk (generate_main sim simGenerateFlags simRng simWorld)) ?out
     = Some (jsonArray (map (marshalled sim) (itemsFrom (makeItemOf sim ''people'') 0 3 simRng)))"
    and r2: "length (itemsFrom (makeItemOf sim ''people'') 0 3 simRng) = 3"
    and r3: "map itemID (itemsFrom (makeItemOf sim ''people'') 0 3 simRng) = [1..3]"
    unfolding n by simp_all
  have u: "[1..3] = [1, 2, (3::int)]" by code_simp
  have r4: "jsonArray (map (marshalled sim) (itemsFrom (makeItemOf sim ''people'') 0 3 simRng))
     = [CHR ''['', CHR 0x0A] @ ''{\"id\":1}'' @ [CHR '','', CHR 0x0A] @ ''{\"id\":2}''
       @ [CHR '','', CHR 0x0A] @ ''{\"id\":3}'' @ [CHR 0x0A, CHR '']'', CHR 0x0A]"
    by code_simp
  from h8 have h8': "\<exists>w2. os_Create sim ?out ?w1 = Inr w2" by blast
  from h1 h2 h3 h5 h6 h7 h8' h9 r1 r2 r3 [unfolded u] r4 show ?thesis by (intro conjI)
qed

end
